(* ===== verification/Json.thy ===== *)
theory Json
  imports Pystr
begin

text \<open>
  The values the program computes with: what \<open>json.loads\<close> returns, and the operations of
  the Python data model the code applies to them (truth value, \<open>str\<close>, \<open>repr\<close>, \<open>float\<close>,
  \<open>int\<close>, \<open>==\<close>, \<open>in\<close>, iteration, attribute and key access with their exceptions), and
  \<open>json.dumps\<close> with sorted keys. A finite float is kept as an exact decimal
  \<open>Dec m e\<close>, that is \<open>m * 10^e\<close>, in lowest terms; rounding to a binary double and the
  sign of zero are not modelled.
\<close>

section \<open>Values\<close>

datatype flt = Dec int int | PosInf | NegInf | NaN

datatype json =
    JNull
  | JBool bool
  | JInt int
  | JFloat flt
  | JStr string
  | JArr "json list"
  | JObj "(string \<times> json) list"

fun is_dict :: "json \<Rightarrow> bool" where
  "is_dict (JObj kvs) = True"
| "is_dict _ = False"

fun is_list :: "json \<Rightarrow> bool" where
  "is_list (JArr xs) = True"
| "is_list _ = False"

fun is_str :: "json \<Rightarrow> bool" where
  "is_str (JStr s) = True"
| "is_str _ = False"

fun type_name :: "json \<Rightarrow> string" where
  "type_name JNull = ''NoneType''"
| "type_name (JBool b) = ''bool''"
| "type_name (JInt i) = ''int''"
| "type_name (JFloat f) = ''float''"
| "type_name (JStr s) = ''str''"
| "type_name (JArr xs) = ''list''"
| "type_name (JObj kvs) = ''dict''"

text \<open>The entries of a dict and the items of a list (empty for any other value).\<close>

fun entries :: "json \<Rightarrow> json dict" where
  "entries (JObj kvs) = kvs"
| "entries _ = []"

fun items :: "json \<Rightarrow> json list" where
  "items (JArr xs) = xs"
| "items _ = []"

section \<open>Truth value, lookup and update\<close>

fun truthy :: "json \<Rightarrow> bool" where
  "truthy JNull = False"
| "truthy (JBool b) = b"
| "truthy (JInt i) = (i \<noteq> 0)"
| "truthy (JFloat f) = (case f of Dec m e \<Rightarrow> m \<noteq> 0 | _ \<Rightarrow> True)"
| "truthy (JStr s) = (s \<noteq> [])"
| "truthy (JArr xs) = (xs \<noteq> [])"
| "truthy (JObj kvs) = (kvs \<noteq> [])"

text \<open>\<open>a or b\<close>\<close>

definition py_or :: "json \<Rightarrow> json \<Rightarrow> json" where
  "py_or a b = (if truthy a then a else b)"

text \<open>\<open>d.get(k)\<close> and \<open>d.get(k, v)\<close> on a dict; the \<open>res\<close> form raises on other types.\<close>

definition get_or :: "json \<Rightarrow> string \<Rightarrow> json \<Rightarrow> json" where
  "get_or m k v = (case dget (entries m) k of None \<Rightarrow> v | Some x \<Rightarrow> x)"

definition jget :: "json \<Rightarrow> string \<Rightarrow> json" where
  "jget m k = get_or m k JNull"

definition has_key :: "json \<Rightarrow> string \<Rightarrow> bool" where
  "has_key m k \<longleftrightarrow> dget (entries m) k \<noteq> None"

definition attribute_error :: "json \<Rightarrow> string \<Rightarrow> exc" where
  "attribute_error j a =
     PyError AttributeError
       ([CHR 0x27] @ type_name j @ [CHR 0x27] @ '' object has no attribute '' @ [CHR 0x27] @ a @ [CHR 0x27])"

definition py_get :: "json \<Rightarrow> string \<Rightarrow> json res" where
  "py_get m k = (if is_dict m then Inr (jget m k) else Inl (attribute_error m ''get''))"

definition jset :: "string \<Rightarrow> json \<Rightarrow> json \<Rightarrow> json" where
  "jset k v m = JObj (dset k v (entries m))"

text \<open>\<open>x if isinstance(x, dict) else {}\<close> and its list form.\<close>

definition dict_or_empty :: "json \<Rightarrow> json" where
  "dict_or_empty x = (if is_dict x then x else JObj [])"

definition list_or_empty :: "json \<Rightarrow> json list" where
  "list_or_empty x = (if is_list x then items x else [])"

lemma jget_jset [simp]: "jget (jset k v m) k' = (if k' = k then v else jget m k')"
  by (simp add: jget_def get_or_def jset_def)

lemma is_dict_jset [simp]: "is_dict (jset k v m)"
  by (simp add: jset_def)

lemma jget_empty [simp]: "jget (JObj []) k = JNull"
  by (simp add: jget_def get_or_def)

lemma jget_not_dict: "\<not> is_dict m \<Longrightarrow> jget m k = JNull"
  by (cases m) (auto simp: jget_def get_or_def)

lemma is_dict_iff: "is_dict m \<longleftrightarrow> (\<exists>kvs. m = JObj kvs)"
  by (cases m) auto

lemma is_list_iff: "is_list m \<longleftrightarrow> (\<exists>xs. m = JArr xs)"
  by (cases m) auto

lemma is_str_iff: "is_str m \<longleftrightarrow> (\<exists>s. m = JStr s)"
  by (cases m) auto

lemma entries_jset [simp]: "entries (jset k v m) = dset k v (entries m)"
  by (simp add: jset_def)

section \<open>Numbers\<close>

function dec_norm :: "int \<Rightarrow> int \<Rightarrow> flt" where
  "dec_norm m e =
     (if m = 0 then Dec 0 0
      else if m mod 10 = 0 then dec_norm (m div 10) (e + 1)
      else Dec m e)"
  by pat_completeness auto
termination
  by (relation "measure (\<lambda>(m, e). nat \<bar>m\<bar>)") auto

declare dec_norm.simps [simp del]

definition dec_le :: "int \<Rightarrow> int \<Rightarrow> int \<Rightarrow> int \<Rightarrow> bool" where
  "dec_le m1 e1 m2 e2 =
     (let e = min e1 e2 in m1 * 10 ^ nat (e1 - e) \<le> m2 * 10 ^ nat (e2 - e))"

text \<open>The comparison \<open>a <= b\<close> of two floats: false as soon as one is NaN.\<close>

fun flt_le :: "flt \<Rightarrow> flt \<Rightarrow> bool" where
  "flt_le NaN _ = False"
| "flt_le _ NaN = False"
| "flt_le NegInf _ = True"
| "flt_le _ PosInf = True"
| "flt_le PosInf _ = False"
| "flt_le _ NegInf = False"
| "flt_le (Dec m1 e1) (Dec m2 e2) = dec_le m1 e1 m2 e2"

definition flt_lt :: "flt \<Rightarrow> flt \<Rightarrow> bool" where
  "flt_lt a b \<longleftrightarrow> a \<noteq> NaN \<and> b \<noteq> NaN \<and> \<not> flt_le b a"

definition flt_of_int :: "int \<Rightarrow> flt" where
  "flt_of_int i = dec_norm i 0"

text \<open>Truncation towards zero, as \<open>int(x)\<close> does.\<close>

definition dec_trunc :: "int \<Rightarrow> int \<Rightarrow> int" where
  "dec_trunc m e = (if 0 \<le> e then m * 10 ^ nat e else sgn m * (\<bar>m\<bar> div 10 ^ nat (- e)))"

text \<open>\<open>float(s)\<close> on text: digits may be grouped by single underscores.\<close>

fun drop_underscores :: "bool \<Rightarrow> string \<Rightarrow> string option" where
  "drop_underscores prev [] = Some []"
| "drop_underscores prev (c # s) =
     (if c = CHR ''_'' then
        (if prev \<and> s \<noteq> [] \<and> is_digit (hd s) then drop_underscores False s else None)
      else map_option (Cons c) (drop_underscores (is_digit c) s))"

definition split_sign :: "string \<Rightarrow> int \<times> string" where
  "split_sign s = (case s of [] \<Rightarrow> (1, [])
     | c # r \<Rightarrow> if c = CHR ''-'' then (-1, r) else if c = CHR ''+'' then (1, r) else (1, s))"

definition parse_exponent :: "string \<Rightarrow> int option" where
  "parse_exponent s =
     (case s of [] \<Rightarrow> Some 0
      | c # r \<Rightarrow>
          if lower_char c = CHR ''e'' then
            (let (sg, ds) = split_sign r in
             if ds \<noteq> [] \<and> list_all is_digit ds then Some (sg * int (digits_val ds)) else None)
          else None)"

definition parse_decimal :: "string \<Rightarrow> (int \<times> int) option" where
  "parse_decimal s =
     (let ip = takeWhile is_digit s; r = dropWhile is_digit s;
          has_dot = (r \<noteq> [] \<and> hd r = CHR ''.'');
          fp = (if has_dot then takeWhile is_digit (tl r) else []);
          r' = (if has_dot then dropWhile is_digit (tl r) else r)
      in if ip = [] \<and> fp = [] then None
         else map_option (\<lambda>ex. (int (digits_val (ip @ fp)), ex - int (length fp))) (parse_exponent r'))"

definition float_of_str :: "string \<Rightarrow> flt option" where
  "float_of_str s =
     (let (sg, r) = split_sign (str_strip s); w = str_lower r in
      if w = ''inf'' \<or> w = ''infinity'' then Some (if sg < 0 then NegInf else PosInf)
      else if w = ''nan'' then Some NaN
      else (case drop_underscores False r of None \<Rightarrow> None
            | Some t \<Rightarrow> map_option (\<lambda>(m, e). dec_norm (sg * m) e) (parse_decimal t)))"

definition int_of_str :: "string \<Rightarrow> int option" where
  "int_of_str s =
     (let (sg, r) = split_sign (str_strip s) in
      (case drop_underscores False r of None \<Rightarrow> None
       | Some t \<Rightarrow> if t \<noteq> [] \<and> list_all is_digit t then Some (sg * int (digits_val t)) else None))"

section \<open>\<open>repr\<close> and \<open>str\<close>\<close>

definition hex_digit :: "nat \<Rightarrow> char" where
  "hex_digit d = (if d < 10 then char_of (48 + d) else char_of (87 + d))"

definition hex2 :: "nat \<Rightarrow> string" where
  "hex2 n = [hex_digit (n div 16), hex_digit (n mod 16)]"

definition repr_char :: "char \<Rightarrow> char \<Rightarrow> string" where
  "repr_char q c =
     (let n = code c in
      if c = q \<or> n = 92 then [CHR 0x5C, c]
      else if n = 9 then [CHR 0x5C, CHR ''t'']
      else if n = 10 then [CHR 0x5C, CHR ''n'']
      else if n = 13 then [CHR 0x5C, CHR ''r'']
      else if n < 32 \<or> 127 \<le> n \<and> n \<le> 160 \<or> n = 173 then [CHR 0x5C, CHR ''x''] @ hex2 n
      else [c])"

definition repr_str :: "string \<Rightarrow> string" where
  "repr_str s =
     (let q = (if CHR 0x27 \<in> set s \<and> CHR 0x22 \<notin> set s then CHR 0x22 else CHR 0x27)
      in [q] @ concat (map (repr_char q) s) @ [q])"

definition two_digits :: "nat \<Rightarrow> string" where
  "two_digits n = (if n < 10 then CHR ''0'' # nat_digits n else nat_digits n)"

definition repr_dec :: "int \<Rightarrow> int \<Rightarrow> string" where
  "repr_dec m e =
     (let ds = nat_digits (nat \<bar>m\<bar>); n = int (length ds); dp = n + e;
          sg = (if m < 0 then ''-'' else '''') in
      if m = 0 then ''0.0''
      else if -4 < dp \<and> dp \<le> 16 then
        sg @ (if dp \<le> 0 then ''0.'' @ replicate (nat (- dp)) (CHR ''0'') @ ds
              else if n \<le> dp then ds @ replicate (nat (dp - n)) (CHR ''0'') @ ''.0''
              else take (nat dp) ds @ ''.'' @ drop (nat dp) ds)
      else sg @ take 1 ds @ (if drop 1 ds = [] then [] else ''.'' @ drop 1 ds) @ ''e''
        @ (if dp - 1 < 0 then ''-'' else ''+'') @ two_digits (nat \<bar>dp - 1\<bar>))"

fun repr_flt :: "flt \<Rightarrow> string" where
  "repr_flt (Dec m e) = repr_dec m e"
| "repr_flt PosInf = ''inf''"
| "repr_flt NegInf = ''-inf''"
| "repr_flt NaN = ''nan''"

primrec py_repr :: "json \<Rightarrow> string" where
  "py_repr JNull = ''None''"
| "py_repr (JBool b) = (if b then ''True'' else ''False'')"
| "py_repr (JInt i) = int_str i"
| "py_repr (JFloat f) = repr_flt f"
| "py_repr (JStr s) = repr_str s"
| "py_repr (JArr xs) = ''['' @ str_join '', '' (map py_repr xs) @ '']''"
| "py_repr (JObj kvs) =
     ''{'' @ str_join '', '' (map (\<lambda>(k, r). repr_str k @ '': '' @ r) (map (map_prod id py_repr) kvs)) @ ''}''"

fun py_str :: "json \<Rightarrow> string" where
  "py_str (JStr s) = s"
| "py_str j = py_repr j"

text \<open>\<open>str(x or "")\<close>, the idiom the code reads text fields with.\<close>

definition str_or_empty :: "json \<Rightarrow> string" where
  "str_or_empty j = (if truthy j then py_str j else [])"

lemma str_or_empty_JStr [simp]: "str_or_empty (JStr s) = s"
  by (simp add: str_or_empty_def)

lemma str_or_empty_JNull [simp]: "str_or_empty JNull = []"
  by (simp add: str_or_empty_def)

section \<open>Conversions that may raise\<close>

definition float_overflow :: int where
  "float_overflow = 2 ^ 1024 - 2 ^ 970"

definition type_error :: "string \<Rightarrow> exc" where
  "type_error s = PyError TypeError s"

fun py_float :: "json \<Rightarrow> flt res" where
  "py_float (JBool b) = Inr (if b then Dec 1 0 else Dec 0 0)"
| "py_float (JInt i) =
     (if \<bar>i\<bar> < float_overflow then Inr (flt_of_int i)
      else Inl (PyError OverflowError ''int too large to convert to float''))"
| "py_float (JFloat f) = Inr f"
| "py_float (JStr s) =
     (case float_of_str s of
        None \<Rightarrow> Inl (PyError ValueError (''could not convert string to float: '' @ repr_str s))
      | Some f \<Rightarrow> Inr f)"
| "py_float j = Inl (type_error (''float() argument must be a string or a real number, not ''
     @ [CHR 0x27] @ type_name j @ [CHR 0x27]))"

fun py_int :: "json \<Rightarrow> int res" where
  "py_int (JBool b) = Inr (if b then 1 else 0)"
| "py_int (JInt i) = Inr i"
| "py_int (JFloat (Dec m e)) = Inr (dec_trunc m e)"
| "py_int (JFloat NaN) = Inl (PyError ValueError ''cannot convert float NaN to integer'')"
| "py_int (JFloat _) = Inl (PyError OverflowError ''cannot convert float infinity to integer'')"
| "py_int (JStr s) =
     (case int_of_str s of
        None \<Rightarrow> Inl (PyError ValueError (''invalid literal for int() with base 10: '' @ repr_str s))
      | Some i \<Rightarrow> Inr i)"
| "py_int j = Inl (type_error (''int() argument must be a string, a bytes-like object or a real number, not ''
     @ [CHR 0x27] @ type_name j @ [CHR 0x27]))"

text \<open>\<open>for x in j\<close>: lists give their items, dicts their keys, strings their characters.\<close>

fun py_iter :: "json \<Rightarrow> json list res" where
  "py_iter (JArr xs) = Inr xs"
| "py_iter (JObj kvs) = Inr (map (\<lambda>p. JStr (fst p)) kvs)"
| "py_iter (JStr s) = Inr (map (\<lambda>c. JStr [c]) s)"
| "py_iter j = Inl (type_error ([CHR 0x27] @ type_name j @ [CHR 0x27] @ '' object is not iterable''))"

section \<open>Equality and membership\<close>

text \<open>
  \<open>a == b\<close>: numbers compare by value across \<open>bool\<close>, \<open>int\<close> and \<open>float\<close>, dicts without
  regard to order, and NaN (from two different documents) equals nothing. Both sides are
  brought to a normal form: numbers with an integer value as \<open>JInt\<close>, keys sorted.
\<close>

primrec has_nan :: "json \<Rightarrow> bool" where
  "has_nan JNull = False"
| "has_nan (JBool b) = False"
| "has_nan (JInt i) = False"
| "has_nan (JFloat f) = (f = NaN)"
| "has_nan (JStr s) = False"
| "has_nan (JArr xs) = list_ex id (map has_nan xs)"
| "has_nan (JObj kvs) = list_ex snd (map (map_prod id has_nan) kvs)"

fun num_norm :: "flt \<Rightarrow> json" where
  "num_norm (Dec m e) = (if 0 \<le> e then JInt (m * 10 ^ nat e) else JFloat (Dec m e))"
| "num_norm f = JFloat f"

primrec eq_norm :: "json \<Rightarrow> json" where
  "eq_norm JNull = JNull"
| "eq_norm (JBool b) = JInt (if b then 1 else 0)"
| "eq_norm (JInt i) = JInt i"
| "eq_norm (JFloat f) = num_norm f"
| "eq_norm (JStr s) = JStr s"
| "eq_norm (JArr xs) = JArr (map eq_norm xs)"
| "eq_norm (JObj kvs) = JObj (sort_key fst (map (map_prod id eq_norm) kvs))"

definition py_eq :: "json \<Rightarrow> json \<Rightarrow> bool" where
  "py_eq a b \<longleftrightarrow> \<not> has_nan a \<and> \<not> has_nan b \<and> eq_norm a = eq_norm b"

lemma py_eq_JStr [simp]: "py_eq (JStr s) (JStr t) \<longleftrightarrow> s = t"
  by (simp add: py_eq_def)

lemma py_eq_JStr_iff: "py_eq (JStr s) j \<longleftrightarrow> j = JStr s" "py_eq j (JStr s) \<longleftrightarrow> j = JStr s"
  by (cases j; auto simp: py_eq_def split: flt.splits; case_tac x4; auto split: if_splits)+

fun hashable :: "json \<Rightarrow> bool" where
  "hashable (JArr xs) = False"
| "hashable (JObj kvs) = False"
| "hashable _ = True"

definition unhashable :: "json \<Rightarrow> exc" where
  "unhashable j = type_error (''unhashable type: '' @ [CHR 0x27] @ type_name j @ [CHR 0x27])"

text \<open>\<open>j in {"a", "b"}\<close> for a set of string literals: lists and dicts cannot be hashed.\<close>

definition in_str_set :: "json \<Rightarrow> string list \<Rightarrow> bool res" where
  "in_str_set j ss =
     (if hashable j then Inr (case j of JStr s \<Rightarrow> s \<in> set ss | _ \<Rightarrow> False)
      else Inl (unhashable j))"

text \<open>\<open>x in c\<close> for a container value \<open>c\<close>.\<close>

fun py_in :: "json \<Rightarrow> json \<Rightarrow> bool res" where
  "py_in x (JArr ys) = Inr (list_ex (py_eq x) ys)"
| "py_in x (JObj kvs) =
     (if hashable x then Inr (case x of JStr s \<Rightarrow> s \<in> fst ` set kvs | _ \<Rightarrow> False)
      else Inl (unhashable x))"
| "py_in x (JStr t) =
     (case x of JStr s \<Rightarrow> Inr (str_contains s t)
      | _ \<Rightarrow> Inl (type_error ([CHR 0x27] @ ''in <string>'' @ [CHR 0x27] @ '' requires string as left operand, not ''
               @ type_name x)))"
| "py_in x j = Inl (type_error (''argument of type '' @ [CHR 0x27] @ type_name j @ [CHR 0x27] @ '' is not iterable''))"

section \<open>\<open>json.dumps\<close> with sorted keys\<close>

text \<open>
  \<open>json.dumps(j, sort_keys=True, separators=(",", ":"))\<close>; the flag is \<open>ensure_ascii\<close>,
  which writes every character outside the printable ASCII range as an escape.
\<close>

definition json_char :: "bool \<Rightarrow> char \<Rightarrow> string" where
  "json_char asc c =
     (let n = code c; bs = CHR 0x5C in
      if n = 34 then [bs, CHR 0x22]
      else if n = 92 then [bs, bs]
      else if n = 10 then [bs, CHR ''n'']
      else if n = 13 then [bs, CHR ''r'']
      else if n = 9 then [bs, CHR ''t'']
      else if n = 12 then [bs, CHR ''f'']
      else if n = 8 then [bs, CHR ''b'']
      else if n < 32 \<or> asc \<and> 127 \<le> n then [bs, CHR ''u'', CHR ''0'', CHR ''0''] @ hex2 n
      else [c])"

definition json_string :: "bool \<Rightarrow> string \<Rightarrow> string" where
  "json_string asc s = [CHR 0x22] @ concat (map (json_char asc) s) @ [CHR 0x22]"

fun json_flt :: "flt \<Rightarrow> string" where
  "json_flt (Dec m e) = repr_dec m e"
| "json_flt PosInf = ''Infinity''"
| "json_flt NegInf = ''-Infinity''"
| "json_flt NaN = ''NaN''"

primrec json_dumps :: "bool \<Rightarrow> json \<Rightarrow> string" where
  "json_dumps asc JNull = ''null''"
| "json_dumps asc (JBool b) = (if b then ''true'' else ''false'')"
| "json_dumps asc (JInt i) = int_str i"
| "json_dumps asc (JFloat f) = json_flt f"
| "json_dumps asc (JStr s) = json_string asc s"
| "json_dumps asc (JArr xs) = ''['' @ str_join '','' (map (json_dumps asc) xs) @ '']''"
| "json_dumps asc (JObj kvs) =
     ''{'' @ str_join '',''
        (map (\<lambda>(k, t). json_string asc k @ '':'' @ t)
             (sort_key fst (map (map_prod id (json_dumps asc)) kvs))) @ ''}''"

text \<open>The value a sorted dump reads back as: the same value with the keys of every dict sorted.\<close>

primrec sort_json :: "json \<Rightarrow> json" where
  "sort_json JNull = JNull"
| "sort_json (JBool b) = JBool b"
| "sort_json (JInt i) = JInt i"
| "sort_json (JFloat f) = JFloat f"
| "sort_json (JStr s) = JStr s"
| "sort_json (JArr xs) = JArr (map sort_json xs)"
| "sort_json (JObj kvs) = JObj (sort_key fst (map (map_prod id sort_json) kvs))"

text \<open>Well-formed values: the keys of every dict are distinct.\<close>

primrec json_ok :: "json \<Rightarrow> bool" where
  "json_ok JNull = True"
| "json_ok (JBool b) = True"
| "json_ok (JInt i) = True"
| "json_ok (JFloat f) = True"
| "json_ok (JStr s) = True"
| "json_ok (JArr xs) = list_all id (map json_ok xs)"
| "json_ok (JObj kvs) = (distinct (map fst kvs) \<and> list_all snd (map (map_prod id json_ok) kvs))"

end
