(* ===== verification/Url.thy ===== *)
theory Url
  imports Pystr
begin

text \<open>
  The two pieces of the standard library the egress rules rest on: \<open>ipaddress.ip_address\<close>
  with the properties \<open>is_loopback\<close>, \<open>is_private\<close> and \<open>is_link_local\<close>, and
  \<open>urllib.parse.urlparse\<close> with the scheme and host name it finds (Python 3.12, the
  version of the Dockerfile).
\<close>

section \<open>IP addresses\<close>

datatype ip = IPv4 int | IPv6 int

definition parse_octet :: "string \<Rightarrow> int option" where
  "parse_octet s =
     (if s = [] \<or> \<not> list_all is_digit s \<or> 3 < length s then None
      else if s \<noteq> ''0'' \<and> hd s = CHR ''0'' then None
      else if 255 < digits_val s then None
      else Some (int (digits_val s)))"

definition parse_ipv4 :: "string \<Rightarrow> int option" where
  "parse_ipv4 s =
     (case map parse_octet (split_on (CHR ''.'') s) of
        [Some a, Some b, Some c, Some d] \<Rightarrow> Some (((a * 256 + b) * 256 + c) * 256 + d)
      | _ \<Rightarrow> None)"

definition hex_val :: "char \<Rightarrow> int" where
  "hex_val c = (if is_digit c then int (code c) - 48 else if code c < 97 then int (code c) - 55 else int (code c) - 87)"

definition parse_hextet :: "string \<Rightarrow> int option" where
  "parse_hextet s =
     (if s = [] \<or> 4 < length s \<or> \<not> list_all is_hex s then None
      else Some (foldl (\<lambda>n c. 16 * n + hex_val c) 0 s))"

text \<open>A word of sixteen bits written back as a hexadecimal group.\<close>

definition hextet_of :: "int \<Rightarrow> string" where
  "hextet_of n =
     (let hx = (\<lambda>d::int. if d < 10 then char_of (48 + d) else char_of (87 + d)) in
      [hx (n div 4096 mod 16), hx (n div 256 mod 16), hx (n div 16 mod 16), hx (n mod 16)])"

fun all_somes :: "'a option list \<Rightarrow> 'a list option" where
  "all_somes [] = Some []"
| "all_somes (None # xs) = None"
| "all_somes (Some x # xs) = map_option (Cons x) (all_somes xs)"

definition hextets_val :: "int list \<Rightarrow> int" where
  "hextets_val xs = foldl (\<lambda>n x. n * 65536 + x) 0 xs"

text \<open>
  The groups of an IPv6 address: \<open>inner_empty\<close> lists the inner positions that hold the
  empty group of a double colon; at most one is allowed, and an empty first or last group
  only next to it.
\<close>

definition inner_empty :: "string list \<Rightarrow> nat list" where
  "inner_empty parts = filter (\<lambda>i. parts ! i = []) [1..<length parts - 1]"

definition ipv6_groups :: "string list \<Rightarrow> int option" where
  "ipv6_groups parts =
     (let n = length parts in
      if 9 < n \<or> n < 3 then None
      else (case inner_empty parts of
        [] \<Rightarrow>
          if n \<noteq> 8 then None else map_option hextets_val (all_somes (map parse_hextet parts))
      | [k] \<Rightarrow>
          (let first_empty = (hd parts = []); last_empty = (last parts = []);
               hi = (if first_empty then k - 1 else k);
               lo = (if last_empty then n - k - 2 else n - k - 1)
           in if first_empty \<and> 0 < hi \<or> last_empty \<and> 0 < lo \<or> 8 < hi + lo + 1 then None
              else (case (all_somes (map parse_hextet (take hi parts)),
                          all_somes (map parse_hextet (drop (n - lo) parts))) of
                      (Some xs, Some ys) \<Rightarrow>
                        Some (hextets_val (xs @ replicate (8 - (hi + lo)) 0 @ ys))
                    | _ \<Rightarrow> None))
      | _ \<Rightarrow> None))"

definition parse_ipv6_int :: "string \<Rightarrow> int option" where
  "parse_ipv6_int s =
     (let parts = split_on (CHR '':'') s in
      if length parts < 3 then None
      else if CHR ''.'' \<in> set (last parts) then
        (case parse_ipv4 (last parts) of
           None \<Rightarrow> None
         | Some v \<Rightarrow> ipv6_groups (butlast parts @ [hextet_of (v div 65536), hextet_of (v mod 65536)]))
      else ipv6_groups parts)"

text \<open>An address may carry a scope id after a percent sign; it has no influence here.\<close>

definition parse_ipv6 :: "string \<Rightarrow> int option" where
  "parse_ipv6 s =
     (let (addr, sep, scope) = partition_on (CHR ''%'') s in
      if CHR ''/'' \<in> set s then None
      else if sep \<and> (scope = [] \<or> CHR ''%'' \<in> set scope) then None
      else parse_ipv6_int addr)"

definition ip_address :: "string \<Rightarrow> ip option" where
  "ip_address s =
     (case parse_ipv4 s of
        Some n \<Rightarrow> Some (IPv4 n)
      | None \<Rightarrow> map_option IPv6 (parse_ipv6 s))"

definition in_net :: "nat \<Rightarrow> int \<Rightarrow> int \<times> nat \<Rightarrow> bool" where
  "in_net bits a net = (case net of (base, len) \<Rightarrow> a div 2 ^ (bits - len) = base div 2 ^ (bits - len))"

definition ip4 :: "int \<Rightarrow> int \<Rightarrow> int \<Rightarrow> int \<Rightarrow> int" where
  "ip4 a b c d = ((a * 256 + b) * 256 + c) * 256 + d"

definition v4_private_nets :: "(int \<times> nat) list" where
  "v4_private_nets =
     [(ip4 0 0 0 0, 8), (ip4 10 0 0 0, 8), (ip4 127 0 0 0, 8), (ip4 169 254 0 0, 16),
      (ip4 172 16 0 0, 12), (ip4 192 0 0 0, 24), (ip4 192 0 0 170, 31), (ip4 192 0 2 0, 24),
      (ip4 192 168 0 0, 16), (ip4 198 18 0 0, 15), (ip4 198 51 100 0, 24),
      (ip4 203 0 113 0, 24), (ip4 240 0 0 0, 4), (ip4 255 255 255 255, 32)]"

definition v4_private_exceptions :: "(int \<times> nat) list" where
  "v4_private_exceptions = [(ip4 192 0 0 9, 32), (ip4 192 0 0 10, 32)]"

definition v6_net :: "int list \<Rightarrow> nat \<Rightarrow> int \<times> nat" where
  "v6_net xs len = (hextets_val (xs @ replicate (8 - length xs) 0), len)"

definition v6_private_nets :: "(int \<times> nat) list" where
  "v6_private_nets =
     [v6_net [0, 0, 0, 0, 0, 0, 0, 1] 128, v6_net [] 128, v6_net [0, 0, 0, 0, 0, 0xffff] 96,
      v6_net [0x64, 0xff9b, 1] 48, v6_net [0x100] 64, v6_net [0x2001] 23,
      v6_net [0x2001, 0xdb8] 32, v6_net [0x2002] 16, v6_net [0xfc00] 7, v6_net [0xfe80] 10]"

definition v6_private_exceptions :: "(int \<times> nat) list" where
  "v6_private_exceptions =
     [v6_net [0x2001, 1, 0, 0, 0, 0, 0, 1] 128, v6_net [0x2001, 1, 0, 0, 0, 0, 0, 2] 128,
      v6_net [0x2001, 3] 32, v6_net [0x2001, 4, 0x112] 48, v6_net [0x2001, 0x20] 28,
      v6_net [0x2001, 0x30] 28]"

definition v4_is_private :: "int \<Rightarrow> bool" where
  "v4_is_private a \<longleftrightarrow> list_ex (in_net 32 a) v4_private_nets
     \<and> \<not> list_ex (in_net 32 a) v4_private_exceptions"

fun is_private :: "ip \<Rightarrow> bool" where
  "is_private (IPv4 a) = v4_is_private a"
| "is_private (IPv6 a) =
     (if a div 2 ^ 32 = 0xffff then v4_is_private (a mod 2 ^ 32)
      else list_ex (in_net 128 a) v6_private_nets \<and> \<not> list_ex (in_net 128 a) v6_private_exceptions)"

fun is_loopback :: "ip \<Rightarrow> bool" where
  "is_loopback (IPv4 a) = in_net 32 a (ip4 127 0 0 0, 8)"
| "is_loopback (IPv6 a) = (a = 1)"

fun is_link_local :: "ip \<Rightarrow> bool" where
  "is_link_local (IPv4 a) = in_net 32 a (ip4 169 254 0 0, 16)"
| "is_link_local (IPv6 a) = in_net 128 a (v6_net [0xfe80] 10)"

section \<open>URLs\<close>

record url =
  scheme :: string
  netloc :: string

definition url_error :: exc where
  "url_error = PyError ValueError ''Invalid IPv6 URL''"

definition c0_or_space :: "char \<Rightarrow> bool" where
  "c0_or_space c \<longleftrightarrow> code c \<le> 32"

definition clean_url :: "string \<Rightarrow> string" where
  "clean_url s = filter (\<lambda>c. code c \<noteq> 9 \<and> code c \<noteq> 10 \<and> code c \<noteq> 13) (dropWhile c0_or_space s)"

definition is_scheme_char :: "char \<Rightarrow> bool" where
  "is_scheme_char c \<longleftrightarrow> is_alnum_az c \<or> c = CHR ''+'' \<or> c = CHR ''-'' \<or> c = CHR ''.''"

definition split_scheme :: "string \<Rightarrow> string \<times> string" where
  "split_scheme u =
     (let (pre, found, rest) = partition_on (CHR '':'') u in
      if found \<and> pre \<noteq> [] \<and> is_alpha_az (hd pre) \<and> list_all is_scheme_char pre
      then (str_lower pre, rest) else ([], u))"

definition is_netloc_end :: "char \<Rightarrow> bool" where
  "is_netloc_end c \<longleftrightarrow> c = CHR ''/'' \<or> c = CHR ''?'' \<or> c = CHR ''#''"

definition split_netloc :: "string \<Rightarrow> string" where
  "split_netloc r =
     (if starts_with ''//'' r then takeWhile (\<lambda>c. \<not> is_netloc_end c) (drop 2 r) else [])"

text \<open>The checks of a network location with square brackets; \<open>False\<close> raises ValueError.\<close>

definition bracketed_ok :: "string \<Rightarrow> bool" where
  "bracketed_ok host =
     (if starts_with ''v'' host then
        (let (hx, dot, rest) = partition_on (CHR ''.'') (tl host)
         in dot \<and> hx \<noteq> [] \<and> list_all is_hex hx \<and> rest \<noteq> [] \<and> CHR 0x0A \<notin> set rest)
      else (case ip_address host of Some (IPv6 n) \<Rightarrow> True | _ \<Rightarrow> False))"

definition netloc_ok :: "string \<Rightarrow> bool" where
  "netloc_ok nl =
     (let ob = (CHR ''['' \<in> set nl); cb = (CHR '']'' \<in> set nl) in
      if ob \<noteq> cb then False
      else if \<not> ob then True
      else
        (let (lead, found, br) = partition_on (CHR ''['') (after_last (CHR ''@'') nl) in
         if found then
           (let (host, _, port) = partition_on (CHR '']'') br in
            lead = [] \<and> (port = [] \<or> starts_with '':'' port) \<and> bracketed_ok host)
         else bracketed_ok (fst (partition_on (CHR '':'') (after_last (CHR ''@'') nl)))))"

definition urlparse :: "string \<Rightarrow> url res" where
  "urlparse s =
     (let (sch, r) = split_scheme (clean_url s); nl = split_netloc r in
      if netloc_ok nl then Inr \<lparr>scheme = sch, netloc = nl\<rparr> else Inl url_error)"

text \<open>The \<open>hostname\<close> property: lower case but for a scope id; empty stands for None.\<close>

definition hostname :: "url \<Rightarrow> string" where
  "hostname u =
     (let hi = after_last (CHR ''@'') (netloc u);
          (lead, found, br) = partition_on (CHR ''['') hi;
          h = (if found then fst (partition_on (CHR '']'') br) else fst (partition_on (CHR '':'') hi));
          (name, sep, zone) = partition_on (CHR ''%'') h
      in str_lower name @ (if sep then CHR ''%'' # zone else []))"

section \<open>Lemmas\<close>

lemma partition_on_absent: "c \<notin> set s \<Longrightarrow> partition_on c s = (s, False, [])"
  by (induction s) (auto simp: partition_on_def)

lemma takeWhile_neq_append: "c \<notin> set a \<Longrightarrow> takeWhile (\<lambda>x. x \<noteq> c) (a @ c # b) = a"
  by (induction a) auto

lemma dropWhile_neq_append: "c \<notin> set a \<Longrightarrow> dropWhile (\<lambda>x. x \<noteq> c) (a @ c # b) = c # b"
  by (induction a) auto

lemma partition_on_append:
  assumes "c \<notin> set a"
  shows "partition_on c (a @ c # b) = (a, True, b)"
  unfolding partition_on_def takeWhile_neq_append [OF assms] dropWhile_neq_append [OF assms]
  by simp

lemma after_last_absent:
  assumes "c \<notin> set s"
  shows "after_last c s = s"
proof -
  from assms have "takeWhile (\<lambda>x. x \<noteq> c) (rev s) = rev s" by auto
  then show ?thesis by (simp only: after_last_def rev_rev_ident)
qed

lemma after_last_append:
  assumes "c \<notin> set b"
  shows "after_last c (a @ c # b) = b"
proof -
  from assms have "takeWhile (\<lambda>x. x \<noteq> c) (rev b @ c # rev a) = rev b"
    by (intro takeWhile_neq_append) simp
  then show ?thesis by (simp add: after_last_def)
qed

text \<open>The shape the properties use: an absolute URL over a plain host name.\<close>

definition plain_host :: "string \<Rightarrow> bool" where
  "plain_host h \<longleftrightarrow> list_all (\<lambda>c. is_alnum_az c \<or> c = CHR ''.'' \<or> c = CHR ''-'') h"

lemma plain_host_append [simp]: "plain_host (a @ b) \<longleftrightarrow> plain_host a \<and> plain_host b"
  by (auto simp: plain_host_def)

lemma plain_host_not:
  assumes "plain_host h" and "\<not> is_alnum_az c" "c \<noteq> CHR ''.''" "c \<noteq> CHR ''-''"
  shows "c \<notin> set h"
  using assms by (auto simp: plain_host_def list_all_iff)

lemma special_not_alnum:
  "\<not> is_alnum_az (CHR ''/'')" "\<not> is_alnum_az (CHR ''@'')" "\<not> is_alnum_az (CHR ''['')"
  "\<not> is_alnum_az (CHR '']'')" "\<not> is_alnum_az (CHR '':'')" "\<not> is_alnum_az (CHR ''%'')"
  "\<not> is_alnum_az (CHR ''?'')" "\<not> is_alnum_az (CHR ''#'')"
  by (simp_all add: is_alnum_az_def is_alpha_az_def is_upper_az_def is_lower_az_def is_digit_def)

lemma plain_host_special:
  assumes "plain_host h"
  shows "CHR ''/'' \<notin> set h" "CHR ''@'' \<notin> set h" "CHR ''['' \<notin> set h" "CHR '']'' \<notin> set h"
    "CHR '':'' \<notin> set h" "CHR ''%'' \<notin> set h" "CHR ''?'' \<notin> set h" "CHR ''#'' \<notin> set h"
  by (rule plain_host_not [OF assms]; simp add: special_not_alnum)+

lemma clean_url_printable:
  assumes "list_all (\<lambda>c. 33 \<le> code c) s"
  shows "clean_url s = s"
proof -
  have "dropWhile c0_or_space s = s"
    using assms by (cases s) (auto simp: c0_or_space_def)
  moreover have "filter (\<lambda>c. code c \<noteq> 9 \<and> code c \<noteq> 10 \<and> code c \<noteq> 13) s = s"
    using assms by (auto simp: filter_id_conv list_all_iff)
  ultimately show ?thesis by (simp add: clean_url_def)
qed

lemma plain_host_printable: "plain_host h \<Longrightarrow> list_all (\<lambda>c. 33 \<le> code c) h"
  by (auto simp: plain_host_def list_all_iff is_alnum_az_def is_alpha_az_def is_upper_az_def
      is_lower_az_def is_digit_def)

lemma hostname_plain: "plain_host h \<Longrightarrow> hostname \<lparr>scheme = s, netloc = h\<rparr> = str_lower h"
  by (simp add: hostname_def after_last_absent partition_on_absent plain_host_special Let_def)

lemma urlparse_https:
  assumes h: "plain_host h" and p: "list_all (\<lambda>c. 33 \<le> code c) p"
  shows "urlparse (''https://'' @ h @ CHR ''/'' # p) = Inr \<lparr>scheme = ''https'', netloc = h\<rparr>"
proof -
  let ?u = "''https://'' @ h @ CHR ''/'' # p"
  have clean: "clean_url ?u = ?u"
    by (rule clean_url_printable) (use plain_host_printable [OF h] p in simp)
  have pre: "split_scheme ?u = (''https'', ''//'' @ h @ CHR ''/'' # p)"
    by (simp add: split_scheme_def partition_on_def Let_def is_alpha_az_def is_lower_az_def
        is_scheme_char_def is_alnum_az_def str_lower_def lower_char_def is_upper_az_def)
  have "takeWhile (\<lambda>c. \<not> is_netloc_end c) (h @ CHR ''/'' # p) = h"
    using plain_host_special [OF h]
    by (auto simp: takeWhile_append is_netloc_end_def takeWhile_eq_all_conv)
  then have nl: "split_netloc (''//'' @ h @ CHR ''/'' # p) = h"
    by (simp add: split_netloc_def)
  have "netloc_ok h"
    by (simp add: netloc_ok_def plain_host_special [OF h])
  with clean pre nl show ?thesis
    by (simp add: urlparse_def)
qed

end
