(* ===== verification/Schema.thy ===== *)
theory Schema
  imports Json Url "HOL-Library.Product_Lexorder"
begin

text \<open>
  src/schema.py and the manifest schema it loads
  (schemas/capability.manifest.v0.1.schema.json). The JSON Schema validator is the
  third-party package jsonschema: it is a parameter, a function from a manifest to its
  list of errors. What the code relies on is the locale \<open>manifest_validator\<close>: the error
  list is empty exactly on the documents the schema describes, which \<open>schema_conforms\<close>
  transcribes keyword by keyword.
\<close>

section \<open>Validation errors\<close>

text \<open>An error's path mixes list indices and keys; Python compares paths item by item.\<close>

datatype path_elem = PIdx int | PKey string

instantiation path_elem :: linorder
begin

definition path_rank :: "path_elem \<Rightarrow> nat \<times> int \<times> string" where
  "path_rank e = (case e of PIdx i \<Rightarrow> (0, i, []) | PKey s \<Rightarrow> (1, 0, s))"

definition less_eq_path_elem :: "path_elem \<Rightarrow> path_elem \<Rightarrow> bool" where
  "less_eq_path_elem a b \<longleftrightarrow> path_rank a \<le> path_rank b"

definition less_path_elem :: "path_elem \<Rightarrow> path_elem \<Rightarrow> bool" where
  "less_path_elem a b \<longleftrightarrow> path_rank a < path_rank b"

instance
proof
  fix a b c :: path_elem
  have inj: "path_rank a = path_rank b \<Longrightarrow> a = b" for a b
    by (auto simp: path_rank_def split: path_elem.splits)
  show "a < b \<longleftrightarrow> a \<le> b \<and> \<not> b \<le> a"
    by (auto simp: less_eq_path_elem_def less_path_elem_def)
  show "a \<le> a" by (simp add: less_eq_path_elem_def)
  show "a \<le> b \<Longrightarrow> b \<le> c \<Longrightarrow> a \<le> c"
    unfolding less_eq_path_elem_def by (rule order_trans)
  show "a \<le> b \<Longrightarrow> b \<le> a \<Longrightarrow> a = b"
    unfolding less_eq_path_elem_def by (rule inj, rule order_antisym)
  show "a \<le> b \<or> b \<le> a"
    unfolding less_eq_path_elem_def by (rule linear)
qed

end

type_synonym verror = "path_elem list \<times> string"

type_synonym validator = "json \<Rightarrow> verror list"

fun path_elem_str :: "path_elem \<Rightarrow> string" where
  "path_elem_str (PIdx i) = int_str i"
| "path_elem_str (PKey s) = s"

definition verror_text :: "verror \<Rightarrow> string" where
  "verror_text e = str_join ''/'' (map path_elem_str (fst e)) @ '': '' @ snd e"

definition validate_manifest :: "validator \<Rightarrow> json \<Rightarrow> json res" where
  "validate_manifest v m =
     (let errors = sort_key fst (v m) in
      if errors \<noteq> [] then
        Inl (CapabilityManifestError
          (''manifest schema validation failed: '' @ str_join ''; '' (map verror_text (take 8 errors))))
      else Inr m)"

lemma validate_manifest_Inr [result_simps]: "validate_manifest v m = Inr m' \<longleftrightarrow> m' = m \<and> v m = []"
  by (auto simp: validate_manifest_def Let_def dest: arg_cong [of _ _ length] arg_cong [of _ _ set])

lemma validate_manifest_valid: "v m = [] \<Longrightarrow> validate_manifest v m = Inr m"
  by (simp add: result_simps)

lemma validate_manifest_error: "validate_manifest v m = Inl e \<Longrightarrow> \<exists>s. e = CapabilityManifestError s"
  by (auto simp: validate_manifest_def Let_def split: if_splits)

section \<open>The manifest schema\<close>

definition req_keys :: "string list \<Rightarrow> json \<Rightarrow> bool" where
  "req_keys ks m = list_all (has_key m) ks"

definition only_keys :: "string list \<Rightarrow> json \<Rightarrow> bool" where
  "only_keys ks m = list_all (\<lambda>p. fst p \<in> set ks) (entries m)"

definition opt_key :: "string \<Rightarrow> (json \<Rightarrow> bool) \<Rightarrow> json \<Rightarrow> bool" where
  "opt_key k P m = (case dget (entries m) k of None \<Rightarrow> True | Some v \<Rightarrow> P v)"

definition closed_obj :: "string list \<Rightarrow> string list \<Rightarrow> json \<Rightarrow> bool" where
  "closed_obj req allowed m = (is_dict m \<and> req_keys req m \<and> only_keys allowed m)"

definition nonempty_str :: "json \<Rightarrow> bool" where
  "nonempty_str j = (is_str j \<and> j \<noteq> JStr [])"

definition str_enum :: "string list \<Rightarrow> json \<Rightarrow> bool" where
  "str_enum ss j = (case j of JStr s \<Rightarrow> s \<in> set ss | _ \<Rightarrow> False)"

definition str_array :: "json \<Rightarrow> bool" where
  "str_array j = (is_list j \<and> list_all is_str (items j))"

fun is_bool :: "json \<Rightarrow> bool" where
  "is_bool (JBool b) = True"
| "is_bool _ = False"

fun nonneg_number :: "json \<Rightarrow> bool" where
  "nonneg_number (JInt i) = (0 \<le> i)"
| "nonneg_number (JFloat f) = (\<not> flt_lt f (Dec 0 0))"
| "nonneg_number _ = False"

text \<open>A dollar sign at the end of a pattern also matches before a final newline.\<close>

definition chop_newline :: "string \<Rightarrow> string" where
  "chop_newline s = (if s \<noteq> [] \<and> last s = CHR 0x0A then butlast s else s)"

definition digits_then :: "string \<Rightarrow> string option" where
  "digits_then s = (if s \<noteq> [] \<and> is_digit (hd s) then Some (dropWhile is_digit s) else None)"

definition skip_char :: "char \<Rightarrow> string \<Rightarrow> string option" where
  "skip_char c s = (case s of [] \<Rightarrow> None | d # r \<Rightarrow> if d = c then Some r else None)"

definition is_tag_char :: "char \<Rightarrow> bool" where
  "is_tag_char c \<longleftrightarrow> is_alnum_az c \<or> c = CHR ''.'' \<or> c = CHR ''-''"

text \<open>An optional group: the character, then at least one tag character.\<close>

definition opt_tag :: "char \<Rightarrow> string \<Rightarrow> string" where
  "opt_tag c s = (case s of
      d # e # r \<Rightarrow> if d = c \<and> is_tag_char e then dropWhile is_tag_char r else s
    | _ \<Rightarrow> s)"

definition version_core :: "string \<Rightarrow> string option" where
  "version_core s =
     Option.bind (digits_then s) (\<lambda>a. Option.bind (skip_char (CHR ''.'') a) (\<lambda>b.
     Option.bind (digits_then b) (\<lambda>c. Option.bind (skip_char (CHR ''.'') c) (\<lambda>d. digits_then d))))"

definition version_pattern :: "string \<Rightarrow> bool" where
  "version_pattern s = (case version_core (chop_newline s) of
      None \<Rightarrow> False
    | Some r \<Rightarrow> opt_tag (CHR ''+'') (opt_tag (CHR ''-'') r) = [])"

definition hex64 :: "string \<Rightarrow> bool" where
  "hex64 s = (length s = 64 \<and> list_all is_hex s)"

definition digest_pattern :: "string \<Rightarrow> bool" where
  "digest_pattern s = (let t = chop_newline s in
     hex64 t \<or> starts_with ''sha256:'' t \<and> hex64 (drop 7 t))"

definition ident_start :: "char \<Rightarrow> bool" where
  "ident_start c \<longleftrightarrow> is_alpha_az c \<or> c = CHR ''_''"

definition ident_char :: "char \<Rightarrow> bool" where
  "ident_char c \<longleftrightarrow> is_alnum_az c \<or> c = CHR ''_''"

definition callable_pattern :: "string \<Rightarrow> bool" where
  "callable_pattern s =
     (let (m, found, f) = partition_on (CHR '':'') (chop_newline s) in
      found \<and> m \<noteq> [] \<and> f \<noteq> [] \<and> ident_start (hd m) \<and> ident_start (hd f)
      \<and> list_all (\<lambda>c. ident_char c \<or> c = CHR ''.'') m \<and> list_all ident_char f)"

definition str_matches :: "(string \<Rightarrow> bool) \<Rightarrow> json \<Rightarrow> bool" where
  "str_matches P j = (case j of JStr s \<Rightarrow> P s | _ \<Rightarrow> False)"

definition origin_conforms :: "json \<Rightarrow> bool" where
  "origin_conforms o1 \<longleftrightarrow>
     closed_obj [''source'', ''digest''] [''source'', ''digest'', ''signature'', ''url'', ''path''] o1
     \<and> opt_key ''source'' (str_enum [''url'', ''local'']) o1
     \<and> opt_key ''digest'' (str_matches digest_pattern) o1
     \<and> opt_key ''signature'' is_str o1 \<and> opt_key ''url'' is_str o1 \<and> opt_key ''path'' is_str o1"

definition interfaces_conforms :: "json \<Rightarrow> bool" where
  "interfaces_conforms i \<longleftrightarrow>
     closed_obj [''inputs'', ''outputs''] [''inputs'', ''outputs''] i
     \<and> opt_key ''inputs'' is_dict i \<and> opt_key ''outputs'' is_dict i"

definition permissions_conforms :: "json \<Rightarrow> bool" where
  "permissions_conforms p \<longleftrightarrow>
     closed_obj [''network'', ''filesystem'', ''devices'']
       [''network'', ''filesystem'', ''devices'', ''network_allowlist''] p
     \<and> opt_key ''network'' (str_enum [''deny'', ''allowlist'']) p
     \<and> opt_key ''filesystem'' (str_enum [''read'', ''write'', ''none'']) p
     \<and> opt_key ''devices'' str_array p \<and> opt_key ''network_allowlist'' str_array p"

definition resources_conforms :: "json \<Rightarrow> bool" where
  "resources_conforms r \<longleftrightarrow> closed_obj [''cpu'', ''memory''] [''cpu'', ''memory''] r
     \<and> opt_key ''cpu'' is_str r \<and> opt_key ''memory'' is_str r"

definition runtime_conforms :: "json \<Rightarrow> bool" where
  "runtime_conforms r \<longleftrightarrow>
     closed_obj [''sandbox'', ''resources''] [''sandbox'', ''resources'', ''timeout_seconds''] r
     \<and> opt_key ''sandbox'' (str_enum [''process'', ''container'']) r
     \<and> opt_key ''resources'' resources_conforms r \<and> opt_key ''timeout_seconds'' nonneg_number r"

definition execution_conforms :: "json \<Rightarrow> bool" where
  "execution_conforms e \<longleftrightarrow> closed_obj [] [''channel''] e
     \<and> opt_key ''channel'' (str_enum [''programmatic'', ''vdi_vpn'']) e"

definition secret_conforms :: "json \<Rightarrow> bool" where
  "secret_conforms s \<longleftrightarrow> closed_obj [''name'', ''ref''] [''name'', ''ref''] s
     \<and> opt_key ''name'' nonempty_str s \<and> opt_key ''ref'' nonempty_str s"

definition secrets_conforms :: "json \<Rightarrow> bool" where
  "secrets_conforms s \<longleftrightarrow> is_list s \<and> list_all secret_conforms (items s)"

definition command_conforms :: "json \<Rightarrow> bool" where
  "command_conforms c \<longleftrightarrow> closed_obj [''argv''] [''argv''] c
     \<and> opt_key ''argv'' (\<lambda>a. str_array a \<and> items a \<noteq> []) c"

definition python_conforms :: "json \<Rightarrow> bool" where
  "python_conforms c \<longleftrightarrow> closed_obj [''callable''] [''callable''] c
     \<and> opt_key ''callable'' (str_matches callable_pattern) c"

definition mcp_conforms :: "json \<Rightarrow> bool" where
  "mcp_conforms c \<longleftrightarrow>
     closed_obj [''registry_url'', ''tool_name''] [''registry_url'', ''tool_name'', ''server_id''] c
     \<and> opt_key ''registry_url'' is_str c \<and> opt_key ''tool_name'' nonempty_str c
     \<and> opt_key ''server_id'' is_str c"

definition a2a_conforms :: "json \<Rightarrow> bool" where
  "a2a_conforms c \<longleftrightarrow> closed_obj [''endpoint''] [''endpoint''] c \<and> opt_key ''endpoint'' is_str c"

definition implementation_conforms :: "json \<Rightarrow> bool" where
  "implementation_conforms i \<longleftrightarrow>
     closed_obj [''kind''] [''kind'', ''command'', ''python'', ''mcp'', ''a2a''] i
     \<and> opt_key ''kind'' (str_enum [''command'', ''python'', ''mcp_tool'', ''a2a_rpc'']) i
     \<and> opt_key ''command'' command_conforms i \<and> opt_key ''python'' python_conforms i
     \<and> opt_key ''mcp'' mcp_conforms i \<and> opt_key ''a2a'' a2a_conforms i"

definition manifest_required :: "string list" where
  "manifest_required =
     [''id'', ''type'', ''version'', ''description'', ''origin'', ''interfaces'', ''permissions'',
      ''runtime'', ''trust_level'']"

definition manifest_properties :: "string list" where
  "manifest_properties = manifest_required
     @ [''enabled'', ''requires_oauth'', ''execution'', ''secrets'', ''implementation'']"

definition schema_conforms :: "json \<Rightarrow> bool" where
  "schema_conforms m \<longleftrightarrow>
     closed_obj manifest_required manifest_properties m
     \<and> opt_key ''id'' nonempty_str m
     \<and> opt_key ''type'' (str_enum [''tool'', ''mcp_server'', ''skill_pack'', ''a2a_peer'', ''agent_workflow'']) m
     \<and> opt_key ''version'' (str_matches version_pattern) m
     \<and> opt_key ''description'' nonempty_str m
     \<and> opt_key ''origin'' origin_conforms m
     \<and> opt_key ''interfaces'' interfaces_conforms m
     \<and> opt_key ''permissions'' permissions_conforms m
     \<and> opt_key ''runtime'' runtime_conforms m
     \<and> opt_key ''trust_level'' (str_enum [''local'', ''verified'', ''community'', ''untrusted'']) m
     \<and> opt_key ''enabled'' is_bool m
     \<and> opt_key ''requires_oauth'' is_bool m
     \<and> opt_key ''execution'' execution_conforms m
     \<and> opt_key ''secrets'' secrets_conforms m
     \<and> opt_key ''implementation'' implementation_conforms m"

section \<open>Loading the schema\<close>

text \<open>
  The module reads the schema file once, at import; \<open>raw\<close> is what reading and parsing it
  gives, \<open>draft\<close> the class of the jsonschema package.
\<close>

definition load_manifest_validator :: "(json \<Rightarrow> validator) \<Rightarrow> string \<Rightarrow> json res \<Rightarrow> validator res" where
  "load_manifest_validator draft schema_path raw =
     (case raw of
        Inl e \<Rightarrow> Inl (CapabilityManifestError (''unable to read capability schema: '' @ schema_path @ '': '' @ exc_text e))
      | Inr j \<Rightarrow> Inr (draft j))"

section \<open>What the code relies on\<close>

locale manifest_validator =
  fixes iter_errors :: validator
  assumes exact: "iter_errors m = [] \<longleftrightarrow> schema_conforms m"
begin

lemma accepted: "validate_manifest iter_errors m = Inr m' \<longleftrightarrow> m' = m \<and> schema_conforms m"
  by (simp add: result_simps exact)

lemma rejected: "\<not> schema_conforms m \<Longrightarrow> \<exists>s. validate_manifest iter_errors m = Inl (CapabilityManifestError s)"
  by (cases "validate_manifest iter_errors m") (auto simp: accepted dest: validate_manifest_error)

end

text \<open>The validator that reports one error for a document the schema does not describe.\<close>

definition reference_errors :: validator where
  "reference_errors m = (if schema_conforms m then [] else [([], ''does not conform'')])"

interpretation reference: manifest_validator reference_errors
  by unfold_locales (simp add: reference_errors_def)

section \<open>Consequences of conformance\<close>

lemma has_key_jget: "has_key m k \<Longrightarrow> dget (entries m) k = Some (jget m k)"
  by (auto simp: has_key_def jget_def get_or_def split: option.splits)

lemma opt_keyD: "opt_key k P m \<Longrightarrow> has_key m k \<Longrightarrow> P (jget m k)"
  by (auto simp: opt_key_def has_key_def jget_def get_or_def split: option.splits)

lemma conforms_dict: "schema_conforms m \<Longrightarrow> is_dict m"
  by (simp add: schema_conforms_def closed_obj_def)

lemma conforms_required: "schema_conforms m \<Longrightarrow> k \<in> set manifest_required \<Longrightarrow> has_key m k"
  by (simp add: schema_conforms_def closed_obj_def req_keys_def list_all_iff)

lemma conforms_known_keys: "schema_conforms m \<Longrightarrow> has_key m k \<Longrightarrow> k \<in> set manifest_properties"
proof -
  assume m: "schema_conforms m" and "has_key m k"
  then obtain v where "(k, v) \<in> set (entries m)" by (auto simp: has_key_def dest: dget_mem)
  moreover from m have "only_keys manifest_properties m" by (simp add: schema_conforms_def closed_obj_def)
  ultimately show ?thesis by (auto simp: only_keys_def list_all_iff)
qed

lemma conforms_id: "schema_conforms m \<Longrightarrow> \<exists>s. jget m ''id'' = JStr s \<and> s \<noteq> []"
  using opt_keyD [of "''id''" nonempty_str m] conforms_required [of m "''id''"]
  by (auto simp: schema_conforms_def nonempty_str_def is_str_iff manifest_required_def)

lemma conforms_version: "schema_conforms m \<Longrightarrow> \<exists>s. jget m ''version'' = JStr s \<and> version_pattern s"
  using opt_keyD [of "''version''" "str_matches version_pattern" m] conforms_required [of m "''version''"]
  by (auto simp: schema_conforms_def str_matches_def manifest_required_def split: json.splits)

lemma conforms_trust:
  "schema_conforms m \<Longrightarrow>
     \<exists>s. jget m ''trust_level'' = JStr s \<and> s \<in> {''local'', ''verified'', ''community'', ''untrusted''}"
  using opt_keyD [of "''trust_level''" "str_enum [''local'', ''verified'', ''community'', ''untrusted'']" m]
    conforms_required [of m "''trust_level''"]
  by (auto simp: schema_conforms_def str_enum_def manifest_required_def split: json.splits)

text \<open>A governed manifest does not conform: the schema closes the top-level object.\<close>

lemma governance_not_in_schema: "schema_conforms m \<Longrightarrow> jget m ''governance_version'' = JNull"
  using conforms_known_keys [of m "''governance_version''"]
  by (auto simp: manifest_properties_def manifest_required_def has_key_def jget_def get_or_def
      split: option.splits)

end
