(* ===== verification/Policy.thy ===== *)
theory Policy
  imports Schema
begin

text \<open>
  src/policy.py: which manifests may be installed and which capabilities may run. The
  manifest argument is a dict, as every caller passes one.
\<close>

section \<open>Reading the environment\<close>

definition env_truthy :: "string option \<Rightarrow> bool" where
  "env_truthy v = (str_lower (str_strip (case v of None \<Rightarrow> [] | Some s \<Rightarrow> s))
     \<in> set [''1'', ''true'', ''yes'', ''on''])"

record capability_policy =
  trust_allow :: "string list"

text \<open>The environment: a partial map from variable names to values.\<close>

type_synonym env = "string \<Rightarrow> string option"

definition getenv :: "env \<Rightarrow> string \<Rightarrow> string \<Rightarrow> string" where
  "getenv env k d = (case env k of None \<Rightarrow> d | Some v \<Rightarrow> v)"

definition policy_from_env :: "env \<Rightarrow> capability_policy" where
  "policy_from_env env =
     (let allow = getenv env ''UNISON_CAPABILITY_TRUST_ALLOW'' ''local,verified'';
          base = filter (\<lambda>x. x \<noteq> []) (map str_strip (split_on (CHR '','') allow));
          com = (if env_truthy (Some (getenv env ''UNISON_CAPABILITY_ALLOW_COMMUNITY'' ''false''))
                 then [''community''] else []);
          unt = (if env_truthy (Some (getenv env ''UNISON_CAPABILITY_ALLOW_UNTRUSTED'' ''false''))
                 then [''untrusted''] else [])
      in \<lparr>trust_allow = base @ com @ unt\<rparr>)"

section \<open>Installing\<close>

text \<open>One entry of \<open>secrets\<close>: a dict with a reference and without a value.\<close>

definition secret_reference :: "json \<Rightarrow> bool" where
  "secret_reference s = (is_dict s \<and> has_key s ''ref'' \<and> \<not> has_key s ''value'')"

definition enforce_install :: "capability_policy \<Rightarrow> json \<Rightarrow> unit res" where
  "enforce_install pol m =
     (let trust = str_or_empty (jget m ''trust_level'') in
      if trust \<notin> set (trust_allow pol) then
        Inl (CapabilityPolicyError (''trust_level not allowed by policy: '' @ trust))
      else if has_key m ''secrets'' then
        (let secrets = jget m ''secrets'' in
         if \<not> is_list secrets then
           Inl (CapabilityPolicyError ''secrets must be a list of references'')
         else rforeach (\<lambda>s. rguard (secret_reference s)
                (CapabilityPolicyError ''secrets must be references only (no values)'')) (items secrets))
      else Inr ())"

section \<open>Running\<close>

definition has_oauth_secret :: "json \<Rightarrow> bool" where
  "has_oauth_secret m =
     list_ex (\<lambda>s. is_dict s \<and> starts_with ''OAUTH_'' (str_upper (str_or_empty (jget s ''name''))))
       (list_or_empty (jget m ''secrets''))"

definition enforce_run :: "json \<Rightarrow> string option \<Rightarrow> unit res" where
  "enforce_run m requested =
     (if jget m ''enabled'' = JBool False then Inl (CapabilityPolicyError ''capability disabled'')
      else if jget m ''requires_oauth'' = JBool True \<and> \<not> has_oauth_secret m then
        Inl (CapabilityPolicyError ''capability requires oauth onboarding'')
      else
        rbind (py_get (py_or (jget m ''execution'') (JObj [])) ''channel'') (\<lambda>declared.
        rbind (in_str_set declared [''programmatic'', ''vdi_vpn'']) (\<lambda>known.
          if known \<and> requested \<noteq> None \<and> requested \<noteq> Some [] \<and> requested \<noteq> Some (py_str declared) then
            Inl (CapabilityPolicyError (''execution channel mismatch: declared='' @ py_str declared
              @ '' requested='' @ the requested))
          else Inr ())))"

section \<open>Lemmas\<close>

lemma enforce_install_Inr [result_simps]:
  "enforce_install pol m = Inr u \<longleftrightarrow>
     str_or_empty (jget m ''trust_level'') \<in> set (trust_allow pol)
     \<and> (has_key m ''secrets'' \<longrightarrow> is_list (jget m ''secrets'')
          \<and> (\<forall>s \<in> set (items (jget m ''secrets'')). secret_reference s))"
  by (auto simp: enforce_install_def Let_def result_simps)

lemma enforce_install_error:
  "enforce_install pol m = Inl e \<Longrightarrow> \<exists>s. e = CapabilityPolicyError s"
proof -
  have loop: "rforeach (\<lambda>s. rguard (P s) (CapabilityPolicyError t)) xs = Inl e \<Longrightarrow> e = CapabilityPolicyError t"
    for P t xs by (induction xs) (auto simp: result_simps)
  show "enforce_install pol m = Inl e \<Longrightarrow> \<exists>s. e = CapabilityPolicyError s"
    by (auto simp: enforce_install_def Let_def dest: loop split: if_splits)
qed

lemma disabled_never_runs: "jget m ''enabled'' = JBool False \<Longrightarrow> \<exists>s. enforce_run m c = Inl (CapabilityPolicyError s)"
  by (simp add: enforce_run_def)

lemma enforce_run_ok:
  assumes "enforce_run m c = Inr u"
  shows "jget m ''enabled'' \<noteq> JBool False"
    and "jget m ''requires_oauth'' = JBool True \<Longrightarrow> has_oauth_secret m"
  using assms by (auto simp: enforce_run_def split: if_splits)

text \<open>What the two checks promise, stated without the order of the tests.\<close>

definition install_allowed :: "capability_policy \<Rightarrow> json \<Rightarrow> bool" where
  "install_allowed pol m \<longleftrightarrow>
     str_or_empty (jget m ''trust_level'') \<in> set (trust_allow pol)
     \<and> (case dget (entries m) ''secrets'' of
           None \<Rightarrow> True
         | Some (JArr xs) \<Rightarrow>
             list_all (\<lambda>s. case s of
               JObj kvs \<Rightarrow> ''ref'' \<in> fst ` set kvs \<and> ''value'' \<notin> fst ` set kvs | _ \<Rightarrow> False) xs
         | Some j \<Rightarrow> False)"

lemma reference_code:
  "secret_reference s \<longleftrightarrow> (case s of JObj kvs \<Rightarrow> ''ref'' \<in> fst ` set kvs \<and> ''value'' \<notin> fst ` set kvs | _ \<Rightarrow> False)"
  by (cases s) (auto simp: secret_reference_def has_key_def map_of_eq_None_iff)

lemma enforce_install_allowed: "enforce_install pol m = Inr u \<longleftrightarrow> install_allowed pol m"
proof (cases "dget (entries m) ''secrets''")
  case None
  then show ?thesis by (simp add: result_simps install_allowed_def has_key_def)
next
  case (Some j)
  then have "jget m ''secrets'' = j" "has_key m ''secrets''" by (simp_all add: jget_def get_or_def has_key_def)
  with Some show ?thesis
    by (cases j) (simp_all add: result_simps install_allowed_def reference_code list_all_iff)
qed

definition run_allowed :: "json \<Rightarrow> string option \<Rightarrow> bool" where
  "run_allowed m requested \<longleftrightarrow>
     jget m ''enabled'' \<noteq> JBool False
     \<and> (if jget m ''requires_oauth'' = JBool True then has_oauth_secret m else True)
     \<and> (case requested of None \<Rightarrow> True
        | Some c \<Rightarrow> (case jget (jget m ''execution'') ''channel'' of
            JStr d \<Rightarrow> if c \<noteq> [] \<and> d \<in> {''programmatic'', ''vdi_vpn''} then c = d else True
          | _ \<Rightarrow> True))"

text \<open>On a conforming manifest \<open>execution\<close> is absent or a dict whose channel is a text.\<close>

lemma conforms_execution:
  assumes "schema_conforms m"
  shows "is_dict (py_or (jget m ''execution'') (JObj []))"
    and "jget (py_or (jget m ''execution'') (JObj [])) ''channel'' = jget (jget m ''execution'') ''channel''"
    and "hashable (jget (jget m ''execution'') ''channel'')"
proof -
  let ?e = "jget m ''execution''"
  have e: "?e = JNull \<or> execution_conforms ?e"
    using assms opt_keyD [of "''execution''" execution_conforms m]
    by (auto simp: schema_conforms_def has_key_def jget_def get_or_def split: option.splits)
  then show "is_dict (py_or ?e (JObj []))"
    by (auto simp: py_or_def execution_conforms_def closed_obj_def)
  from e show "jget (py_or ?e (JObj [])) ''channel'' = jget ?e ''channel''"
    by (auto simp: py_or_def execution_conforms_def closed_obj_def is_dict_iff jget_def get_or_def)
  from e show "hashable (jget ?e ''channel'')"
  proof
    assume "execution_conforms ?e"
    then have "opt_key ''channel'' (str_enum [''programmatic'', ''vdi_vpn'']) ?e"
      by (simp add: execution_conforms_def)
    then show ?thesis
      by (auto simp: opt_key_def str_enum_def jget_def get_or_def split: option.splits json.splits)
  qed (simp add: jget_not_dict)
qed

lemma enforce_run_conforming:
  assumes "schema_conforms m"
  shows "enforce_run m c = Inr u \<longleftrightarrow> run_allowed m c"
    and "enforce_run m c = Inl e \<Longrightarrow> \<exists>s. e = CapabilityPolicyError s"
  using conforms_execution [OF assms]
  by (auto simp: enforce_run_def run_allowed_def py_get_def in_str_set_def result_simps
      split: if_splits option.splits json.splits)

section \<open>Properties\<close>

text \<open>
  C36: the install policy accepts a manifest exactly when its trust level is on the
  allow list and, if the manifest has a \<open>secrets\<close> entry, that entry is a list of dicts
  each of which carries a reference and no inline value; everything else is refused with a
  CapabilityPolicyError and never with another exception.
\<close>

theorem install_policy_exact:
  "(enforce_install pol m = Inr () \<longleftrightarrow> install_allowed pol m)
   \<and> ((\<exists>s. enforce_install pol m = Inl (CapabilityPolicyError s)) \<longleftrightarrow> \<not> install_allowed pol m)"
  using enforce_install_allowed [of pol m "()"] enforce_install_error [of pol m]
  by (cases "enforce_install pol m") auto

text \<open>
  With none of its variables set, the policy read from the environment allows
  exactly the trust levels local and verified, so a manifest that claims to be community or
  untrusted is refused whatever else it says.
\<close>

theorem default_policy_refuses_untrusted:
  assumes "t \<in> {''community'', ''untrusted''}" and "jget m ''trust_level'' = JStr t"
  shows "enforce_install (policy_from_env (\<lambda>_. None)) m
     = Inl (CapabilityPolicyError (''trust_level not allowed by policy: '' @ t))"
proof -
  have "trust_allow (policy_from_env (\<lambda>_. None)) = [''local'', ''verified'']"
    by code_simp
  with assms show ?thesis by (auto simp: enforce_install_def)
qed

lemma default_policy_refuses_untrusted_witness:
  "enforce_install (policy_from_env (\<lambda>_. None)) (JObj [(''trust_level'', JStr ''untrusted'')])
     = Inl (CapabilityPolicyError (''trust_level not allowed by policy: '' @ ''untrusted''))"
  by (rule default_policy_refuses_untrusted) (simp_all add: jget_def get_or_def)

text \<open>
  On a manifest that conforms to the schema the run policy accepts exactly when the
  capability is not disabled, an OAuth connector holds a secret whose name starts with
  OAUTH_, and a requested channel equals the declared one; every refusal is a
  CapabilityPolicyError.
\<close>

theorem run_policy_exact:
  assumes "schema_conforms m"
  shows "(enforce_run m c = Inr () \<longleftrightarrow> run_allowed m c)
    \<and> ((\<exists>s. enforce_run m c = Inl (CapabilityPolicyError s)) \<longleftrightarrow> \<not> run_allowed m c)"
  using enforce_run_conforming [OF assms, of c]
  by (cases "enforce_run m c") auto

text \<open>A manifest in the shape of the test-suite's demo tool.\<close>

definition demo_manifest :: json where
  "demo_manifest = JObj
    [(''id'', JStr ''demo.echo''), (''type'', JStr ''tool''), (''version'', JStr ''0.1.0''),
     (''description'', JStr ''Echo''),
     (''origin'', JObj [(''source'', JStr ''local''),
        (''digest'', JStr (''sha256:'' @ replicate 64 (CHR ''0''))), (''path'', JStr ''.'')]),
     (''interfaces'', JObj [(''inputs'', JObj [(''type'', JStr ''object'')]), (''outputs'', JObj [])]),
     (''permissions'', JObj [(''network'', JStr ''deny''), (''filesystem'', JStr ''none''), (''devices'', JArr [])]),
     (''runtime'', JObj [(''sandbox'', JStr ''process''),
        (''resources'', JObj [(''cpu'', JStr ''default''), (''memory'', JStr ''default'')])]),
     (''trust_level'', JStr ''local''),
     (''execution'', JObj [(''channel'', JStr ''programmatic'')]),
     (''implementation'', JObj [(''kind'', JStr ''python''),
        (''python'', JObj [(''callable'', JStr ''capability_builtins:echo'')])])]"

lemma demo_manifest_conforms: "schema_conforms demo_manifest"
  by code_simp

lemma run_policy_exact_witness:
  "(enforce_run demo_manifest (Some ''vdi_vpn'') = Inr () \<longleftrightarrow> run_allowed demo_manifest (Some ''vdi_vpn''))
   \<and> ((\<exists>s. enforce_run demo_manifest (Some ''vdi_vpn'') = Inl (CapabilityPolicyError s))
        \<longleftrightarrow> \<not> run_allowed demo_manifest (Some ''vdi_vpn''))
   \<and> \<not> run_allowed demo_manifest (Some ''vdi_vpn'')"
proof -
  have "\<not> run_allowed demo_manifest (Some ''vdi_vpn'')" by code_simp
  with run_policy_exact [OF demo_manifest_conforms, of "Some ''vdi_vpn''"] show ?thesis by simp
qed

end
