(* ===== verification/Config.thy ===== *)
theory Config
  imports Policy
begin

text \<open>
  src/config.py: the configuration records and how they are read from a YAML file and the
  environment. The YAML parser is a parameter: \<open>read_yaml p\<close> is the outcome of reading and
  parsing the file at \<open>p\<close> (values of the JSON data model). \<open>exists_file\<close> tells which of the
  conventional locations exist.
\<close>

section \<open>The records\<close>

definition split_csv :: "string \<Rightarrow> string list" where
  "split_csv v = filter (\<lambda>x. x \<noteq> []) (map str_strip (split_on (CHR '','') v))"

record authz_config =
  read_roles :: "json list"
  run_roles :: "json list"
  admin_roles :: "json list"
  install_allowed_services :: "json list"
  remove_allowed_services :: "json list"

record auth_config =
  auth_mode :: string
  static_bearer_token :: "string option"
  unsafe_allow_no_auth :: bool

record bind_config =
  bind_host :: string
  bind_port :: int
  uds_path :: "string option"
  unsafe_allow_nonlocal :: bool

record egress_config =
  allowlist :: "string list"
  denylist :: "string list"
  allow_private_networks :: bool

record registries_config =
  static_catalog_path :: "string option"
  http_catalog_urls :: "string list"

record service_config =
  service_name :: string
  service_version :: string
  schema_version :: string
  cfg_bind :: bind_config
  cfg_auth :: auth_config
  cfg_authz :: authz_config
  cfg_base_dir :: string
  cfg_egress :: egress_config
  cfg_registries :: registries_config

definition default_authz :: authz_config where
  "default_authz = \<lparr>
     read_roles = [JStr ''service'', JStr ''operator'', JStr ''admin''],
     run_roles = [JStr ''service'', JStr ''operator'', JStr ''admin''],
     admin_roles = [JStr ''operator'', JStr ''admin''],
     install_allowed_services = [JStr ''service-orchestrator''],
     remove_allowed_services = [JStr ''service-orchestrator'']\<rparr>"

definition default_base_dir :: string where
  "default_base_dir = ''/var/lib/unison/capabilities''"

section \<open>Environment overrides\<close>

text \<open>\<open>data.setdefault(sec, {}); data[sec][k] = v\<close>\<close>

definition section_set :: "string \<Rightarrow> string \<Rightarrow> json \<Rightarrow> json \<Rightarrow> json res" where
  "section_set sec k v data =
     (let cur = get_or data sec (JObj []) in
      if is_dict cur then Inr (jset sec (jset k v cur) data)
      else Inl (type_error ([CHR 0x27] @ type_name cur @ [CHR 0x27] @ '' object does not support item assignment'')))"

definition env_set :: "env \<Rightarrow> string \<Rightarrow> string option" where
  "env_set env k = (case env k of Some v \<Rightarrow> if v = [] then None else Some v | None \<Rightarrow> None)"

text \<open>One override: when the variable is set and not empty, its reading goes into the section.\<close>

definition override :: "string option \<Rightarrow> string \<Rightarrow> string \<Rightarrow> (string \<Rightarrow> json res) \<Rightarrow> json \<Rightarrow> json res" where
  "override var sec k reading data =
     (case var of None \<Rightarrow> Inr data | Some v \<Rightarrow> rbind (reading v) (\<lambda>j. section_set sec k j data))"

definition flag_text :: "string \<Rightarrow> bool" where
  "flag_text v = (str_lower v \<in> set [''1'', ''true'', ''yes'', ''on''])"

definition as_text :: "string \<Rightarrow> json res" where
  "as_text v = Inr (JStr v)"

definition as_flag :: "string \<Rightarrow> json res" where
  "as_flag v = Inr (JBool (flag_text v))"

definition as_int :: "string \<Rightarrow> json res" where
  "as_int v = rbind (py_int (JStr v)) (\<lambda>i. Inr (JInt i))"

definition apply_env :: "env \<Rightarrow> json \<Rightarrow> json res" where
  "apply_env env data =
     (let store_dir = (case env_set env ''UNISON_CAPABILITY_STORE_DIR'' of
            Some v \<Rightarrow> Some v | None \<Rightarrow> env_set env ''UNISON_CAPABILITY_STORE_BASE'');
          no_auth = (if flag_text (getenv env ''UNISON_CAPABILITY_UNSAFE_NO_AUTH'' [])
            then Some ''true'' else None) in
      rbind (override store_dir ''store'' ''base_dir'' as_text data) (\<lambda>data.
      rbind (override (env_set env ''UNISON_CAPABILITY_AUTH_MODE'') ''auth'' ''mode'' as_text data) (\<lambda>data.
      rbind (override (env_set env ''UNISON_CAPABILITY_BEARER_TOKEN'') ''auth'' ''static_bearer_token'' as_text data) (\<lambda>data.
      rbind (override no_auth ''auth'' ''unsafe_allow_no_auth'' as_flag data) (\<lambda>data.
      rbind (override (env_set env ''UNISON_CAPABILITY_UNSAFE_ALLOW_NONLOCAL'') ''bind'' ''unsafe_allow_nonlocal'' as_flag data) (\<lambda>data.
      rbind (override (env_set env ''UNISON_CAPABILITY_HOST'') ''bind'' ''host'' as_text data) (\<lambda>data.
      rbind (override (env_set env ''UNISON_CAPABILITY_PORT'') ''bind'' ''port'' as_int data) (\<lambda>data.
      rbind (override (env_set env ''UNISON_CAPABILITY_UDS'') ''bind'' ''uds_path'' as_text data) (\<lambda>data.
      rbind (override (env_set env ''UNISON_CAPABILITY_EGRESS_ALLOWLIST'') ''egress'' ''allowlist'' as_text data) (\<lambda>data.
      rbind (override (env_set env ''UNISON_CAPABILITY_EGRESS_DENYLIST'') ''egress'' ''denylist'' as_text data) (\<lambda>data.
      override (env_set env ''UNISON_CAPABILITY_EGRESS_ALLOW_PRIVATE_NETWORKS'') ''egress'' ''allow_private_networks''
        as_flag data)))))))))))"

section \<open>Building the records\<close>

text \<open>\<open>str(d.get(k) or v)\<close>, and \<open>str(d.get(k)) if d.get(k) else None\<close>.\<close>

definition text_or :: "json \<Rightarrow> string \<Rightarrow> string \<Rightarrow> string" where
  "text_or d k v = py_str (py_or (jget d k) (JStr v))"

definition text_opt :: "json \<Rightarrow> string \<Rightarrow> string option" where
  "text_opt d k = (if truthy (jget d k) then Some (py_str (jget d k)) else None)"

definition build_bind :: "json \<Rightarrow> bind_config res" where
  "build_bind d =
     rbind (py_int (py_or (jget d ''port'') (JInt 8102))) (\<lambda>port.
     Inr \<lparr>bind_host = text_or d ''host'' ''127.0.0.1'', bind_port = port, uds_path = text_opt d ''uds_path'',
          unsafe_allow_nonlocal = truthy (jget d ''unsafe_allow_nonlocal'')\<rparr>)"

definition build_auth :: "json \<Rightarrow> auth_config" where
  "build_auth d = \<lparr>auth_mode = text_or d ''mode'' ''unison_jwt'',
     static_bearer_token = text_opt d ''static_bearer_token'',
     unsafe_allow_no_auth = truthy (jget d ''unsafe_allow_no_auth'')\<rparr>"

definition list_or :: "json \<Rightarrow> string \<Rightarrow> json list \<Rightarrow> json list res" where
  "list_or d k v = py_iter (py_or (jget d k) (JArr v))"

definition build_authz :: "json \<Rightarrow> authz_config res" where
  "build_authz d =
     rbind (list_or d ''read_roles'' (read_roles default_authz)) (\<lambda>rd.
     rbind (list_or d ''run_roles'' (run_roles default_authz)) (\<lambda>rn.
     rbind (list_or d ''admin_roles'' (admin_roles default_authz)) (\<lambda>ad.
     rbind (list_or d ''install_allowed_services'' (install_allowed_services default_authz)) (\<lambda>ins.
     rbind (list_or d ''remove_allowed_services'' (remove_allowed_services default_authz)) (\<lambda>rem.
     Inr \<lparr>read_roles = rd, run_roles = rn, admin_roles = ad, install_allowed_services = ins,
          remove_allowed_services = rem\<rparr>)))))"

definition rule_list :: "json \<Rightarrow> string list" where
  "rule_list j =
     (if is_list j then map py_str (items j)
      else if truthy j then split_csv (py_str j) else [])"

definition build_egress :: "json \<Rightarrow> egress_config" where
  "build_egress d = \<lparr>allowlist = rule_list (jget d ''allowlist''), denylist = rule_list (jget d ''denylist''),
     allow_private_networks = truthy (jget d ''allow_private_networks'')\<rparr>"

definition build_registries :: "json \<Rightarrow> registries_config" where
  "build_registries d =
     (let http_urls = py_or (py_or (jget d ''http_catalog_urls'') (jget d ''http_catalogs'')) (JArr []);
          urls = (case http_urls of JStr s \<Rightarrow> map JStr (split_csv s) | JArr xs \<Rightarrow> xs | _ \<Rightarrow> [])
      in \<lparr>static_catalog_path = text_opt d ''static_catalog_path'',
          http_catalog_urls = filter (\<lambda>s. str_strip s \<noteq> []) (map py_str urls)\<rparr>)"

definition build_store :: "json \<Rightarrow> string" where
  "build_store d = text_or d ''base_dir'' default_base_dir"

definition section_of :: "json \<Rightarrow> string \<Rightarrow> json" where
  "section_of data k = dict_or_empty (jget data k)"

definition build_config :: "json \<Rightarrow> service_config res" where
  "build_config data =
     rbind (build_bind (section_of data ''bind'')) (\<lambda>b.
     rbind (build_authz (section_of data ''authz'')) (\<lambda>z.
     Inr \<lparr>service_name = text_or data ''service_name'' ''unison-capability'',
          service_version = text_or data ''version'' ''0.1.0'',
          schema_version = text_or data ''schema_version'' ''capability.manifest.v0.1'',
          cfg_bind = b,
          cfg_auth = build_auth (section_of data ''auth''),
          cfg_authz = z,
          cfg_base_dir = build_store (section_of data ''store''),
          cfg_egress = build_egress (section_of data ''egress''),
          cfg_registries = build_registries (section_of data ''registries'')\<rparr>))"

definition config_path :: "env \<Rightarrow> (string \<Rightarrow> bool) \<Rightarrow> string option" where
  "config_path env exists_file =
     (case env_set env ''UNISON_CAPABILITY_CONFIG'' of
        Some p \<Rightarrow> Some p
      | None \<Rightarrow> find exists_file [''/etc/unison/unison-capability.yaml'', ''/etc/unison/unison-capability.yml''])"

definition config_load :: "env \<Rightarrow> (string \<Rightarrow> bool) \<Rightarrow> (string \<Rightarrow> json res) \<Rightarrow> service_config res" where
  "config_load env exists_file read_yaml =
     rbind (case config_path env exists_file of
        None \<Rightarrow> Inr (JObj [])
      | Some p \<Rightarrow> rbind (read_yaml p) (\<lambda>j. Inr (py_or j (JObj [])))) (\<lambda>data.
     rbind (apply_env env (dict_or_empty data)) build_config)"

section \<open>Lemmas\<close>

text \<open>An override changes one entry of one section.\<close>

lemma section_of_jset [simp]:
  "section_of (jset sec x data) sec' = (if sec' = sec then dict_or_empty x else section_of data sec')"
  by (simp add: section_of_def)

lemma dict_or_empty_jset [simp]: "dict_or_empty (jset k v m) = jset k v m"
  by (simp add: dict_or_empty_def)

lemma section_set_entry:
  assumes "section_set sec k v data = Inr data'"
  shows "jget (section_of data' sec') k' = (if sec' = sec \<and> k' = k then v else jget (section_of data sec') k')"
  using assms
  by (auto simp: section_set_def Let_def section_of_def dict_or_empty_def jget_def [of data] get_or_def
      split: if_splits option.splits)

lemma override_entry:
  assumes "override var sec k reading data = Inr data'"
  shows "jget (section_of data' sec') k' =
    (case var of None \<Rightarrow> jget (section_of data sec') k'
     | Some v \<Rightarrow> if sec' = sec \<and> k' = k then (case reading v of Inr j \<Rightarrow> j | Inl e \<Rightarrow> JNull)
               else jget (section_of data sec') k')"
  using assms
  by (auto simp: override_def result_simps section_set_entry split: option.splits)

lemma override_other:
  assumes "override var sec k reading data = Inr data'" and "sec' \<noteq> sec \<or> k' \<noteq> k"
  shows "jget (section_of data' sec') k' = jget (section_of data sec') k'"
  using override_entry [OF assms(1), of sec' k'] assms(2) by (auto split: option.splits)

text \<open>What some entries are after all overrides.\<close>

lemma apply_env_unsafe:
  assumes "apply_env env data = Inr data'"
  shows "jget (section_of data' ''bind'') ''unsafe_allow_nonlocal'' =
      (case env_set env ''UNISON_CAPABILITY_UNSAFE_ALLOW_NONLOCAL'' of
         None \<Rightarrow> jget (section_of data ''bind'') ''unsafe_allow_nonlocal''
       | Some v \<Rightarrow> JBool (flag_text v))" (is ?bind)
    and "jget (section_of data' ''auth'') ''unsafe_allow_no_auth'' =
      (if flag_text (getenv env ''UNISON_CAPABILITY_UNSAFE_NO_AUTH'' []) then JBool True
       else jget (section_of data ''auth'') ''unsafe_allow_no_auth'')" (is ?auth)
    and "jget (section_of data' ''egress'') ''allow_private_networks'' =
      (case env_set env ''UNISON_CAPABILITY_EGRESS_ALLOW_PRIVATE_NETWORKS'' of
         None \<Rightarrow> jget (section_of data ''egress'') ''allow_private_networks''
       | Some v \<Rightarrow> JBool (flag_text v))" (is ?egress)
    and "jget (section_of data' ''auth'') ''mode'' =
      (case env_set env ''UNISON_CAPABILITY_AUTH_MODE'' of
         None \<Rightarrow> jget (section_of data ''auth'') ''mode'' | Some v \<Rightarrow> JStr v)" (is ?mode)
proof -
  let ?e = "\<lambda>k. env_set env k"
  obtain store_dir d1 d2 d3 d4 d5 d6 d7 d8 d9 d10 where
    h1: "override store_dir ''store'' ''base_dir'' as_text data = Inr d1"
    and h2: "override (?e ''UNISON_CAPABILITY_AUTH_MODE'') ''auth'' ''mode'' as_text d1 = Inr d2"
    and h3: "override (?e ''UNISON_CAPABILITY_BEARER_TOKEN'') ''auth'' ''static_bearer_token'' as_text d2 = Inr d3"
    and h4: "override (if flag_text (getenv env ''UNISON_CAPABILITY_UNSAFE_NO_AUTH'' []) then Some ''true'' else None)
        ''auth'' ''unsafe_allow_no_auth'' as_flag d3 = Inr d4"
    and h5: "override (?e ''UNISON_CAPABILITY_UNSAFE_ALLOW_NONLOCAL'') ''bind'' ''unsafe_allow_nonlocal'' as_flag d4 = Inr d5"
    and h6: "override (?e ''UNISON_CAPABILITY_HOST'') ''bind'' ''host'' as_text d5 = Inr d6"
    and h7: "override (?e ''UNISON_CAPABILITY_PORT'') ''bind'' ''port'' as_int d6 = Inr d7"
    and h8: "override (?e ''UNISON_CAPABILITY_UDS'') ''bind'' ''uds_path'' as_text d7 = Inr d8"
    and h9: "override (?e ''UNISON_CAPABILITY_EGRESS_ALLOWLIST'') ''egress'' ''allowlist'' as_text d8 = Inr d9"
    and h10: "override (?e ''UNISON_CAPABILITY_EGRESS_DENYLIST'') ''egress'' ''denylist'' as_text d9 = Inr d10"
    and h11: "override (?e ''UNISON_CAPABILITY_EGRESS_ALLOW_PRIVATE_NETWORKS'') ''egress'' ''allow_private_networks''
        as_flag d10 = Inr data'"
    using assms unfolding apply_env_def Let_def rbind_eq_Inr by blast
  note other = h1 [THEN override_other] h2 [THEN override_other] h3 [THEN override_other]
    h4 [THEN override_other] h5 [THEN override_other] h6 [THEN override_other] h7 [THEN override_other]
    h8 [THEN override_other] h9 [THEN override_other] h10 [THEN override_other] h11 [THEN override_other]
  have flag: "flag_text ''true''" by code_simp
  show ?bind
    using h5 [THEN override_entry, of "''bind''" "''unsafe_allow_nonlocal''"]
    by (simp add: other as_flag_def split: option.splits)
  show ?auth
    using h4 [THEN override_entry, of "''auth''" "''unsafe_allow_no_auth''"] flag
    by (simp add: other as_flag_def split: option.splits if_splits)
  show ?egress
    using h11 [THEN override_entry, of "''egress''" "''allow_private_networks''"]
    by (simp add: other as_flag_def split: option.splits)
  show ?mode
    using h2 [THEN override_entry, of "''auth''" "''mode''"]
    by (simp add: other as_text_def split: option.splits)
qed

lemma build_config_Inr:
  "build_config data = Inr c \<Longrightarrow>
     cfg_auth c = build_auth (section_of data ''auth'') \<and> cfg_egress c = build_egress (section_of data ''egress'')
     \<and> unsafe_allow_nonlocal (cfg_bind c) = truthy (jget (section_of data ''bind'') ''unsafe_allow_nonlocal'')"
  by (auto simp: build_config_def build_bind_def result_simps)

text \<open>The settings that weaken the service.\<close>

definition weakened :: "service_config \<Rightarrow> bool" where
  "weakened c \<longleftrightarrow> unsafe_allow_nonlocal (cfg_bind c) \<or> unsafe_allow_no_auth (cfg_auth c)
     \<or> allow_private_networks (cfg_egress c)"

text \<open>What the file and the environment ask for.\<close>

definition env_or_file :: "env \<Rightarrow> string \<Rightarrow> json \<Rightarrow> string \<Rightarrow> string \<Rightarrow> bool" where
  "env_or_file env var data sec k =
     (case env_set env var of Some v \<Rightarrow> flag_text v | None \<Rightarrow> truthy (jget (section_of data sec) k))"

definition asks_weakening :: "env \<Rightarrow> json \<Rightarrow> bool" where
  "asks_weakening env data \<longleftrightarrow>
     env_or_file env ''UNISON_CAPABILITY_UNSAFE_ALLOW_NONLOCAL'' data ''bind'' ''unsafe_allow_nonlocal''
     \<or> flag_text (getenv env ''UNISON_CAPABILITY_UNSAFE_NO_AUTH'' [])
     \<or> truthy (jget (section_of data ''auth'') ''unsafe_allow_no_auth'')
     \<or> env_or_file env ''UNISON_CAPABILITY_EGRESS_ALLOW_PRIVATE_NETWORKS'' data ''egress'' ''allow_private_networks''"

section \<open>Properties\<close>

text \<open>
  Whatever else the file and the environment hold, a configuration that loads has
  one of its three weakening flags (non-local clients, no authentication, private networks)
  exactly when the file or the matching variable asks for it; the environment wins over the
  file for the first and the third, while for authentication the variable can only add.
\<close>

theorem weakening_only_on_request:
  "case rbind (apply_env env data) build_config of
     Inl e \<Rightarrow> True | Inr c \<Rightarrow> weakened c \<longleftrightarrow> asks_weakening env data"
proof (cases "rbind (apply_env env data) build_config")
  case (Inr c)
  then obtain data' where env: "apply_env env data = Inr data'" and c: "build_config data' = Inr c"
    by (auto simp: result_simps)
  from build_config_Inr [OF c] apply_env_unsafe [OF env] Inr show ?thesis
    by (auto simp: weakened_def asks_weakening_def env_or_file_def build_auth_def build_egress_def
        split: option.splits)
qed simp

text \<open>
  Without a configuration file and with an empty environment the service binds to
  the loopback address, requires JWT authentication, reserves installing and removing for the
  operator and admin roles, and denies all egress.
\<close>

theorem default_config_is_closed:
  "case config_load (\<lambda>_. None) (\<lambda>_. False) read_yaml of
     Inl e \<Rightarrow> False
   | Inr c \<Rightarrow> \<not> weakened c \<and> bind_host (cfg_bind c) = ''127.0.0.1'' \<and> auth_mode (cfg_auth c) = ''unison_jwt''
       \<and> cfg_authz c = default_authz \<and> allowlist (cfg_egress c) = [] \<and> cfg_base_dir c = default_base_dir
       \<and> http_catalog_urls (cfg_registries c) = []"
proof -
  have "config_load (\<lambda>_. None) (\<lambda>_. False) read_yaml = rbind (apply_env (\<lambda>_. None) (JObj [])) build_config"
    by (simp add: config_load_def config_path_def env_set_def dict_or_empty_def)
  moreover have "case rbind (apply_env (\<lambda>_. None) (JObj [])) build_config of
     Inl e \<Rightarrow> False
   | Inr c \<Rightarrow> \<not> weakened c \<and> bind_host (cfg_bind c) = ''127.0.0.1'' \<and> auth_mode (cfg_auth c) = ''unison_jwt''
       \<and> cfg_authz c = default_authz \<and> allowlist (cfg_egress c) = [] \<and> cfg_base_dir c = default_base_dir
       \<and> http_catalog_urls (cfg_registries c) = []"
    by code_simp
  ultimately show ?thesis by simp
qed

end
