(* ===== verification/World.thy ===== *)
theory World
  imports Json
begin

text \<open>
  The outside of the program: the file system (a tree of paths), the HTTP requests that
  leave the process, the audit log and the process-wide nonce set, and a monad of
  operations on them. An operation returns a value or an exception and the world it
  leaves behind. Two devices make failures part of every statement:
  \<^item> \<open>w_faults\<close> is a schedule of operating-system errors: each primitive file operation
    consumes one entry and fails with it when the entry is \<open>Some e\<close>. Theorems hold for
    every schedule.
  \<^item> \<open>w_hist\<close> lists the file-system states the primitives pass through. A crash of the
    process leaves one of them on disk, so a property of every state in the history is a
    crash-safety property.
\<close>

section \<open>Files\<close>

text \<open>
  A path is the list of its components from the root. A file holds a JSON document
  (\<open>Doc\<close>: text that \<open>json.loads\<close> reads back as that value) or any other text (\<open>Raw\<close>).
\<close>

type_synonym path = "string list"

datatype fdata = Doc json | Raw string

datatype node = DirN | FileN fdata

type_synonym fs = "(path \<times> node) list"

section \<open>HTTP\<close>

record http_request =
  rq_method :: string
  rq_url :: string
  rq_json :: "json option"
  rq_data :: "json option"
  rq_headers :: "(string \<times> string) list"
  rq_timeout :: flt

text \<open>
  What the code reads of a response: the status code, the outcome of
  \<open>raise_for_status()\<close> and of \<open>json()\<close>.
\<close>

record http_response =
  rs_status :: int
  rs_raise :: "exc option"
  rs_json :: "json res"

type_synonym transport = "http_request \<Rightarrow> http_response res"

definition raise_for_status :: "http_response \<Rightarrow> unit res" where
  "raise_for_status r = (case rs_raise r of None \<Rightarrow> Inr () | Some e \<Rightarrow> Inl e)"

section \<open>The world and operations on it\<close>

record world =
  w_fs :: fs
  w_faults :: "exc option list"
  w_hist :: "fs list"
  w_sent :: "http_request list"
  w_nonces :: "string list"
  w_log :: "(string \<times> json) list"

type_synonym 'a io = "world \<Rightarrow> 'a res \<times> world"

definition io_return :: "'a \<Rightarrow> 'a io" where
  "io_return a = (\<lambda>w. (Inr a, w))"

definition io_raise :: "exc \<Rightarrow> 'a io" where
  "io_raise e = (\<lambda>w. (Inl e, w))"

definition io_lift :: "'a res \<Rightarrow> 'a io" where
  "io_lift r = (\<lambda>w. (r, w))"

definition io_bind :: "'a io \<Rightarrow> ('a \<Rightarrow> 'b io) \<Rightarrow> 'b io" where
  "io_bind m f = (\<lambda>w. case m w of (Inl e, w') \<Rightarrow> (Inl e, w') | (Inr a, w') \<Rightarrow> f a w')"

text \<open>\<open>try: m except Exception as exc: h exc\<close>\<close>

definition io_try :: "'a io \<Rightarrow> (exc \<Rightarrow> 'a io) \<Rightarrow> 'a io" where
  "io_try m h = (\<lambda>w. case m w of (Inl e, w') \<Rightarrow> h e w' | (Inr a, w') \<Rightarrow> (Inr a, w'))"

text \<open>\<open>try: m finally: c\<close>; an exception of the clean-up replaces the outcome.\<close>

definition io_finally :: "'a io \<Rightarrow> unit io \<Rightarrow> 'a io" where
  "io_finally m c = (\<lambda>w. case m w of (r, w') \<Rightarrow>
     (case c w' of (Inl e, w'') \<Rightarrow> (Inl e, w'') | (Inr _, w'') \<Rightarrow> (r, w'')))"

fun io_foreach :: "('a \<Rightarrow> unit io) \<Rightarrow> 'a list \<Rightarrow> unit io" where
  "io_foreach f [] = io_return ()"
| "io_foreach f (x # xs) = io_bind (f x) (\<lambda>_. io_foreach f xs)"

definition io_ignore :: "unit io \<Rightarrow> unit io" where
  "io_ignore m = io_try m (\<lambda>_. io_return ())"

definition io_get :: "(world \<Rightarrow> 'a) \<Rightarrow> 'a io" where
  "io_get f = (\<lambda>w. (Inr (f w), w))"

definition io_modify :: "(world \<Rightarrow> world) \<Rightarrow> unit io" where
  "io_modify f = (\<lambda>w. (Inr (), f w))"

named_theorems io_defs

lemmas [io_defs] = io_return_def io_raise_def io_lift_def io_bind_def io_try_def io_finally_def
  io_ignore_def io_get_def io_modify_def

lemma io_bind_return [simp]: "io_bind (io_return a) f = f a"
  by (simp add: io_defs)

lemma io_bind_raise [simp]: "io_bind (io_raise e) f = io_raise e"
  by (simp add: io_defs)

lemma io_lift_Inr [simp]: "io_lift (Inr a) = io_return a"
  by (simp add: io_defs)

lemma io_lift_Inl [simp]: "io_lift (Inl e) = io_raise e"
  by (simp add: io_defs)

lemma io_bind_assoc: "io_bind (io_bind m f) g = io_bind m (\<lambda>a. io_bind (f a) g)"
  by (auto simp: io_defs fun_eq_iff split: prod.splits sum.splits)

section \<open>Primitive file operations\<close>

definition fs_get :: "fs \<Rightarrow> path \<Rightarrow> node option" where
  "fs_get s p = map_of s p"

definition fs_put :: "path \<Rightarrow> node \<Rightarrow> fs \<Rightarrow> fs" where
  "fs_put p n s = AList.update p n s"

definition fs_del :: "path \<Rightarrow> fs \<Rightarrow> fs" where
  "fs_del p s = AList.delete p s"

definition parent :: "path \<Rightarrow> path" where
  "parent p = butlast p"

definition is_prefix :: "path \<Rightarrow> path \<Rightarrow> bool" where
  "is_prefix p q \<longleftrightarrow> take (length p) q = p"

text \<open>The paths strictly below a directory.\<close>

definition below :: "path \<Rightarrow> fs \<Rightarrow> path list" where
  "below p s = filter (\<lambda>q. is_prefix p q \<and> q \<noteq> p) (remdups (map fst s))"

definition is_dir :: "fs \<Rightarrow> path \<Rightarrow> bool" where
  "is_dir s p \<longleftrightarrow> p = [] \<or> fs_get s p = Some DirN"

definition is_file :: "fs \<Rightarrow> path \<Rightarrow> bool" where
  "is_file s p \<longleftrightarrow> (case fs_get s p of Some (FileN _) \<Rightarrow> True | _ \<Rightarrow> False)"

definition path_exists :: "fs \<Rightarrow> path \<Rightarrow> bool" where
  "path_exists s p \<longleftrightarrow> p = [] \<or> fs_get s p \<noteq> None"

definition os_error :: "int \<Rightarrow> exc" where
  "os_error n = PyError (OSError n) (''[Errno '' @ int_str n @ '']'')"

text \<open>A world in which nothing exists and nothing has happened.\<close>

definition blank_world :: world where
  "blank_world = \<lparr>w_fs = [], w_faults = [], w_hist = [], w_sent = [], w_nonces = [], w_log = []\<rparr>"

text \<open>A primitive: one entry of the fault schedule, one state of the history.\<close>

definition prim :: "(fs \<Rightarrow> ('a \<times> fs) res) \<Rightarrow> 'a io" where
  "prim f = (\<lambda>w.
     let w1 = w\<lparr>w_faults := tl (w_faults w)\<rparr> in
     case (if w_faults w = [] then None else hd (w_faults w)) of
       Some e \<Rightarrow> (Inl e, w1)
     | None \<Rightarrow> (case f (w_fs w) of
         Inl e \<Rightarrow> (Inl e, w1)
       | Inr (a, s) \<Rightarrow> (Inr a, w1\<lparr>w_fs := s, w_hist := w_hist w @ [s]\<rparr>)))"

text \<open>\<open>p.mkdir(parents=True, exist_ok=True)\<close>: every missing directory on the way to \<open>p\<close>.\<close>

fun mk_dirs :: "path list \<Rightarrow> fs \<Rightarrow> fs res" where
  "mk_dirs [] s = Inr s"
| "mk_dirs (p # ps) s =
     (case fs_get s p of
        None \<Rightarrow> mk_dirs ps (fs_put p DirN s)
      | Some DirN \<Rightarrow> mk_dirs ps s
      | Some (FileN _) \<Rightarrow> Inl (os_error (if ps = [] then 17 else 20)))"

definition prefixes_of :: "path \<Rightarrow> path list" where
  "prefixes_of p = map (\<lambda>n. take n p) [1..<Suc (length p)]"

definition mkdir_p :: "path \<Rightarrow> unit io" where
  "mkdir_p p = prim (\<lambda>s. map_sum id (Pair ()) (mk_dirs (prefixes_of p) s))"

text \<open>\<open>p.mkdir(parents=True, exist_ok=False)\<close>\<close>

definition mkdir_new :: "path \<Rightarrow> unit io" where
  "mkdir_new p = prim (\<lambda>s. if path_exists s p then Inl (os_error 17)
     else map_sum id (Pair ()) (mk_dirs (prefixes_of p) s))"

text \<open>Creating an empty file that must not exist yet, as \<open>tempfile.mkstemp\<close> does.\<close>

definition create_file :: "path \<Rightarrow> unit io" where
  "create_file p = prim (\<lambda>s. if path_exists s p then Inl (os_error 17)
     else if \<not> is_dir s (parent p) then Inl (os_error 2)
     else Inr ((), fs_put p (FileN (Raw [])) s))"

text \<open>Writing a file that is open: its content, in one primitive.\<close>

definition write_file :: "path \<Rightarrow> fdata \<Rightarrow> unit io" where
  "write_file p d = prim (\<lambda>s. if is_file s p then Inr ((), fs_put p (FileN d) s) else Inl (os_error 2))"

definition read_file :: "path \<Rightarrow> fdata io" where
  "read_file p = prim (\<lambda>s. case fs_get s p of
     Some (FileN d) \<Rightarrow> Inr (d, s)
   | Some DirN \<Rightarrow> Inl (os_error 21)
   | None \<Rightarrow> Inl (os_error (if p = [] then 21 else 2)))"

text \<open>\<open>os.replace\<close> of a file.\<close>

definition replace_file :: "path \<Rightarrow> path \<Rightarrow> unit io" where
  "replace_file src dst = prim (\<lambda>s. case fs_get s src of
     Some (FileN d) \<Rightarrow>
       if is_dir s dst then Inl (os_error 21)
       else if \<not> is_dir s (parent dst) then Inl (os_error 2)
       else Inr ((), fs_put dst (FileN d) (fs_del src s))
   | _ \<Rightarrow> Inl (os_error 2))"

text \<open>\<open>os.replace\<close> of a directory: allowed onto a missing path or an empty directory.\<close>

definition move_path :: "path \<Rightarrow> path \<Rightarrow> path \<Rightarrow> path" where
  "move_path src dst q = (if is_prefix src q then dst @ drop (length src) q else q)"

definition replace_dir :: "path \<Rightarrow> path \<Rightarrow> unit io" where
  "replace_dir src dst = prim (\<lambda>s.
     if \<not> is_dir s src then Inl (os_error 2)
     else if is_file s dst then Inl (os_error 20)
     else if below dst s \<noteq> [] then Inl (os_error 39)
     else if \<not> is_dir s (parent dst) then Inl (os_error 2)
     else Inr ((), map (\<lambda>(q, n). (move_path src dst q, n)) (filter (\<lambda>(q, n). q \<noteq> dst) s)))"

definition unlink :: "path \<Rightarrow> unit io" where
  "unlink p = prim (\<lambda>s. case fs_get s p of
     Some (FileN d) \<Rightarrow> Inr ((), fs_del p s)
   | Some DirN \<Rightarrow> Inl (os_error 21)
   | None \<Rightarrow> Inl (os_error 2))"

text \<open>\<open>p.unlink(missing_ok=True)\<close>, which ignores a missing file only.\<close>

definition unlink_missing_ok :: "path \<Rightarrow> unit io" where
  "unlink_missing_ok p = io_try (unlink p)
     (\<lambda>e. case e of PyError (OSError n) t \<Rightarrow> if n = 2 then io_return () else io_raise e | _ \<Rightarrow> io_raise e)"

definition rmdir :: "path \<Rightarrow> unit io" where
  "rmdir p = prim (\<lambda>s. case fs_get s p of
     Some DirN \<Rightarrow> if below p s = [] then Inr ((), fs_del p s) else Inl (os_error 39)
   | Some (FileN d) \<Rightarrow> Inl (os_error 20)
   | None \<Rightarrow> Inl (os_error 2))"

text \<open>\<open>os.fsync\<close>: no visible effect in this model, but it may fail.\<close>

definition fsync :: "unit io" where
  "fsync = prim (\<lambda>s. Inr ((), s))"

definition exists_io :: "path \<Rightarrow> bool io" where
  "exists_io p = io_get (\<lambda>w. path_exists (w_fs w) p)"

text \<open>
  \<open>shutil.rmtree(p, ignore_errors=True)\<close>: the entries below \<open>p\<close>, children first, then
  \<open>p\<close> itself; each error is ignored, and a path that is no directory is left alone.
\<close>

definition remove_entry :: "path \<Rightarrow> unit io" where
  "remove_entry p = io_bind (io_get (\<lambda>w. is_dir (w_fs w) p))
     (\<lambda>d. io_ignore (if d then rmdir p else unlink p))"

definition tree_entries :: "path \<Rightarrow> fs \<Rightarrow> path list" where
  "tree_entries p s = (if is_dir s p then rev (sort (below p s)) @ [p] else [])"

definition rmtree :: "path \<Rightarrow> unit io" where
  "rmtree p = io_bind (io_get (\<lambda>w. tree_entries p (w_fs w))) (io_foreach remove_entry)"

section \<open>Sending requests\<close>

text \<open>Sending records the request; what comes back is up to the transport.\<close>

definition send :: "transport \<Rightarrow> http_request \<Rightarrow> http_response io" where
  "send tr rq = (\<lambda>w. (tr rq, w\<lparr>w_sent := w_sent w @ [rq]\<rparr>))"

section \<open>Hoare triples with a crash invariant\<close>

text \<open>
  \<open>triple I P m Q E\<close>: from a world satisfying \<open>P\<close>, every file-system state \<open>m\<close> passes
  through satisfies \<open>I\<close>; when it returns \<open>a\<close> then \<open>Q a\<close> holds, when it raises \<open>e\<close>
  then \<open>E e\<close> holds.
\<close>

definition steps_ok :: "(fs \<Rightarrow> bool) \<Rightarrow> world \<Rightarrow> world \<Rightarrow> bool" where
  "steps_ok I w w' \<longleftrightarrow> (\<exists>h. w_hist w' = w_hist w @ h \<and> (\<forall>s \<in> set h. I s))"

definition triple ::
  "(fs \<Rightarrow> bool) \<Rightarrow> (world \<Rightarrow> bool) \<Rightarrow> 'a io \<Rightarrow> ('a \<Rightarrow> world \<Rightarrow> bool) \<Rightarrow> (exc \<Rightarrow> world \<Rightarrow> bool) \<Rightarrow> bool" where
  "triple I P m Q E \<longleftrightarrow> (\<forall>w r w'. P w \<longrightarrow> m w = (r, w') \<longrightarrow>
     steps_ok I w w' \<and> (case r of Inl e \<Rightarrow> E e w' | Inr a \<Rightarrow> Q a w'))"

lemma steps_ok_refl [simp]: "steps_ok I w w"
  by (auto simp: steps_ok_def)

lemma steps_ok_trans: "steps_ok I u v \<Longrightarrow> steps_ok I v w \<Longrightarrow> steps_ok I u w"
  by (fastforce simp: steps_ok_def)

lemma steps_ok_same_hist: "w_hist w' = w_hist w \<Longrightarrow> steps_ok I w w'"
  by (auto simp: steps_ok_def)

lemma tripleI:
  "(\<And>w r w'. P w \<Longrightarrow> m w = (r, w') \<Longrightarrow>
     steps_ok I w w' \<and> (case r of Inl e \<Rightarrow> E e w' | Inr a \<Rightarrow> Q a w')) \<Longrightarrow> triple I P m Q E"
  by (auto simp: triple_def)

lemma tripleD:
  "triple I P m Q E \<Longrightarrow> P w \<Longrightarrow> m w = (r, w') \<Longrightarrow>
     steps_ok I w w' \<and> (case r of Inl e \<Rightarrow> E e w' | Inr a \<Rightarrow> Q a w')"
  unfolding triple_def by blast

lemma triple_vacuous: "(\<And>w. \<not> P w) \<Longrightarrow> triple I P m Q E"
  by (simp add: triple_def)

lemma triple_weaken:
  assumes "triple I P m Q E" and "\<And>w. P' w \<Longrightarrow> P w"
    and "\<And>a w. Q a w \<Longrightarrow> Q' a w" and "\<And>e w. E e w \<Longrightarrow> E' e w"
  shows "triple I P' m Q' E'"
  using assms unfolding triple_def by (fastforce split: sum.splits)

lemma triple_return: "(\<And>w. P w \<Longrightarrow> Q a w) \<Longrightarrow> triple I P (io_return a) Q E"
  by (auto simp: triple_def io_defs)

lemma triple_raise: "(\<And>w. P w \<Longrightarrow> E e w) \<Longrightarrow> triple I P (io_raise e) Q E"
  by (auto simp: triple_def io_defs)

lemma triple_lift:
  "(\<And>w a. P w \<Longrightarrow> r = Inr a \<Longrightarrow> Q a w) \<Longrightarrow> (\<And>w e. P w \<Longrightarrow> r = Inl e \<Longrightarrow> E e w) \<Longrightarrow> triple I P (io_lift r) Q E"
  by (auto simp: triple_def io_defs split: sum.splits)

lemma triple_get: "(\<And>w. P w \<Longrightarrow> Q (f w) w) \<Longrightarrow> triple I P (io_get f) Q E"
  by (auto simp: triple_def io_defs)

lemma triple_bind:
  assumes m: "triple I P m R E" and f: "\<And>a. triple I (R a) (f a) Q E"
  shows "triple I P (io_bind m f) Q E"
proof (rule tripleI)
  fix w r w'
  assume P: "P w" and run: "io_bind m f w = (r, w')"
  obtain r1 w1 where 1: "m w = (r1, w1)" by fastforce
  from tripleD [OF m P 1] have s1: "steps_ok I w w1"
    and c1: "case r1 of Inl e \<Rightarrow> E e w1 | Inr a \<Rightarrow> R a w1" by auto
  show "steps_ok I w w' \<and> (case r of Inl e \<Rightarrow> E e w' | Inr a \<Rightarrow> Q a w')"
  proof (cases r1)
    case (Inl e)
    with run 1 c1 s1 show ?thesis by (auto simp: io_bind_def)
  next
    case (Inr a)
    with run 1 have "f a w1 = (r, w')" by (simp add: io_bind_def)
    moreover from Inr c1 have "R a w1" by simp
    ultimately show ?thesis
      using tripleD [OF f] s1 steps_ok_trans by blast
  qed
qed

lemma triple_try:
  assumes m: "triple I P m Q R" and h: "\<And>e. triple I (R e) (h e) Q E"
  shows "triple I P (io_try m h) Q E"
proof (rule tripleI)
  fix w r w'
  assume P: "P w" and run: "io_try m h w = (r, w')"
  obtain r1 w1 where 1: "m w = (r1, w1)" by fastforce
  from tripleD [OF m P 1] have s1: "steps_ok I w w1"
    and c1: "case r1 of Inl e \<Rightarrow> R e w1 | Inr a \<Rightarrow> Q a w1" by auto
  show "steps_ok I w w' \<and> (case r of Inl e \<Rightarrow> E e w' | Inr a \<Rightarrow> Q a w')"
  proof (cases r1)
    case (Inr a)
    with run 1 c1 s1 show ?thesis by (auto simp: io_try_def)
  next
    case (Inl e)
    with run 1 have "h e w1 = (r, w')" by (simp add: io_try_def)
    moreover from Inl c1 have "R e w1" by simp
    ultimately show ?thesis
      using tripleD [OF h] s1 steps_ok_trans by blast
  qed
qed

lemma triple_finally:
  assumes m: "triple I P m R S"
    and cq: "\<And>a. triple I (R a) c (\<lambda>_. Q a) E"
    and ce: "\<And>e. triple I (S e) c (\<lambda>_. E e) E"
  shows "triple I P (io_finally m c) Q E"
proof (rule tripleI)
  fix w r w'
  assume P: "P w" and run: "io_finally m c w = (r, w')"
  obtain r1 w1 where 1: "m w = (r1, w1)" by fastforce
  obtain r2 w2 where 2: "c w1 = (r2, w2)" by fastforce
  from tripleD [OF m P 1] have s1: "steps_ok I w w1"
    and c1: "case r1 of Inl e \<Rightarrow> S e w1 | Inr a \<Rightarrow> R a w1" by auto
  have "steps_ok I w1 w2 \<and> (case r2 of Inl e \<Rightarrow> E e w2
          | Inr _ \<Rightarrow> (case r1 of Inl e \<Rightarrow> E e w2 | Inr a \<Rightarrow> Q a w2))"
  proof (cases r1)
    case (Inl e)
    with c1 have "S e w1" by simp
    from tripleD [OF ce this 2] Inl show ?thesis by (auto split: sum.splits)
  next
    case (Inr a)
    with c1 have "R a w1" by simp
    from tripleD [OF cq this 2] Inr show ?thesis by (auto split: sum.splits)
  qed
  with run 1 2 s1 show "steps_ok I w w' \<and> (case r of Inl e \<Rightarrow> E e w' | Inr a \<Rightarrow> Q a w')"
    by (cases r2) (auto simp: io_finally_def split: sum.splits intro: steps_ok_trans)
qed

lemma triple_ignore:
  assumes "triple I P m Q (\<lambda>_. Q ())"
  shows "triple I P (io_ignore m) Q E"
  unfolding io_ignore_def by (rule triple_try [OF assms]) (rule triple_return)

lemma triple_foreach:
  assumes "\<And>x. x \<in> set xs \<Longrightarrow> triple I P (f x) (\<lambda>_. P) E"
  shows "triple I P (io_foreach f xs) (\<lambda>_. P) E"
  using assms
proof (induction xs)
  case Nil
  then show ?case by (simp add: triple_return)
next
  case (Cons x xs)
  then show ?case by (simp, intro triple_bind [where R = "\<lambda>_. P"]) auto
qed

text \<open>The rule for primitives, for assertions that look at the file system alone.\<close>

lemma triple_prim:
  assumes ok: "\<And>s a s'. P s \<Longrightarrow> f s = Inr (a, s') \<Longrightarrow> I s' \<and> Q a s'"
    and err: "\<And>s e. P s \<Longrightarrow> E e s"
  shows "triple I (\<lambda>w. P (w_fs w)) (prim f) (\<lambda>a w. Q a (w_fs w)) (\<lambda>e w. E e (w_fs w))"
proof (rule tripleI)
  fix w r w'
  assume P: "P (w_fs w)" and run: "prim f w = (r, w')"
  show "steps_ok I w w' \<and> (case r of Inl e \<Rightarrow> E e (w_fs w') | Inr a \<Rightarrow> Q a (w_fs w'))"
    using run err [OF P] ok [OF P]
    by (auto simp: prim_def Let_def steps_ok_def split: option.splits sum.splits if_splits)
qed

end
