(* ===== verification/Egress.thy ===== *)
theory Egress
  imports Config Url World
begin

text \<open>
  src/egress.py: which URLs the service may call, the guarded HTTP client, and the network
  permissions of a manifest. The predicate \<open>sends_only\<close> and its rules carry the guard to
  every operation that is built from the client.
\<close>

section \<open>Rules\<close>

definition is_private_or_loopback :: "string \<Rightarrow> bool" where
  "is_private_or_loopback host =
     (if host = ''localhost'' then True
      else (case ip_address host of
          None \<Rightarrow> False
        | Some ip \<Rightarrow> is_loopback ip \<or> is_private ip \<or> is_link_local ip))"

definition host_matches :: "string \<Rightarrow> string \<Rightarrow> bool" where
  "host_matches rule0 host0 =
     (let r = str_lower (str_strip rule0); h = str_lower (str_strip host0) in
      if r = [] \<or> h = [] then False
      else if starts_with ''*.'' r \<and> ends_with (drop 1 r) h then True
      else if h = r then True
      else ends_with (''.'' @ r) h)"

definition url_prefix_matches :: "string \<Rightarrow> string \<Rightarrow> bool" where
  "url_prefix_matches prefix u = starts_with (str_lower (str_strip prefix)) (str_lower u)"

text \<open>One entry of an allow or deny list: a URL prefix if it has a scheme, else a host.\<close>

definition rule_matches :: "string \<Rightarrow> string \<Rightarrow> string \<Rightarrow> bool" where
  "rule_matches u host r =
     ((str_contains ''://'' r \<and> url_prefix_matches r u) \<or> (\<not> str_contains ''://'' r \<and> host_matches r host))"

section \<open>The controller\<close>

fun deny_loop :: "string \<Rightarrow> string \<Rightarrow> string list \<Rightarrow> unit res" where
  "deny_loop u host [] = Inr ()"
| "deny_loop u host (r # rs) =
     (if rule_matches u host r then policy_error (''egress denied by denylist: '' @ r)
      else deny_loop u host rs)"

fun allow_loop :: "string \<Rightarrow> string \<Rightarrow> string list \<Rightarrow> string \<Rightarrow> unit res" where
  "allow_loop u host [] otherwise = policy_error otherwise"
| "allow_loop u host (r # rs) otherwise =
     (if rule_matches u host r then Inr () else allow_loop u host rs otherwise)"

definition loopback_names :: "string list" where
  "loopback_names = [''127.0.0.1'', ''::1'', ''localhost'']"

definition check_url :: "egress_config \<Rightarrow> string \<Rightarrow> unit res" where
  "check_url cfg u =
     rbind (urlparse u) (\<lambda>parsed.
     if scheme parsed \<notin> set [''http'', ''https''] then
       policy_error (''egress denied: unsupported scheme: '' @ scheme parsed)
     else
       (let host = hostname parsed in
        if host = [] then policy_error ''egress denied: missing hostname''
        else if is_private_or_loopback host \<and> host \<in> set loopback_names then Inr ()
        else if is_private_or_loopback host \<and> \<not> allow_private_networks cfg then
          policy_error ''egress denied: private network destinations require allow_private_networks=true''
        else
          rbind (deny_loop u host (denylist cfg)) (\<lambda>_.
          if allowlist cfg = [] then policy_error ''egress denied: no allowlist configured''
          else allow_loop u host (allowlist cfg) ''egress denied: destination not in allowlist'')))"

definition egress_request :: "egress_config \<Rightarrow> transport \<Rightarrow> http_request \<Rightarrow> http_response io" where
  "egress_request cfg tr rq = io_bind (io_lift (check_url cfg (rq_url rq))) (\<lambda>_. send tr rq)"

section \<open>Network permissions of a manifest\<close>

definition enforce_manifest_network :: "json \<Rightarrow> string \<Rightarrow> unit res" where
  "enforce_manifest_network manifest u =
     (let perms = dict_or_empty (jget manifest ''permissions'');
          mode = py_str (py_or (jget perms ''network'') (JStr ''deny'')) in
      if mode = ''deny'' then policy_error ''network denied by capability permissions''
      else if mode \<noteq> ''allowlist'' then policy_error (''invalid permissions.network: '' @ mode)
      else
        (let allow = list_or_empty (jget perms ''network_allowlist'') in
         if allow = [] then policy_error ''network allowlist required when permissions.network=allowlist''
         else
           rbind (urlparse u) (\<lambda>parsed.
           allow_loop u (hostname parsed) (map py_str allow)
             ''egress denied: destination not permitted by capability network_allowlist'')))"

section \<open>Lemmas on the rules\<close>

lemma deny_loop_Inr [result_simps]: "deny_loop u h rs = Inr x \<longleftrightarrow> \<not> list_ex (rule_matches u h) rs"
  by (induction rs) auto

lemma allow_loop_Inr [result_simps]: "allow_loop u h rs s = Inr x \<longleftrightarrow> list_ex (rule_matches u h) rs"
  by (induction rs) auto

lemma str_contains_scheme_append: "str_contains ''://'' (''https://'' @ x)" "str_contains ''://'' (''http://'' @ x)"
  by (simp_all add: str_contains_iff, rule exI [of _ "''https''"], simp, rule exI [of _ "''http''"], simp)

definition egress_allowed :: "egress_config \<Rightarrow> string \<Rightarrow> bool" where
  "egress_allowed cfg u =
     (case urlparse u of
        Inl e \<Rightarrow> False
      | Inr p \<Rightarrow>
          scheme p \<in> {''http'', ''https''} \<and> hostname p \<noteq> []
          \<and> (hostname p \<in> set loopback_names
             \<or> (is_private_or_loopback (hostname p) \<longrightarrow> allow_private_networks cfg)
               \<and> \<not> list_ex (rule_matches u (hostname p)) (denylist cfg)
               \<and> list_ex (rule_matches u (hostname p)) (allowlist cfg)))"

lemma loopback_names_private: "h \<in> set loopback_names \<Longrightarrow> is_private_or_loopback h"
proof -
  have "list_all is_private_or_loopback loopback_names" by code_simp
  then show "h \<in> set loopback_names \<Longrightarrow> is_private_or_loopback h" by (simp add: list_all_iff)
qed

lemma check_url_Inr: "check_url cfg u = Inr x \<longleftrightarrow> egress_allowed cfg u"
proof (cases "urlparse u")
  case (Inr p)
  have ne: "list_ex P xs \<Longrightarrow> xs \<noteq> []" for P and xs :: "string list" by auto
  show ?thesis
    using loopback_names_private [of "hostname p"] ne [of _ "allowlist cfg"]
    by (simp add: check_url_def egress_allowed_def Inr Let_def result_simps) blast
qed (simp add: check_url_def egress_allowed_def)

definition network_permitted :: "json \<Rightarrow> string \<Rightarrow> bool" where
  "network_permitted m u =
     (let perms = dict_or_empty (jget m ''permissions'') in
      str_or_empty (jget perms ''network'') = ''allowlist''
      \<and> (case urlparse u of Inl e \<Rightarrow> False
         | Inr p \<Rightarrow> list_ex (rule_matches u (hostname p)) (map py_str (list_or_empty (jget perms ''network_allowlist'')))))"

lemma enforce_manifest_network_Inr: "enforce_manifest_network m u = Inr x \<longleftrightarrow> network_permitted m u"
proof -
  let ?perms = "dict_or_empty (jget m ''permissions'')"
  let ?n = "jget ?perms ''network''"
  have mode: "py_str (py_or ?n (JStr ''deny'')) = (if truthy ?n then str_or_empty ?n else ''deny'')"
    by (simp add: py_or_def str_or_empty_def)
  have empty: "str_or_empty ?n = ''allowlist'' \<Longrightarrow> truthy ?n"
    by (simp add: str_or_empty_def split: if_splits)
  show ?thesis
    using empty
    by (cases "urlparse u")
       (auto simp: enforce_manifest_network_def network_permitted_def Let_def mode result_simps)
qed

text \<open>A host rule without wildcard matches its domain and the names below it, at a label boundary.\<close>

lemma host_matches_plain:
  assumes "\<not> starts_with ''*.'' (str_lower (str_strip r))"
  shows "host_matches r h \<longleftrightarrow>
    (let r' = str_lower (str_strip r); h' = str_lower (str_strip h) in
     r' \<noteq> [] \<and> (h' = r' \<or> (\<exists>sub. h' = sub @ ''.'' @ r')))"
  using assms unfolding host_matches_def Let_def ends_with_iff by (cases "str_strip r = []"; cases "str_strip h = []") (auto dest: sym)

lemma plain_host_no_ws: "plain_host h \<Longrightarrow> c \<in> set h \<Longrightarrow> \<not> is_ws c"
  by (auto simp: plain_host_def list_all_iff is_ws_def is_alnum_az_def is_alpha_az_def is_upper_az_def
      is_lower_az_def is_digit_def)

lemma alnum_lower: "is_alnum_az c \<Longrightarrow> is_alnum_az (lower_char c)"
proof (cases "is_upper_az c")
  case True
  then have "is_lower_az (lower_char c)"
    by (simp add: is_upper_az_def is_lower_az_def lower_char_def of_char_of)
  then show ?thesis by (simp add: is_alnum_az_def is_alpha_az_def)
next
  case False
  assume "is_alnum_az c"
  with False have "code c \<le> 122" by (auto simp: is_alnum_az_def is_alpha_az_def is_lower_az_def is_digit_def)
  with False have "lower_char c = c" by (auto simp: lower_char_def is_upper_az_def)
  with \<open>is_alnum_az c\<close> show ?thesis by simp
qed

lemma plain_host_lower: "plain_host h \<Longrightarrow> plain_host (str_lower h)"
proof -
  have "lower_char (CHR ''.'') = CHR ''.''" "lower_char (CHR ''-'') = CHR ''-''"
    by (simp_all add: lower_char_def is_upper_az_def)
  then show "plain_host h \<Longrightarrow> plain_host (str_lower h)"
    using alnum_lower by (auto simp: plain_host_def list_all_iff str_lower_def)
qed

lemma plain_host_no_star: "plain_host h \<Longrightarrow> \<not> starts_with ''*.'' h"
  using plain_host_not [of h "CHR ''*''"]
  by (auto simp: starts_with_iff is_alnum_az_def is_alpha_az_def is_upper_az_def is_lower_az_def is_digit_def)

text \<open>A host rule never reaches a host that merely starts with it.\<close>

lemma host_rule_stays:
  assumes "plain_host h" and "plain_host e" and "\<not> ends_with (''.'' @ str_lower h) (str_lower (h @ ''.'' @ e))"
  shows "\<not> host_matches h (str_lower (h @ ''.'' @ e))"
proof -
  have strip: "str_strip s = s" if "plain_host s" for s
    by (rule str_strip_ws_free) (rule plain_host_no_ws [OF that])
  have "plain_host (h @ ''.'' @ e)" using assms by (simp add: plain_host_def)
  then have 1: "str_strip (str_lower (h @ ''.'' @ e)) = str_lower (h @ ''.'' @ e)"
    using strip plain_host_lower by blast
  have 2: "str_strip h = h" by (rule strip [OF assms(1)])
  have "str_lower (h @ ''.'' @ e) \<noteq> str_lower h"
    using arg_cong [where f = length, of "str_lower (h @ ''.'' @ e)" "str_lower h"] by auto
  then show ?thesis
    using assms(3) plain_host_no_star [OF plain_host_lower [OF assms(1)]]
    unfolding host_matches_def 1 2 Let_def str_lower_idem by auto
qed

section \<open>Who may send what\<close>

text \<open>\<open>m\<close> sends only requests whose URL satisfies \<open>P\<close>.\<close>

definition sends_only :: "(string \<Rightarrow> bool) \<Rightarrow> 'a io \<Rightarrow> bool" where
  "sends_only P m \<longleftrightarrow> (\<forall>w. \<exists>l. w_sent (snd (m w)) = w_sent w @ l \<and> (\<forall>rq \<in> set l. P (rq_url rq)))"

named_theorems sends_rules

lemma sends_onlyD:
  "sends_only P m \<Longrightarrow> m w = (r, w') \<Longrightarrow> \<exists>l. w_sent w' = w_sent w @ l \<and> (\<forall>rq \<in> set l. P (rq_url rq))"
  unfolding sends_only_def by (metis snd_conv)

lemma sends_only_silent: "(\<And>w. w_sent (snd (m w)) = w_sent w) \<Longrightarrow> sends_only P m"
  by (auto simp: sends_only_def)

lemma sends_only_return [sends_rules]: "sends_only P (io_return a)"
  by (rule sends_only_silent) (simp add: io_defs)

lemma sends_only_raise [sends_rules]: "sends_only P (io_raise e)"
  by (rule sends_only_silent) (simp add: io_defs)

lemma sends_only_lift [sends_rules]: "sends_only P (io_lift r)"
  by (rule sends_only_silent) (simp add: io_defs)

lemma sends_only_get [sends_rules]: "sends_only P (io_get f)"
  by (rule sends_only_silent) (simp add: io_defs)

lemma sends_only_prim [sends_rules]: "sends_only P (prim f)"
  by (rule sends_only_silent) (simp add: prim_def Let_def split: option.splits sum.splits prod.splits)

lemma sends_only_send: "P (rq_url rq) \<Longrightarrow> sends_only P (send tr rq)"
  by (auto simp: sends_only_def send_def)

lemma sends_only_bind [sends_rules]:
  assumes m: "sends_only P m" and f: "\<And>a. sends_only P (f a)"
  shows "sends_only P (io_bind m f)"
  unfolding sends_only_def
proof
  fix w
  obtain r w1 where 1: "m w = (r, w1)" by fastforce
  obtain l where l: "w_sent w1 = w_sent w @ l" "\<forall>rq \<in> set l. P (rq_url rq)"
    using sends_onlyD [OF m 1] by blast
  show "\<exists>l. w_sent (snd (io_bind m f w)) = w_sent w @ l \<and> (\<forall>rq \<in> set l. P (rq_url rq))"
  proof (cases r)
    case (Inl e)
    with 1 l show ?thesis by (auto simp: io_bind_def)
  next
    case (Inr a)
    obtain r2 w2 where 2: "f a w1 = (r2, w2)" by fastforce
    obtain l2 where "w_sent w2 = w_sent w1 @ l2" "\<forall>rq \<in> set l2. P (rq_url rq)"
      using sends_onlyD [OF f 2] by blast
    with 1 2 Inr l show ?thesis by (intro exI [of _ "l @ l2"]) (auto simp: io_bind_def)
  qed
qed

lemma sends_only_try [sends_rules]:
  assumes m: "sends_only P m" and h: "\<And>e. sends_only P (h e)"
  shows "sends_only P (io_try m h)"
  unfolding sends_only_def
proof
  fix w
  obtain r w1 where 1: "m w = (r, w1)" by fastforce
  obtain l where l: "w_sent w1 = w_sent w @ l" "\<forall>rq \<in> set l. P (rq_url rq)"
    using sends_onlyD [OF m 1] by blast
  show "\<exists>l. w_sent (snd (io_try m h w)) = w_sent w @ l \<and> (\<forall>rq \<in> set l. P (rq_url rq))"
  proof (cases r)
    case (Inl e)
    obtain r2 w2 where 2: "h e w1 = (r2, w2)" by fastforce
    obtain l2 where "w_sent w2 = w_sent w1 @ l2" "\<forall>rq \<in> set l2. P (rq_url rq)"
      using sends_onlyD [OF h 2] by blast
    with 1 2 Inl l show ?thesis by (intro exI [of _ "l @ l2"]) (auto simp: io_try_def)
  next
    case (Inr a)
    with 1 l show ?thesis by (auto simp: io_try_def)
  qed
qed

lemma sends_only_finally [sends_rules]:
  assumes m: "sends_only P m" and c: "sends_only P c"
  shows "sends_only P (io_finally m c)"
  unfolding sends_only_def
proof
  fix w
  obtain r w1 where 1: "m w = (r, w1)" by fastforce
  obtain r2 w2 where 2: "c w1 = (r2, w2)" by fastforce
  obtain l where l: "w_sent w1 = w_sent w @ l" "\<forall>rq \<in> set l. P (rq_url rq)"
    using sends_onlyD [OF m 1] by blast
  obtain l2 where "w_sent w2 = w_sent w1 @ l2" "\<forall>rq \<in> set l2. P (rq_url rq)"
    using sends_onlyD [OF c 2] by blast
  with 1 2 l show "\<exists>l. w_sent (snd (io_finally m c w)) = w_sent w @ l \<and> (\<forall>rq \<in> set l. P (rq_url rq))"
    by (intro exI [of _ "l @ l2"]) (auto simp: io_finally_def split: sum.splits)
qed

lemma sends_only_foreach [sends_rules]:
  "(\<And>x. sends_only P (f x)) \<Longrightarrow> sends_only P (io_foreach f xs)"
  by (induction xs) (auto intro!: sends_rules)

lemma sends_only_ignore [sends_rules]: "sends_only P m \<Longrightarrow> sends_only P (io_ignore m)"
  unfolding io_ignore_def by (intro sends_rules)

lemma sends_only_if [sends_rules]:
  "sends_only P m \<Longrightarrow> sends_only P m' \<Longrightarrow> sends_only P (if b then m else m')"
  by simp

lemma sends_only_mono: "sends_only P m \<Longrightarrow> (\<And>u. P u \<Longrightarrow> Q u) \<Longrightarrow> sends_only Q m"
  unfolding sends_only_def by fast

lemma egress_request_sends: "sends_only (egress_allowed cfg) (egress_request cfg tr rq)"
proof (cases "check_url cfg (rq_url rq)")
  case (Inl e)
  then show ?thesis by (simp add: egress_request_def sends_rules)
next
  case (Inr u)
  then have "egress_allowed cfg (rq_url rq)" by (simp add: check_url_Inr)
  with Inr show ?thesis by (simp add: egress_request_def sends_only_send)
qed

text \<open>
  The interface of a guarded client: every request it lets out satisfies the guard. The
  registries, the MCP implementation and the OAuth exchange are its clients.
\<close>

locale guarded_client =
  fixes request :: "http_request \<Rightarrow> http_response io" and guard :: "string \<Rightarrow> bool"
  assumes request_sends: "sends_only guard (request rq)"
begin

lemma request_then:
  assumes "\<And>rs. sends_only guard (k rs)"
  shows "sends_only guard (io_bind (request rq) k)"
  by (intro sends_rules request_sends assms)

end

interpretation egress: guarded_client "egress_request cfg tr" "egress_allowed cfg" for cfg tr
  by unfold_locales (rule egress_request_sends)

section \<open>Properties\<close>

text \<open>
  C31: the egress check accepts a URL exactly when it parses, its scheme is http or
  https, it has a host, and the host is one of the three loopback names or else is not
  private (unless private networks are allowed), is matched by no deny rule and is matched
  by an allow rule.
\<close>

theorem egress_check_exact: "check_url cfg u = Inr () \<longleftrightarrow> egress_allowed cfg u"
  by (rule check_url_Inr)

text \<open>
  C14: the guarded client sends at most the one request it was given, and sends it only
  when the egress check accepts its URL; in every other case it raises and nothing leaves
  the process.
\<close>

theorem egress_request_guarded:
  "w_sent (snd (egress_request cfg tr rq w)) =
     (if egress_allowed cfg (rq_url rq) then w_sent w @ [rq] else w_sent w)
   \<and> (if egress_allowed cfg (rq_url rq) then fst (egress_request cfg tr rq w) = tr rq
      else \<exists>e. fst (egress_request cfg tr rq w) = Inl e)"
proof (cases "check_url cfg (rq_url rq)")
  case (Inl e)
  then have "\<not> egress_allowed cfg (rq_url rq)" using check_url_Inr [of cfg "rq_url rq" "()"] by simp
  with Inl show ?thesis by (simp add: egress_request_def io_defs)
next
  case (Inr u)
  then have "egress_allowed cfg (rq_url rq)" by (simp add: check_url_Inr)
  with Inr show ?thesis by (simp add: egress_request_def send_def)
qed

text \<open>
  The network permission of a manifest admits a URL exactly when its network mode is
  allowlist and one of its rules matches; the default mode is deny.
\<close>

theorem manifest_network_exact:
  "enforce_manifest_network m u = Inr () \<longleftrightarrow> network_permitted m u"
  by (rule enforce_manifest_network_Inr)

text \<open>
  A rule that is a URL without a path does not end at the host: the allow rule
  https://h admits every URL over the host h.e, for any e, although that host belongs to
  somebody else, while the rule h, given as a host name, admits none of them.
\<close>

theorem url_rule_does_not_end_at_host:
  assumes "plain_host h" and "plain_host e" and "list_all (\<lambda>c. 33 \<le> code c) p"
    and "\<not> is_private_or_loopback (str_lower (h @ ''.'' @ e))"
    and "\<not> ends_with (''.'' @ str_lower h) (str_lower (h @ ''.'' @ e))"
  shows "check_url \<lparr>allowlist = [''https://'' @ h], denylist = [], allow_private_networks = False\<rparr>
      (''https://'' @ (h @ ''.'' @ e) @ CHR ''/'' # p) = Inr ()
    \<and> check_url \<lparr>allowlist = [h], denylist = [], allow_private_networks = False\<rparr>
      (''https://'' @ (h @ ''.'' @ e) @ CHR ''/'' # p) \<noteq> Inr ()"
proof -
  let ?host = "h @ ''.'' @ e" and ?u = "''https://'' @ (h @ ''.'' @ e) @ CHR ''/'' # p"
  have ph: "plain_host ?host" using assms(1,2) by (simp add: plain_host_def)
  note url = urlparse_https [OF ph assms(3)]
  note host = hostname_plain [OF ph, of "''https''"]
  have pre: "rule_matches ?u (str_lower ?host) (''https://'' @ h)"
  proof -
    have "str_strip (''https://'' @ h) = ''https://'' @ h"
      by (rule str_strip_ws_free) (use plain_host_no_ws [OF assms(1)] in \<open>auto simp: is_ws_def\<close>)
    moreover have "starts_with (str_lower (''https://'' @ h)) (str_lower ?u)"
      by (rule starts_with_str_lower) (simp add: starts_with_iff)
    ultimately show ?thesis
      unfolding rule_matches_def url_prefix_matches_def using str_contains_scheme_append by simp
  qed
  have "\<not> str_contains ''://'' h"
    using plain_host_special [OF assms(1)] by (auto simp: str_contains_iff)
  moreover have "\<not> host_matches h (str_lower ?host)"
    using host_rule_stays [OF assms(1,2)] assms(5) by simp
  ultimately have host_no: "\<not> rule_matches ?u (str_lower ?host) h"
    by (simp add: rule_matches_def)
  have nl: "str_lower ?host \<notin> set loopback_names"
    using assms(4) loopback_names_private by blast
  show ?thesis
    using url host pre host_no nl assms(4)
    by (simp add: check_url_Inr [of _ _ "()"] egress_allowed_def del: append.simps(2))
qed

lemma url_rule_does_not_end_at_host_witness:
  "check_url \<lparr>allowlist = [''https://'' @ ''catalog.example''], denylist = [], allow_private_networks = False\<rparr>
      (''https://'' @ (''catalog.example'' @ ''.'' @ ''evil.test'') @ CHR ''/'' # ''x'') = Inr ()
    \<and> check_url \<lparr>allowlist = [''catalog.example''], denylist = [], allow_private_networks = False\<rparr>
      (''https://'' @ (''catalog.example'' @ ''.'' @ ''evil.test'') @ CHR ''/'' # ''x'') \<noteq> Inr ()"
  by (rule url_rule_does_not_end_at_host; code_simp)

end
