(* ===== verification/Json_Order.thy ===== *)
theory Json_Order
  imports Schema
begin

text \<open>
  What a document keeps when its keys are sorted: files are written with sorted keys, so
  what is read back is \<open>sort_json\<close> of what was written. Lookup, truth value and text
  fields are the same, and so is conformance to the manifest schema.
\<close>

section \<open>Sorting the keys\<close>

lemma map_insort_key:
  assumes "\<And>x. k (f x) = k x"
  shows "map f (insort_key k x xs) = insort_key k (f x) (map f xs)"
  by (induction xs) (auto simp: assms)

lemma map_sort_key:
  assumes "\<And>x. k (f x) = k x"
  shows "map f (sort_key k xs) = sort_key k (map f xs)"
  by (induction xs) (auto simp: map_insort_key [of k f, OF assms])

lemma distinct_keys_sort [simp]: "distinct (map fst (sort_key fst kvs)) \<longleftrightarrow> distinct (map fst kvs)"
  by (metis distinct_map distinct_sort set_sort)

lemma map_of_sort: "distinct (map fst kvs) \<Longrightarrow> map_of (sort_key fst kvs) = map_of kvs"
  by (simp add: map_of_inject_set)

lemma map_fst_map_prod [simp]: "map fst (map (map_prod id f) kvs) = map fst kvs"
  by (induction kvs) auto

lemma map_of_map_prod: "map_of (map (map_prod id f) kvs) k = map_option f (map_of kvs k)"
  by (induction kvs) auto

lemma dget_sorted:
  "distinct (map fst kvs) \<Longrightarrow>
     map_of (sort_key fst (map (map_prod id f) kvs)) k = map_option f (map_of kvs k)"
  by (subst map_of_sort) (simp_all add: map_of_map_prod del: map_map)

lemma json_ok_JObj: "json_ok (JObj kvs) \<longleftrightarrow> distinct (map fst kvs) \<and> (\<forall>p \<in> set kvs. json_ok (snd p))"
  by (simp add: list_all_iff)

lemma json_ok_JArr: "json_ok (JArr xs) \<longleftrightarrow> (\<forall>x \<in> set xs. json_ok x)"
  by (simp add: list_all_iff)

lemma json_ok_entry: "json_ok m \<Longrightarrow> dget (entries m) k = Some v \<Longrightarrow> json_ok v"
  by (cases m) (auto simp: list_all_iff dest!: dget_mem)

lemma json_ok_jget: "json_ok m \<Longrightarrow> json_ok (jget m k)"
  using json_ok_entry [of m k] by (auto simp: jget_def get_or_def split: option.splits)

lemma json_ok_dict_ok: "json_ok m \<Longrightarrow> dict_ok (entries m)"
  by (cases m) (simp_all add: dict_ok_def)

lemma json_ok_jset:
  assumes "json_ok m" "json_ok v"
  shows "json_ok (jset k v m)"
proof -
  have "\<forall>p \<in> set (entries m). json_ok (snd p)"
    using assms(1) by (cases m) (auto simp: list_all_iff)
  then have "\<forall>p \<in> set (dset k v (entries m)). json_ok (snd p)"
    using assms(2) set_dset_subset [of k v "entries m"] by auto
  moreover have "distinct (map fst (dset k v (entries m)))"
    using dict_ok_dset [OF json_ok_dict_ok [OF assms(1)], of k v] by (simp add: dict_ok_def)
  ultimately show ?thesis by (simp add: jset_def list_all_iff)
qed

lemma entries_sort_json: "entries (sort_json m) = sort_key fst (map (map_prod id sort_json) (entries m))"
  by (cases m) auto

lemma json_ok_sort_json: "json_ok m \<Longrightarrow> json_ok (sort_json m)"
proof (induction m)
  case (JArr xs)
  then show ?case by (auto simp: list_all_iff)
next
  case (JObj kvs)
  then have "json_ok (sort_json (snd p))" if "p \<in> set kvs" for p
    using that by (cases p) (auto simp: list_all_iff)
  with JObj.prems show ?case
    by (auto simp: list_all_iff simp del: map_map)
qed auto

lemma sort_json_idem: "sort_json (sort_json m) = sort_json m"
proof (induction m)
  case (JObj kvs)
  have "map (map_prod id sort_json) (sort_key fst (map (map_prod id sort_json) kvs))
      = sort_key fst (map (map_prod id sort_json) (map (map_prod id sort_json) kvs))"
    by (rule map_sort_key) simp
  also have "map (map_prod id sort_json) (map (map_prod id sort_json) kvs) = map (map_prod id sort_json) kvs"
    using JObj.IH by auto
  finally have same: "map (map_prod id sort_json) (sort_key fst (map (map_prod id sort_json) kvs))
      = sort_key fst (map (map_prod id sort_json) kvs)" .
  show ?case
    by (simp only: sort_json.simps same) (simp add: sort_key_id_if_sorted)
qed auto

section \<open>What sorting keeps\<close>

lemma is_dict_sort_json [simp]: "is_dict (sort_json m) = is_dict m"
  by (cases m) auto

lemma is_list_sort_json [simp]: "is_list (sort_json m) = is_list m"
  by (cases m) auto

lemma sort_json_JStr_iff [simp]: "sort_json m = JStr s \<longleftrightarrow> m = JStr s" "sort_json m = JNull \<longleftrightarrow> m = JNull"
  "sort_json m = JBool b \<longleftrightarrow> m = JBool b"
  by (cases m; auto)+

lemma truthy_sort_json [simp]: "truthy (sort_json m) = truthy m"
  by (cases m) (auto dest: arg_cong [where f = length])

lemma dget_sort_json:
  "json_ok m \<Longrightarrow> dget (entries (sort_json m)) k = map_option sort_json (dget (entries m) k)"
  unfolding entries_sort_json by (rule dget_sorted) (simp add: json_ok_dict_ok [unfolded dict_ok_def])

lemma jget_sort_json: "json_ok m \<Longrightarrow> jget (sort_json m) k = sort_json (jget m k)"
  by (auto simp: jget_def get_or_def dget_sort_json split: option.splits)

lemma has_key_sort_json: "json_ok m \<Longrightarrow> has_key (sort_json m) k = has_key m k"
  by (simp add: has_key_def dget_sort_json)

text \<open>A predicate is stable when it does not see the order of keys.\<close>

definition stable :: "(json \<Rightarrow> bool) \<Rightarrow> bool" where
  "stable P \<longleftrightarrow> (\<forall>m. json_ok m \<longrightarrow> P (sort_json m) = P m)"

named_theorems stable_rules

lemma stableD: "stable P \<Longrightarrow> json_ok m \<Longrightarrow> P (sort_json m) = P m"
  by (simp add: stable_def)

lemma stable_opt_key [stable_rules]: "stable P \<Longrightarrow> stable (opt_key k P)"
  unfolding stable_def opt_key_def
  by (auto simp: dget_sort_json json_ok_entry split: option.splits)

lemma stable_conj: "stable P \<Longrightarrow> stable Q \<Longrightarrow> stable (\<lambda>m. P m \<and> Q m)"
  by (simp add: stable_def)

lemma stable_closed_obj [stable_rules]: "stable (closed_obj req allowed)"
  unfolding stable_def closed_obj_def req_keys_def only_keys_def
  by (auto simp: has_key_sort_json entries_sort_json list_all_iff)

lemma stable_items_all [stable_rules]:
  assumes "stable P"
  shows "stable (\<lambda>m. is_list m \<and> list_all P (items m))"
  unfolding stable_def
proof (intro allI impI)
  fix m
  assume "json_ok m"
  then show "(is_list (sort_json m) \<and> list_all P (items (sort_json m))) = (is_list m \<and> list_all P (items m))"
    using assms by (cases m) (auto simp: list_all_iff stable_def)
qed

lemma stable_base [stable_rules]:
  "stable is_str" "stable is_dict" "stable is_bool" "stable nonneg_number" "stable nonempty_str"
  "stable (str_enum ss)" "stable (str_matches p)"
  unfolding stable_def nonempty_str_def str_enum_def str_matches_def
  by (intro allI; case_tac m; auto)+

lemma stable_str_array [stable_rules]: "stable str_array"
  using stable_items_all [OF stable_base(1)] by (simp add: stable_def str_array_def)

lemma stable_argv [stable_rules]: "stable (\<lambda>a. str_array a \<and> items a \<noteq> [])"
proof -
  have "items (sort_json m) = [] \<longleftrightarrow> items m = []" for m by (cases m) auto
  then show ?thesis using stable_str_array by (simp add: stable_def)
qed

lemma stable_parts [stable_rules]:
  "stable origin_conforms" "stable interfaces_conforms" "stable permissions_conforms"
  "stable resources_conforms" "stable execution_conforms" "stable secret_conforms"
  "stable command_conforms" "stable python_conforms" "stable mcp_conforms" "stable a2a_conforms"
  unfolding origin_conforms_def [abs_def] interfaces_conforms_def [abs_def] permissions_conforms_def [abs_def]
    resources_conforms_def [abs_def] execution_conforms_def [abs_def] secret_conforms_def [abs_def]
    command_conforms_def [abs_def] python_conforms_def [abs_def] mcp_conforms_def [abs_def] a2a_conforms_def [abs_def]
  by (intro stable_conj stable_rules)+

lemma stable_wholes [stable_rules]:
  "stable runtime_conforms" "stable secrets_conforms" "stable implementation_conforms"
  unfolding runtime_conforms_def [abs_def] secrets_conforms_def [abs_def] implementation_conforms_def [abs_def]
  by (intro stable_conj stable_rules)+

lemma schema_conforms_sort_json: "json_ok m \<Longrightarrow> schema_conforms (sort_json m) = schema_conforms m"
proof -
  have "stable schema_conforms"
    unfolding schema_conforms_def [abs_def] by (intro stable_conj stable_rules)
  then show "json_ok m \<Longrightarrow> schema_conforms (sort_json m) = schema_conforms m"
    by (simp add: stable_def)
qed

end
