(* ===== verification/Atomic.thy ===== *)
theory Atomic
  imports World
begin

text \<open>
  src/atomic.py: writing a file by way of a temporary file and a rename. The main lemma is
  a triple: whatever fails, and wherever the process is killed, the target holds its old
  content or all of the new one.
\<close>

section \<open>The file system under single updates\<close>

lemma fs_get_put [simp]: "fs_get (fs_put p n s) q = (if q = p then Some n else fs_get s q)"
  by (simp add: fs_get_def fs_put_def update_conv')

lemma fs_get_del [simp]: "fs_get (fs_del p s) q = (if q = p then None else fs_get s q)"
  by (simp add: fs_get_def fs_del_def delete_conv')

text \<open>\<open>keeps X s s'\<close>: entries of \<open>s\<close> outside \<open>X\<close> are in \<open>s'\<close> too, and new ones are directories.\<close>

definition keeps :: "path set \<Rightarrow> fs \<Rightarrow> fs \<Rightarrow> bool" where
  "keeps X s s' \<longleftrightarrow> (\<forall>q. q \<notin> X \<longrightarrow>
     fs_get s' q = fs_get s q \<or> fs_get s q = None \<and> fs_get s' q = Some DirN)"

lemma keepsD: "keeps X s s' \<Longrightarrow> q \<notin> X \<Longrightarrow>
    fs_get s' q = fs_get s q \<or> fs_get s q = None \<and> fs_get s' q = Some DirN"
  by (simp add: keeps_def)

lemma keeps_refl [simp]: "keeps X s s"
  by (simp add: keeps_def)

lemma keeps_trans: "keeps X s t \<Longrightarrow> keeps X t u \<Longrightarrow> keeps X s u"
  unfolding keeps_def by metis

lemma keeps_put: "keeps X s t \<Longrightarrow> p \<in> X \<Longrightarrow> keeps X s (fs_put p n t)"
  by (auto simp: keeps_def)

lemma keeps_del: "keeps X s t \<Longrightarrow> p \<in> X \<Longrightarrow> keeps X s (fs_del p t)"
  by (auto simp: keeps_def)

lemma keeps_get: "keeps X s t \<Longrightarrow> q \<notin> X \<Longrightarrow> fs_get s q = Some n \<Longrightarrow> fs_get t q = Some n"
  using keepsD by fastforce

lemma keeps_file: "keeps X s t \<Longrightarrow> q \<notin> X \<Longrightarrow> fs_get t q = Some (FileN d) \<Longrightarrow> fs_get s q = Some (FileN d)"
  using keepsD by fastforce

lemma keeps_mono: "keeps X s t \<Longrightarrow> X \<subseteq> Y \<Longrightarrow> keeps Y s t"
  by (auto simp: keeps_def)

text \<open>\<open>same_off X s s'\<close>: outside \<open>X\<close> nothing changes at all.\<close>

definition same_off :: "path set \<Rightarrow> fs \<Rightarrow> fs \<Rightarrow> bool" where
  "same_off X s s' \<longleftrightarrow> (\<forall>q. q \<notin> X \<longrightarrow> fs_get s' q = fs_get s q)"

lemma same_offD: "same_off X s s' \<Longrightarrow> q \<notin> X \<Longrightarrow> fs_get s' q = fs_get s q"
  by (simp add: same_off_def)

lemma same_off_refl [simp]: "same_off X s s"
  by (simp add: same_off_def)

lemma same_off_put: "same_off X s t \<Longrightarrow> p \<in> X \<Longrightarrow> same_off X s (fs_put p n t)"
  by (auto simp: same_off_def)

lemma same_off_del: "same_off X s t \<Longrightarrow> p \<in> X \<Longrightarrow> same_off X s (fs_del p t)"
  by (auto simp: same_off_def)

lemma mk_dirs_keeps:
  "mk_dirs ps s = Inr s' \<Longrightarrow> keeps {} s s' \<and> (\<forall>q. q \<notin> set ps \<longrightarrow> fs_get s' q = fs_get s q)
     \<and> (\<forall>p \<in> set ps. fs_get s' p = Some DirN)"
proof (induction ps s rule: mk_dirs.induct)
  case (1 s)
  then show ?case by simp
next
  case (2 p ps s)
  show ?case
  proof (cases "fs_get s p")
    case None
    let ?t = "fs_put p DirN s"
    from 2 None have IH: "keeps {} ?t s'" "\<forall>q. q \<notin> set ps \<longrightarrow> fs_get s' q = fs_get ?t q"
      "\<forall>q \<in> set ps. fs_get s' q = Some DirN" by auto
    from None have "keeps {} s ?t" by (auto simp: keeps_def)
    with IH have "keeps {} s s'" by (blast intro: keeps_trans)
    moreover have "fs_get s' p = Some DirN"
      using IH(1) by (auto simp: keeps_def dest: spec [of _ p])
    ultimately show ?thesis using IH None by auto
  next
    case (Some n)
    with 2 have n: "n = DirN" by (auto split: node.splits)
    with 2 Some have IH: "keeps {} s s'" "\<forall>q. q \<notin> set ps \<longrightarrow> fs_get s' q = fs_get s q"
      "\<forall>q \<in> set ps. fs_get s' q = Some DirN" by auto
    moreover have "fs_get s' p = Some DirN"
      using IH(1) Some n by (auto simp: keeps_def dest: spec [of _ p])
    ultimately show ?thesis by auto
  qed
qed

lemma prefixes_of_shorter: "q \<in> set (prefixes_of p) \<Longrightarrow> length q \<le> length p"
  by (auto simp: prefixes_of_def)

lemma not_in_prefixes_parent:
  assumes "p \<noteq> []"
  shows "p \<notin> set (prefixes_of (parent p))"
proof
  assume "p \<in> set (prefixes_of (parent p))"
  then have "length p \<le> length (parent p)" by (rule prefixes_of_shorter)
  with assms show False by (cases p rule: rev_cases) (simp_all add: parent_def)
qed

lemma self_in_prefixes: "p \<noteq> [] \<Longrightarrow> p \<in> set (prefixes_of p)"
  by (auto simp: prefixes_of_def image_iff Suc_le_eq intro!: bexI [of _ "length p"])

section \<open>atomic.py\<close>

text \<open>The name \<open>tempfile.mkstemp(prefix=path.name + ".", dir=path.parent)\<close> picks.\<close>

definition tmp_for :: "path \<Rightarrow> string \<Rightarrow> path" where
  "tmp_for p token = parent p @ [last p @ ''.'' @ token]"

definition atomic_write_text :: "string \<Rightarrow> path \<Rightarrow> fdata \<Rightarrow> unit io" where
  "atomic_write_text token p d =
     (let tmp = tmp_for p token in
      io_bind (mkdir_p (parent p)) (\<lambda>_.
      io_bind (create_file tmp) (\<lambda>_.
      io_finally
        (io_bind fsync (\<lambda>_. \<comment> \<open>fchmod\<close>
         io_bind (write_file tmp d) (\<lambda>_.
         io_bind fsync (\<lambda>_.
         io_bind (replace_file tmp p) (\<lambda>_.
         io_bind fsync (\<lambda>_. \<comment> \<open>open the directory\<close>
         fsync))))))
        (unlink_missing_ok tmp))))"

definition atomic_write_json :: "string \<Rightarrow> path \<Rightarrow> json \<Rightarrow> unit io" where
  "atomic_write_json token p payload = atomic_write_text token p (Doc (sort_json payload))"

section \<open>Crash safety\<close>

lemma tmp_for_neq: "p \<noteq> [] \<Longrightarrow> tmp_for p token \<noteq> p"
proof
  assume p: "p \<noteq> []" and "tmp_for p token = p"
  then have "last (tmp_for p token) = last p" by simp
  then show False by (simp add: tmp_for_def)
qed

lemma parent_tmp_for: "parent (tmp_for p token) = parent p"
  by (simp add: tmp_for_def parent_def)

text \<open>A target that is missing, or a file, holds its old or its new content.\<close>

definition old_or_new :: "path \<Rightarrow> node option \<Rightarrow> fdata \<Rightarrow> fs \<Rightarrow> bool" where
  "old_or_new p old d s \<longleftrightarrow> fs_get s p = old \<or> fs_get s p = Some (FileN d)"

text \<open>What holds of the file system \<open>s\<close> reached from \<open>s0\<close> at each stage of the write.\<close>

definition aw_frame :: "path \<Rightarrow> path \<Rightarrow> fs \<Rightarrow> fs \<Rightarrow> bool" where
  "aw_frame p tmp s0 s \<longleftrightarrow> keeps {p, tmp} s0 s \<and> same_off ({p, tmp} \<union> set (prefixes_of (parent p))) s0 s"

lemma triple_mkdir_p:
  assumes "p \<noteq> []"
  shows "triple (old_or_new p (fs_get s0 p) d) (\<lambda>w. w_fs w = s0) (mkdir_p (parent p))
     (\<lambda>_ w. aw_frame p tmp s0 (w_fs w) \<and> fs_get (w_fs w) p = fs_get s0 p)
     (\<lambda>_ w. aw_frame p tmp s0 (w_fs w) \<and> fs_get (w_fs w) p = fs_get s0 p)"
  unfolding mkdir_p_def
proof (rule triple_prim [where P = "\<lambda>s. s = s0"
      and Q = "\<lambda>_ s. aw_frame p tmp s0 s \<and> fs_get s p = fs_get s0 p"
      and E = "\<lambda>_ s. aw_frame p tmp s0 s \<and> fs_get s p = fs_get s0 p"], goal_cases)
  case (1 s a s')
  then have mk: "mk_dirs (prefixes_of (parent p)) s0 = Inr s'"
    by (cases "mk_dirs (prefixes_of (parent p)) s0") auto
  from mk_dirs_keeps [OF mk] not_in_prefixes_parent [OF assms]
  have "keeps {} s0 s'" "fs_get s' p = fs_get s0 p" "same_off (set (prefixes_of (parent p))) s0 s'"
    by (auto simp: same_off_def)
  then show ?case by (auto simp: old_or_new_def aw_frame_def same_off_def intro: keeps_mono)
next
  case (2 s e)
  then show ?case by (simp add: aw_frame_def)
qed

text \<open>The stages: the old content, the finished temporary file, the new content.\<close>

definition aw_stage :: "path \<Rightarrow> path \<Rightarrow> fdata \<Rightarrow> fs \<Rightarrow> nat \<Rightarrow> fs \<Rightarrow> bool" where
  "aw_stage p tmp d s0 n s \<longleftrightarrow> aw_frame p tmp s0 s \<and>
     (if n = 0 then fs_get s p = fs_get s0 p
      else if n = 1 then fs_get s p = fs_get s0 p \<and> fs_get s tmp = Some (FileN d)
      else if n = 2 then fs_get s p = Some (FileN d)
      else old_or_new p (fs_get s0 p) d s)"

lemma aw_stage_old_or_new: "aw_stage p tmp d s0 n s \<Longrightarrow> old_or_new p (fs_get s0 p) d s"
  by (auto simp: aw_stage_def old_or_new_def split: if_splits)

lemma aw_stage_any: "aw_stage p tmp d s0 n s \<Longrightarrow> aw_stage p tmp d s0 3 s"
  using aw_stage_old_or_new [of p tmp d s0 n s] by (simp add: aw_stage_def split: if_splits)

text \<open>Every primitive moves from one stage to another, or fails and stays.\<close>

lemma triple_aw_prim:
  assumes "\<And>s a s'. aw_stage p tmp d s0 n s \<Longrightarrow> f s = Inr (a, s') \<Longrightarrow> aw_stage p tmp d s0 m s'"
  shows "triple (old_or_new p (fs_get s0 p) d) (\<lambda>w. aw_stage p tmp d s0 n (w_fs w)) (prim f)
     (\<lambda>_ w. aw_stage p tmp d s0 m (w_fs w)) (\<lambda>_ w. aw_stage p tmp d s0 3 (w_fs w))"
  by (rule triple_prim [where P = "aw_stage p tmp d s0 n"])
     (use assms aw_stage_old_or_new in \<open>blast intro: aw_stage_any\<close>)+

lemma triple_aw_fsync:
  "triple (old_or_new p (fs_get s0 p) d) (\<lambda>w. aw_stage p tmp d s0 n (w_fs w)) fsync
     (\<lambda>_ w. aw_stage p tmp d s0 n (w_fs w)) (\<lambda>_ w. aw_stage p tmp d s0 3 (w_fs w))"
  unfolding fsync_def by (rule triple_aw_prim) auto

lemma triple_aw_unlink:
  assumes "p \<noteq> tmp"
  shows "triple (old_or_new p (fs_get s0 p) d) (\<lambda>w. aw_stage p tmp d s0 n (w_fs w) \<and> n \<in> {2, 3})
     (unlink_missing_ok tmp)
     (\<lambda>_ w. aw_stage p tmp d s0 n (w_fs w)) (\<lambda>_ w. aw_stage p tmp d s0 3 (w_fs w))"
proof (cases "n \<in> {2, 3}")
  case True
  have prim: "triple (old_or_new p (fs_get s0 p) d) (\<lambda>w. aw_stage p tmp d s0 n (w_fs w)) (unlink tmp)
     (\<lambda>_ w. aw_stage p tmp d s0 n (w_fs w)) (\<lambda>_ w. aw_stage p tmp d s0 n (w_fs w))"
    unfolding unlink_def
    by (rule triple_prim [where P = "aw_stage p tmp d s0 n" and Q = "\<lambda>_. aw_stage p tmp d s0 n"
          and E = "\<lambda>_. aw_stage p tmp d s0 n"])
       (use assms True in \<open>auto simp: aw_stage_def aw_frame_def old_or_new_def keeps_del same_off_del
          split: option.splits node.splits\<close>)
  show ?thesis
    unfolding unlink_missing_ok_def
    by (rule triple_try [OF triple_weaken [OF prim, where Q' = "\<lambda>_ w. aw_stage p tmp d s0 n (w_fs w)"
            and E' = "\<lambda>_ w. aw_stage p tmp d s0 n (w_fs w)"]])
       (auto intro!: triple_return triple_raise elim: aw_stage_any split: exc.splits pykind.splits)
qed (auto simp: triple_def)

lemma atomic_write_text_triple:
  assumes p: "p \<noteq> []"
  shows "triple (old_or_new p (fs_get s0 p) d) (\<lambda>w. w_fs w = s0) (atomic_write_text token p d)
     (\<lambda>_ w. aw_stage p (tmp_for p token) d s0 2 (w_fs w))
     (\<lambda>_ w. aw_stage p (tmp_for p token) d s0 3 (w_fs w))"
proof -
  let ?tmp = "tmp_for p token"
  let ?I = "old_or_new p (fs_get s0 p) d"
  let ?St = "\<lambda>n w. aw_stage p ?tmp d s0 n (w_fs w)"
  note neq = tmp_for_neq [OF p, of token]
  have mk: "triple ?I (\<lambda>w. w_fs w = s0) (mkdir_p (parent p)) (\<lambda>_. ?St 0) (\<lambda>_. ?St 3)"
    by (rule triple_weaken [OF triple_mkdir_p [OF p, where tmp = ?tmp]])
       (auto simp: aw_stage_def old_or_new_def)
  have cr: "triple ?I (?St 0) (create_file ?tmp) (\<lambda>_. ?St 0) (\<lambda>_. ?St 3)"
    unfolding create_file_def
    by (rule triple_aw_prim) (use neq in \<open>auto simp: aw_stage_def aw_frame_def keeps_put same_off_put split: if_splits\<close>)
  have wr: "triple ?I (?St 0) (write_file ?tmp d) (\<lambda>_. ?St 1) (\<lambda>_. ?St 3)"
    unfolding write_file_def
    by (rule triple_aw_prim) (use neq in \<open>auto simp: aw_stage_def aw_frame_def keeps_put same_off_put split: if_splits\<close>)
  have rp: "triple ?I (?St 1) (replace_file ?tmp p) (\<lambda>_. ?St 2) (\<lambda>_. ?St 3)"
    unfolding replace_file_def
    by (rule triple_aw_prim)
       (use neq in \<open>auto simp: aw_stage_def aw_frame_def keeps_put keeps_del same_off_put same_off_del split: option.splits node.splits if_splits\<close>)
  have body: "triple ?I (?St 0)
      (io_bind fsync (\<lambda>_. io_bind (write_file ?tmp d) (\<lambda>_. io_bind fsync (\<lambda>_.
       io_bind (replace_file ?tmp p) (\<lambda>_. io_bind fsync (\<lambda>_. fsync)))))) (\<lambda>_. ?St 2) (\<lambda>_. ?St 3)"
    by (rule triple_bind [OF triple_aw_fsync] triple_bind [OF wr] triple_bind [OF rp] triple_aw_fsync)+
  have un: "triple ?I (?St n) (unlink_missing_ok ?tmp) (\<lambda>_. ?St n) (\<lambda>_. ?St 3)" if "n \<in> {2, 3}" for n
    by (rule triple_weaken [OF triple_aw_unlink [OF neq [symmetric]]]) (use that in auto)
  have fin: "triple ?I (?St 0)
      (io_finally (io_bind fsync (\<lambda>_. io_bind (write_file ?tmp d) (\<lambda>_. io_bind fsync (\<lambda>_.
       io_bind (replace_file ?tmp p) (\<lambda>_. io_bind fsync (\<lambda>_. fsync))))))
        (unlink_missing_ok ?tmp)) (\<lambda>_. ?St 2) (\<lambda>_. ?St 3)"
    by (rule triple_finally [OF body]) (rule un, simp)+
  show ?thesis
    unfolding atomic_write_text_def Let_def
    by (rule triple_bind [OF mk triple_bind [OF cr fin]])
qed

text \<open>The same for the run of one write.\<close>

lemma atomic_write_text_run:
  assumes "p \<noteq> []" and "atomic_write_text token p d w = (r, w')"
  shows "steps_ok (old_or_new p (fs_get (w_fs w) p) d) w w'"
    and "r = Inr u \<Longrightarrow> fs_get (w_fs w') p = Some (FileN d)"
    and "old_or_new p (fs_get (w_fs w) p) d (w_fs w')"
    and "keeps {p, tmp_for p token} (w_fs w) (w_fs w')"
    and "same_off ({p, tmp_for p token} \<union> set (prefixes_of (parent p))) (w_fs w) (w_fs w')"
  using tripleD [OF atomic_write_text_triple [OF assms(1), of "w_fs w" d token] refl assms(2)]
  by (auto simp: aw_stage_def aw_frame_def old_or_new_def split: sum.splits)

section \<open>Properties\<close>

text \<open>
  C16: writing a file is atomic under every schedule of file errors and a crash at any
  point: every intermediate file system has the old node or the complete new content at the
  target, and the new content is there whenever the call returns.
\<close>

theorem atomic_write_crash_safe:
  "case atomic_write_text token (dir @ [name]) d w of (r, w') \<Rightarrow>
     steps_ok (old_or_new (dir @ [name]) (fs_get (w_fs w) (dir @ [name])) d) w w'
     \<and> (if is_ok r then fs_get (w_fs w') (dir @ [name]) = Some (FileN d)
        else old_or_new (dir @ [name]) (fs_get (w_fs w) (dir @ [name])) d (w_fs w'))"
proof (cases "atomic_write_text token (dir @ [name]) d w")
  case (Pair r w')
  from atomic_write_text_run [OF _ Pair] show ?thesis
    by (cases r) (simp_all add: Pair)
qed

end
