(* ===== verification/Store.thy ===== *)
theory Store
  imports Json_Order Atomic Egress
begin

text \<open>
  src/store.py: the shipped (base) and the local catalog file, and the installed artifacts
  on disk. The catalog operations are first described on dictionaries; the file operations
  load, change and write them back. Listing a directory does not fail in this model.
\<close>

section \<open>Names and places\<close>

text \<open>\<open>p / s\<close> for a text without slash: pathlib drops a dot component.\<close>

definition path_join :: "path \<Rightarrow> string \<Rightarrow> path" where
  "path_join p s = (if s = ''.'' then p else p @ [s])"

definition path_str :: "path \<Rightarrow> string" where
  "path_str p = concat (map (\<lambda>c. CHR ''/'' # c) p)"

definition safe_dirname :: "string \<Rightarrow> string res" where
  "safe_dirname value =
     (if value = [] \<or> str_strip value \<noteq> value then
        Inl (CapabilityManifestError ''invalid id/version for storage'')
      else if list_ex (\<lambda>x. str_contains x value) [''/'', [CHR 0x5C], ''..'', [CHR 0x00]] then
        Inl (CapabilityManifestError ''unsafe id/version for storage'')
      else Inr value)"

record capability_ref =
  capability_id :: string
  ref_version :: string

text \<open>\<open>repo_root\<close> is where the shipped manifests are.\<close>

record capability_store =
  base_dir :: path
  base_catalog_path :: "path option"
  repo_root :: path

definition base_catalog :: "capability_store \<Rightarrow> path" where
  "base_catalog st = (case base_catalog_path st of Some p \<Rightarrow> p
     | None \<Rightarrow> repo_root st @ [''manifests'', ''manifest.base.json''])"

definition local_catalog :: "capability_store \<Rightarrow> path" where
  "local_catalog st = base_dir st @ [''manifest.local.json'']"

definition manifests_dir :: "capability_store \<Rightarrow> path" where
  "manifests_dir st = base_dir st @ [''manifests'']"

definition payloads_dir :: "capability_store \<Rightarrow> path" where
  "payloads_dir st = base_dir st @ [''payloads'']"

definition tmp_dir :: "capability_store \<Rightarrow> path" where
  "tmp_dir st = base_dir st @ [''tmp'']"

definition locks_dir :: "capability_store \<Rightarrow> path" where
  "locks_dir st = base_dir st @ [''locks'']"

definition lock_path :: "capability_store \<Rightarrow> path" where
  "lock_path st = locks_dir st @ [''store.lock'']"

definition dir_for :: "path \<Rightarrow> capability_ref \<Rightarrow> path res" where
  "dir_for root r =
     rbind (safe_dirname (capability_id r)) (\<lambda>i.
     rbind (safe_dirname (ref_version r)) (\<lambda>v. Inr (path_join (path_join root i) v)))"

definition install_dir :: "capability_store \<Rightarrow> capability_ref \<Rightarrow> path res" where
  "install_dir st r = dir_for (manifests_dir st) r"

definition payload_dir :: "capability_store \<Rightarrow> capability_ref \<Rightarrow> path res" where
  "payload_dir st r = dir_for (payloads_dir st) r"

definition manifest_filename :: string where
  "manifest_filename = ''capability.manifest.json''"

definition meta_filename :: string where
  "meta_filename = ''install.meta.json''"

definition manifest_path :: "capability_store \<Rightarrow> capability_ref \<Rightarrow> path res" where
  "manifest_path st r = rbind (install_dir st r) (\<lambda>d. Inr (d @ [manifest_filename]))"

definition meta_path :: "capability_store \<Rightarrow> capability_ref \<Rightarrow> path res" where
  "meta_path st r = rbind (install_dir st r) (\<lambda>d. Inr (d @ [meta_filename]))"

section \<open>Installed artifacts\<close>

definition children :: "path \<Rightarrow> fs \<Rightarrow> path list" where
  "children p s = filter (\<lambda>q. q \<noteq> [] \<and> parent q = p) (remdups (map fst s))"

definition list_installed :: "capability_store \<Rightarrow> fs \<Rightarrow> capability_ref list" where
  "list_installed st s =
     (if \<not> path_exists s (manifests_dir st) then []
      else sort_key (\<lambda>r. (capability_id r, ref_version r))
        (concat (map (\<lambda>id_dir. if is_dir s id_dir then
             concat (map (\<lambda>ver_dir. if path_exists s (ver_dir @ [manifest_filename])
                then [\<lparr>capability_id = last id_dir, ref_version = last ver_dir\<rparr>] else [])
              (children id_dir s)) else [])
           (children (manifests_dir st) s))))"

text \<open>\<open>json.loads(path.read_text())\<close>\<close>

definition parse_json :: "fdata \<Rightarrow> json res" where
  "parse_json d = (case d of Doc j \<Rightarrow> Inr j | Raw s \<Rightarrow> Inl (PyError ValueError ''invalid JSON''))"

definition read_json :: "path \<Rightarrow> json io" where
  "read_json p = io_bind (read_file p) (\<lambda>d. io_lift (parse_json d))"

definition get_manifest :: "capability_store \<Rightarrow> capability_ref \<Rightarrow> json io" where
  "get_manifest st r =
     io_bind (io_lift (manifest_path st r)) (\<lambda>p.
     io_bind (exists_io p) (\<lambda>e.
     if \<not> e then io_raise (CapabilityNotFoundError
        (''capability not installed: '' @ capability_id r @ ''@'' @ ref_version r))
     else
     io_bind (io_try (read_json p) (\<lambda>exc. io_raise (CapabilityManifestError
        (''invalid installed manifest: '' @ path_str p @ '': '' @ exc_text exc)))) (\<lambda>data.
     if \<not> is_dict data then io_raise (CapabilityManifestError (''invalid installed manifest root: '' @ path_str p))
     else io_return data)))"

definition put_manifest :: "string \<Rightarrow> flt \<Rightarrow> capability_store \<Rightarrow> json \<Rightarrow> json \<Rightarrow> capability_ref io" where
  "put_manifest token now st manifest meta =
     (let r = \<lparr>capability_id = py_str (jget manifest ''id''), ref_version = py_str (jget manifest ''version'')\<rparr> in
      io_bind (io_lift (install_dir st r)) (\<lambda>dir.
      io_bind (mkdir_p dir) (\<lambda>_.
      io_bind (atomic_write_json token (dir @ [manifest_filename]) manifest) (\<lambda>_.
      let meta_out = JObj (dupdate [(''installed_at'', JFloat now)] (entries meta)) in
      io_bind (atomic_write_json token (dir @ [meta_filename]) meta_out) (\<lambda>_. io_return r)))))"

text \<open>\<open>except OSError: pass\<close>\<close>

definition ignore_os :: "unit io \<Rightarrow> unit io" where
  "ignore_os m = io_try m (\<lambda>e. case e of PyError (OSError n) t \<Rightarrow> io_return () | _ \<Rightarrow> io_raise e)"

definition copy_file :: "path \<Rightarrow> path \<Rightarrow> unit io" where
  "copy_file a b = io_bind (read_file a) (\<lambda>d. prim (\<lambda>s.
     if is_dir s b then Inl (os_error 21) else if \<not> is_dir s (parent b) then Inl (os_error 2)
     else Inr ((), fs_put b (FileN d) s)))"

text \<open>\<open>shutil.copytree\<close>: goes on after an error of an entry and raises at the end.\<close>

fun copy_entries :: "path \<Rightarrow> path \<Rightarrow> path list \<Rightarrow> bool io" where
  "copy_entries src dst [] = io_return True"
| "copy_entries src dst (q # qs) =
     (let target = dst @ drop (length src) q in
      io_bind (io_get (\<lambda>w. is_dir (w_fs w) q)) (\<lambda>d.
      io_bind (io_try (io_bind (if d then mkdir_new target else copy_file q target) (\<lambda>_. io_return True))
                (\<lambda>_. io_return False)) (\<lambda>ok1.
      io_bind (copy_entries src dst qs) (\<lambda>ok2. io_return (ok1 \<and> ok2)))))"

definition copytree :: "path \<Rightarrow> path \<Rightarrow> unit io" where
  "copytree src dst =
     io_bind (io_get (\<lambda>w. sort (below src (w_fs w)))) (\<lambda>qs.
     io_bind (mkdir_new dst) (\<lambda>_.
     io_bind (copy_entries src dst qs) (\<lambda>ok.
     if ok then io_return () else io_raise (PyError (OSError 0) ''copytree''))))"

text \<open>\<open>shutil.rmtree(p)\<close>: the first error is raised.\<close>

definition rmtree_strict :: "path \<Rightarrow> unit io" where
  "rmtree_strict p = io_bind (io_get (\<lambda>w. tree_entries p (w_fs w))) (\<lambda>ps.
     if ps = [] then io_raise (os_error 20)
     else io_foreach (\<lambda>q. io_bind (io_get (\<lambda>w. is_dir (w_fs w) q)) (\<lambda>d. if d then rmdir q else unlink q)) ps)"

text \<open>\<open>resolve_path s\<close> is \<open>Path(s).expanduser().resolve()\<close>.\<close>

definition put_payload_from_path ::
    "(string \<Rightarrow> path) \<Rightarrow> capability_store \<Rightarrow> capability_ref \<Rightarrow> string \<Rightarrow> path io" where
  "put_payload_from_path resolve_path st r src_path =
     (let src = resolve_path src_path in
      io_bind (exists_io src) (\<lambda>e.
      if \<not> e then io_raise (CapabilityManifestError (''origin.path does not exist: '' @ path_str src))
      else
      io_bind (io_lift (payload_dir st r)) (\<lambda>target.
      io_bind (exists_io target) (\<lambda>old.
      io_bind (if old then rmtree_strict target else io_return ()) (\<lambda>_.
      io_bind (mkdir_p (parent target)) (\<lambda>_.
      io_bind (io_get (\<lambda>w. is_dir (w_fs w) src)) (\<lambda>d.
      io_bind (if d then copytree src target
               else io_bind (mkdir_p target) (\<lambda>_. copy_file src (target @ [last src]))) (\<lambda>_.
      io_return target))))))))"

definition remove_tree_entry :: "path \<Rightarrow> unit io" where
  "remove_tree_entry p =
     io_bind (io_get (\<lambda>w. (is_file (w_fs w) p, is_dir (w_fs w) p))) (\<lambda>(f, d).
     if f then unlink_missing_ok p else if d then ignore_os (rmdir p) else io_return ())"

definition store_remove :: "capability_store \<Rightarrow> capability_ref \<Rightarrow> bool io" where
  "store_remove st r =
     io_bind (io_lift (install_dir st r)) (\<lambda>dir.
     io_bind (exists_io dir) (\<lambda>e.
     io_bind (if \<not> e then io_return False
       else io_bind (io_get (\<lambda>w. rev (sort (below dir (w_fs w))))) (\<lambda>ps.
         io_bind (io_foreach remove_tree_entry ps) (\<lambda>_.
         io_bind (ignore_os (rmdir dir)) (\<lambda>_.
         io_bind (ignore_os (rmdir (parent dir))) (\<lambda>_. io_return True))))) (\<lambda>removed.
     io_bind (io_lift (payload_dir st r)) (\<lambda>payload.
     io_bind (exists_io payload) (\<lambda>e2.
     io_bind (if e2 then io_bind (rmtree payload) (\<lambda>_. ignore_os (rmdir (parent payload))) else io_return ()) (\<lambda>_.
     io_return removed))))))"

section \<open>Catalogs\<close>

type_synonym catalog = "json dict"

fun collect :: "validator \<Rightarrow> catalog \<Rightarrow> json list \<Rightarrow> catalog res" where
  "collect v out [] = Inr out"
| "collect v out (item # rest) =
     (if \<not> is_dict item then collect v out rest
      else rbind (validate_manifest v item) (\<lambda>_.
        let cid = str_or_empty (jget item ''id'') in
        if cid = [] then collect v out rest else collect v (dset cid item out) rest))"

definition catalog_of_json :: "validator \<Rightarrow> path \<Rightarrow> json \<Rightarrow> catalog res" where
  "catalog_of_json v p raw =
     (if \<not> is_dict raw then Inl (CapabilityManifestError (''invalid catalog root: '' @ path_str p))
      else
        (let caps0 = jget raw ''capabilities'';
             caps = (if caps0 = JNull then (if is_list raw then raw else JArr []) else caps0) in
         if \<not> is_list caps then
           Inl (CapabilityManifestError (''invalid catalog capabilities list: '' @ path_str p))
         else collect v [] (items caps)))"

definition load_catalog_file :: "validator \<Rightarrow> path \<Rightarrow> catalog io" where
  "load_catalog_file v p =
     io_bind (exists_io p) (\<lambda>e.
     if \<not> e then io_return []
     else
       io_bind (io_try (read_json p) (\<lambda>exc. io_raise (CapabilityManifestError
          (''invalid catalog json: '' @ path_str p @ '': '' @ exc_text exc)))) (\<lambda>raw.
       io_lift (catalog_of_json v p raw)))"

definition catalog_payload :: "catalog \<Rightarrow> json" where
  "catalog_payload d = JObj [(''catalog_version'', JStr ''catalog.v1''), (''capabilities'', JArr (map snd d))]"

definition write_local_catalog :: "string \<Rightarrow> capability_store \<Rightarrow> catalog \<Rightarrow> unit io" where
  "write_local_catalog token st d = atomic_write_json token (local_catalog st) (catalog_payload d)"

definition load_base_catalog :: "validator \<Rightarrow> capability_store \<Rightarrow> catalog io" where
  "load_base_catalog v st = load_catalog_file v (base_catalog st)"

definition load_local_catalog :: "validator \<Rightarrow> capability_store \<Rightarrow> catalog io" where
  "load_local_catalog v st = load_catalog_file v (local_catalog st)"

definition merged_catalog :: "validator \<Rightarrow> capability_store \<Rightarrow> catalog io" where
  "merged_catalog v st =
     io_bind (load_base_catalog v st) (\<lambda>base.
     io_bind (load_local_catalog v st) (\<lambda>local. io_return (dupdate base local)))"

definition upsert_local :: "validator \<Rightarrow> string \<Rightarrow> capability_store \<Rightarrow> json \<Rightarrow> unit io" where
  "upsert_local v token st manifest =
     io_bind (io_lift (validate_manifest v manifest)) (\<lambda>_.
     let cid = str_or_empty (jget manifest ''id'') in
     if cid = [] then io_raise (CapabilityManifestError ''manifest.id required'')
     else
       io_bind (load_local_catalog v st) (\<lambda>local.
       write_local_catalog token st (dset cid manifest local)))"

definition delete_local :: "validator \<Rightarrow> string \<Rightarrow> capability_store \<Rightarrow> string \<Rightarrow> bool io" where
  "delete_local v token st cid =
     io_bind (load_local_catalog v st) (\<lambda>local.
     if dget local cid = None then io_return False
     else io_bind (write_local_catalog token st (dpop cid local)) (\<lambda>_. io_return True))"

definition set_local_enabled :: "validator \<Rightarrow> string \<Rightarrow> capability_store \<Rightarrow> string \<Rightarrow> bool \<Rightarrow> unit io" where
  "set_local_enabled v token st cid enabled =
     io_bind (merged_catalog v st) (\<lambda>merged.
     case dget merged cid of
       None \<Rightarrow> io_raise (CapabilityNotFoundError (''capability not found: '' @ cid))
     | Some m \<Rightarrow> upsert_local v token st (jset ''enabled'' (JBool enabled) m))"

definition factory_reset :: "capability_store \<Rightarrow> unit io" where
  "factory_reset st =
     io_bind (unlink_missing_ok (local_catalog st)) (\<lambda>_.
     io_bind (rmtree (manifests_dir st)) (\<lambda>_.
     io_bind (rmtree (payloads_dir st)) (\<lambda>_.
     rmtree (tmp_dir st))))"

end
