(* ===== verification/Discovery.thy ===== *)
theory Discovery
  imports Egress Store
begin

text \<open>
  src/discovery.py: candidates, their identifiers and scores, and the three registry
  adapters. SHA-256 is the parameter \<open>sha\<close>. Scores are in units of 0.25: every score the
  code computes is a small multiple of it, so its floats are exact.
\<close>

section \<open>Candidates\<close>

record candidate =
  cand_id :: string
  cand_manifest :: json
  cand_source :: string
  cand_score :: int
  cand_url :: "string option"

definition candidate_id_for :: "(string \<Rightarrow> string) \<Rightarrow> json \<Rightarrow> string \<Rightarrow> string" where
  "candidate_id_for sha m source =
     py_str (jget m ''id'') @ ''@'' @ py_str (jget m ''version'') @ '':'' @ source @ '':''
       @ take 16 (sha (json_dumps True m))"

definition trust_rank :: "string \<Rightarrow> int" where
  "trust_rank level =
     (if level = ''verified'' then 0 else if level = ''local'' then 1
      else if level = ''community'' then 2 else if level = ''untrusted'' then 3 else 9)"

definition score_manifest :: "string \<Rightarrow> json \<Rightarrow> int" where
  "score_manifest intent m =
     (let desc = str_lower (str_or_empty (jget m ''description''));
          cap_id = str_lower (str_or_empty (jget m ''id''));
          intent_l = str_lower intent in
      (if intent_l \<noteq> [] \<and> str_contains intent_l cap_id then 20 else 0)
      + (if intent_l \<noteq> [] \<and> str_contains intent_l desc then 8 else 0)
      - trust_rank (str_or_empty (jget m ''trust_level'')))"

text \<open>\<open>candidates.sort(key=score, reverse=True)\<close>, which keeps the order of equal scores.\<close>

definition by_score :: "candidate list \<Rightarrow> candidate list" where
  "by_score cs = sort_key (\<lambda>c. - cand_score c) cs"

definition make_candidate ::
    "(string \<Rightarrow> string) \<Rightarrow> string \<Rightarrow> json \<Rightarrow> int \<Rightarrow> string option \<Rightarrow> candidate" where
  "make_candidate sha name m score u =
     \<lparr>cand_id = candidate_id_for sha m name, cand_manifest = m, cand_source = name,
      cand_score = score, cand_url = u\<rparr>"

type_synonym listing = "string \<Rightarrow> candidate list io"

text \<open>The \<open>get\<close> and \<open>fetch\<close> that all adapters share.\<close>

definition adapter_get :: "listing \<Rightarrow> string \<Rightarrow> candidate io" where
  "adapter_get lst cid =
     io_bind (lst []) (\<lambda>cs. case find (\<lambda>c. cand_id c = cid) cs of
       Some c \<Rightarrow> io_return c
     | None \<Rightarrow> io_raise (PyError KeyError cid))"

definition adapter_fetch :: "(candidate \<Rightarrow> json) \<Rightarrow> listing \<Rightarrow> string \<Rightarrow> json io" where
  "adapter_fetch answer lst cid = io_bind (adapter_get lst cid) (\<lambda>c. io_return (answer c))"

definition manifest_answer :: "candidate \<Rightarrow> json" where
  "manifest_answer c = JObj [(''manifest'', cand_manifest c)]"

section \<open>The static catalog\<close>

fun static_items :: "validator \<Rightarrow> json list \<Rightarrow> json list res" where
  "static_items v [] = Inr []"
| "static_items v (m # ms) =
     (if \<not> is_dict m then static_items v ms
      else rbind (validate_manifest v m) (\<lambda>_. rbind (static_items v ms) (\<lambda>r. Inr (m # r))))"

definition static_load :: "validator \<Rightarrow> path \<Rightarrow> json list io" where
  "static_load v p =
     io_bind (read_json p) (\<lambda>raw.
     let items = (if is_dict raw
           then py_or (py_or (jget raw ''capabilities'') (jget raw ''items'')) (JArr []) else raw)
     in if \<not> is_list items then io_return [] else io_lift (static_items v (Json.items items)))"

definition static_list :: "(string \<Rightarrow> string) \<Rightarrow> validator \<Rightarrow> string \<Rightarrow> path \<Rightarrow> listing" where
  "static_list sha v name p query =
     io_bind (static_load v p) (\<lambda>ms.
     io_return (by_score (map (\<lambda>m. make_candidate sha name m (score_manifest query m) None) ms)))"

definition static_get :: "(string \<Rightarrow> string) \<Rightarrow> validator \<Rightarrow> string \<Rightarrow> path \<Rightarrow> string \<Rightarrow> candidate io" where
  "static_get sha v name p = adapter_get (static_list sha v name p)"

definition static_fetch :: "(string \<Rightarrow> string) \<Rightarrow> validator \<Rightarrow> string \<Rightarrow> path \<Rightarrow> string \<Rightarrow> json io" where
  "static_fetch sha v name p = adapter_fetch manifest_answer (static_list sha v name p)"

section \<open>The HTTP catalog\<close>

definition require_tls :: "string \<Rightarrow> unit res" where
  "require_tls u = rbind (urlparse u) (\<lambda>p.
     if scheme p \<noteq> ''https'' then Inl (PyError ValueError ''http catalog adapter requires https'') else Inr ())"

definition get_request :: "string \<Rightarrow> flt \<Rightarrow> http_request" where
  "get_request u timeout = \<lparr>rq_method = ''GET'', rq_url = u, rq_json = None, rq_data = None,
     rq_headers = [], rq_timeout = timeout\<rparr>"

text \<open>\<open>resp.raise_for_status(); resp.json()\<close>\<close>

definition response_json :: "http_response \<Rightarrow> json res" where
  "response_json r = rbind (raise_for_status r) (\<lambda>_. rs_json r)"

definition load_url :: "(http_request \<Rightarrow> http_response io) \<Rightarrow> string \<Rightarrow> json io" where
  "load_url request u =
     io_bind (io_lift (require_tls u)) (\<lambda>_.
     io_bind (request (get_request u (Dec 5 0))) (\<lambda>r. io_lift (response_json r)))"

fun http_entries ::
    "(string \<Rightarrow> string) \<Rightarrow> validator \<Rightarrow> string \<Rightarrow> string \<Rightarrow> json list \<Rightarrow> candidate list res" where
  "http_entries sha v name query [] = Inr []"
| "http_entries sha v name query (e # es) =
     (if \<not> is_dict e then http_entries sha v name query es
      else
        (let manifest = (if is_dict (jget e ''manifest'') then jget e ''manifest'' else JNull);
             manifest_url = jget e ''manifest_url'' in
         if truthy manifest then
           rbind (validate_manifest v manifest) (\<lambda>_.
           rbind (http_entries sha v name query es) (\<lambda>r.
           Inr (make_candidate sha name manifest (score_manifest query manifest - 8) None # r)))
         else if is_str manifest_url \<and> manifest_url \<noteq> JStr [] then
           (let m = jget e ''candidate_manifest'' in
            if \<not> is_dict m then http_entries sha v name query es
            else
              rbind (validate_manifest v m) (\<lambda>_.
              rbind (http_entries sha v name query es) (\<lambda>r.
              Inr (make_candidate sha name m (score_manifest query m - 12) (Some (py_str manifest_url)) # r))))
         else http_entries sha v name query es))"

definition http_items :: "json \<Rightarrow> json list" where
  "http_items data = list_or_empty (if is_dict data then jget data ''capabilities'' else data)"

fun http_urls ::
    "(string \<Rightarrow> string) \<Rightarrow> validator \<Rightarrow> (http_request \<Rightarrow> http_response io) \<Rightarrow> string \<Rightarrow> string \<Rightarrow> string list
     \<Rightarrow> candidate list io" where
  "http_urls sha v request name query [] = io_return []"
| "http_urls sha v request name query (u # us) =
     io_bind (load_url request u) (\<lambda>data.
     io_bind (io_lift (http_entries sha v name query (http_items data))) (\<lambda>cs.
     io_bind (http_urls sha v request name query us) (\<lambda>r. io_return (cs @ r))))"

definition http_list ::
    "(string \<Rightarrow> string) \<Rightarrow> validator \<Rightarrow> (http_request \<Rightarrow> http_response io) \<Rightarrow> string \<Rightarrow> string list \<Rightarrow> listing" where
  "http_list sha v request name us query =
     io_bind (http_urls sha v request name query us) (\<lambda>cs. io_return (by_score cs))"

definition http_get ::
    "(string \<Rightarrow> string) \<Rightarrow> validator \<Rightarrow> (http_request \<Rightarrow> http_response io) \<Rightarrow> string \<Rightarrow> string list
     \<Rightarrow> string \<Rightarrow> candidate io" where
  "http_get sha v request name us = adapter_get (http_list sha v request name us)"

definition url_answer :: "candidate \<Rightarrow> json" where
  "url_answer c = (case cand_url c of
       Some u \<Rightarrow> if u = [] then manifest_answer c
         else JObj [(''manifest_url'', JStr u), (''manifest'', cand_manifest c)]
     | None \<Rightarrow> manifest_answer c)"

definition http_fetch ::
    "(string \<Rightarrow> string) \<Rightarrow> validator \<Rightarrow> (http_request \<Rightarrow> http_response io) \<Rightarrow> string \<Rightarrow> string list
     \<Rightarrow> string \<Rightarrow> json io" where
  "http_fetch sha v request name us = adapter_fetch url_answer (http_list sha v request name us)"

section \<open>The MCP registry\<close>

definition mcp_manifest :: "(string \<Rightarrow> string) \<Rightarrow> string \<Rightarrow> json \<Rightarrow> json \<Rightarrow> json \<Rightarrow> json \<Rightarrow> json" where
  "mcp_manifest sha registry_url base server_id tool name = JObj
     [(''id'', JStr (''mcp.tool:'' @ py_str name)),
      (''type'', JStr ''tool''),
      (''version'', JStr ''0.0.0''),
      (''description'', py_or (jget tool ''description'') (JStr (''MCP tool '' @ py_str name))),
      (''origin'', JObj [(''source'', JStr ''url''),
         (''digest'', JStr (sha (registry_url @ '':'' @ py_str server_id @ '':'' @ py_str name)))]),
      (''interfaces'', JObj
         [(''inputs'', py_or (jget tool ''parameters'') (JObj [(''type'', JStr ''object''), (''properties'', JObj [])])),
          (''outputs'', JObj [(''type'', JStr ''object'')])]),
      (''permissions'', JObj
         [(''network'', JStr ''allowlist''),
          (''network_allowlist'', JArr (filter truthy [base, JStr registry_url])),
          (''filesystem'', JStr ''none''), (''devices'', JArr [])]),
      (''runtime'', JObj [(''sandbox'', JStr ''process''),
         (''resources'', JObj [(''cpu'', JStr ''default''), (''memory'', JStr ''default'')]),
         (''timeout_seconds'', JInt 30)]),
      (''trust_level'', JStr ''untrusted''),
      (''enabled'', JBool True),
      (''execution'', JObj [(''channel'', JStr ''programmatic'')]),
      (''implementation'', JObj [(''kind'', JStr ''mcp_tool''),
         (''mcp'', JObj [(''registry_url'', JStr registry_url), (''server_id'', JStr (py_str server_id)),
            (''tool_name'', JStr (py_str name))])])]"

fun mcp_tools ::
    "(string \<Rightarrow> string) \<Rightarrow> validator \<Rightarrow> string \<Rightarrow> string \<Rightarrow> string \<Rightarrow> json \<Rightarrow> json \<Rightarrow> json list \<Rightarrow> candidate list res" where
  "mcp_tools sha v name registry_url query base server_id [] = Inr []"
| "mcp_tools sha v name registry_url query base server_id (tool # ts) =
     rbind (py_get tool ''name'') (\<lambda>tn.
     if \<not> truthy tn then mcp_tools sha v name registry_url query base server_id ts
     else
       (let m = mcp_manifest sha registry_url base server_id tool tn in
        rbind (validate_manifest v m) (\<lambda>_.
        rbind (mcp_tools sha v name registry_url query base server_id ts) (\<lambda>r.
        Inr (make_candidate sha name m (score_manifest query m - 16) None # r)))))"

definition server_base :: "json \<Rightarrow> json" where
  "server_base server = py_or (jget server ''base_url'') (jget server ''url'')"

definition server_ident :: "json \<Rightarrow> json" where
  "server_ident server = py_or (py_or (jget server ''id'') (jget server ''name'')) (JStr ''mcp'')"

fun mcp_servers ::
    "(string \<Rightarrow> string) \<Rightarrow> validator \<Rightarrow> string \<Rightarrow> string \<Rightarrow> string \<Rightarrow> json list \<Rightarrow> candidate list res" where
  "mcp_servers sha v name registry_url query [] = Inr []"
| "mcp_servers sha v name registry_url query (server # ss) =
     (if \<not> is_dict server then Inl (attribute_error server ''get'')
      else
        rbind (py_iter (py_or (jget server ''tools'') (JArr []))) (\<lambda>tools.
        rbind (mcp_tools sha v name registry_url query (server_base server) (server_ident server) tools) (\<lambda>cs.
        rbind (mcp_servers sha v name registry_url query ss) (\<lambda>r. Inr (cs @ r)))))"

text \<open>The servers of a registry document: a list, or the entry of an object.\<close>

definition registry_servers :: "json \<Rightarrow> json list res" where
  "registry_servers payload =
     (if is_list payload then Inr (items payload)
      else if is_dict payload then py_iter (get_or payload ''servers'' (JArr []))
      else Inr [])"

definition mcp_list ::
    "(string \<Rightarrow> string) \<Rightarrow> validator \<Rightarrow> (http_request \<Rightarrow> http_response io) \<Rightarrow> string \<Rightarrow> string \<Rightarrow> listing" where
  "mcp_list sha v request name registry_url query =
     io_bind (request (get_request registry_url (Dec 3 0))) (\<lambda>r.
     io_bind (io_lift (response_json r)) (\<lambda>payload.
     io_bind (io_lift (registry_servers payload)) (\<lambda>servers.
     io_bind (io_lift (mcp_servers sha v name registry_url query servers)) (\<lambda>cs.
     io_return (by_score cs)))))"

definition mcp_get ::
    "(string \<Rightarrow> string) \<Rightarrow> validator \<Rightarrow> (http_request \<Rightarrow> http_response io) \<Rightarrow> string \<Rightarrow> string
     \<Rightarrow> string \<Rightarrow> candidate io" where
  "mcp_get sha v request name registry_url = adapter_get (mcp_list sha v request name registry_url)"

definition mcp_fetch ::
    "(string \<Rightarrow> string) \<Rightarrow> validator \<Rightarrow> (http_request \<Rightarrow> http_response io) \<Rightarrow> string \<Rightarrow> string
     \<Rightarrow> string \<Rightarrow> json io" where
  "mcp_fetch sha v request name registry_url = adapter_fetch manifest_answer (mcp_list sha v request name registry_url)"

definition mcp_from_env :: "env \<Rightarrow> string option" where
  "mcp_from_env env = env_set env ''UNISON_MCP_REGISTRY_URL''"

section \<open>What an adapter promises\<close>

text \<open>A result that, when it is one, satisfies a predicate.\<close>

definition returns :: "('a \<Rightarrow> bool) \<Rightarrow> 'a io \<Rightarrow> bool" where
  "returns P m \<longleftrightarrow> (\<forall>w. case fst (m w) of Inl e \<Rightarrow> True | Inr a \<Rightarrow> P a)"

named_theorems returns_rules

lemma returnsD: "returns P m \<Longrightarrow> m w = (Inr a, w') \<Longrightarrow> P a"
  unfolding returns_def by (metis fst_conv sum.simps(6))

lemma returns_return [returns_rules]: "P a \<Longrightarrow> returns P (io_return a)"
  by (simp add: returns_def io_defs)

lemma returns_raise [returns_rules]: "returns P (io_raise e)"
  by (simp add: returns_def io_defs)

lemma returns_lift: "(\<And>a. r = Inr a \<Longrightarrow> P a) \<Longrightarrow> returns P (io_lift r)"
  by (auto simp: returns_def io_defs split: sum.splits)

lemma returns_bind: "returns R m \<Longrightarrow> (\<And>a. R a \<Longrightarrow> returns P (f a)) \<Longrightarrow> returns P (io_bind m f)"
  unfolding returns_def io_bind_def
  by (auto split: sum.splits prod.splits) (metis fst_conv sum.simps(6))+

lemma returns_any: "returns (\<lambda>_. True) m"
  by (simp add: returns_def split: sum.splits)

definition adapter_candidate :: "(string \<Rightarrow> string) \<Rightarrow> validator \<Rightarrow> string \<Rightarrow> candidate \<Rightarrow> bool" where
  "adapter_candidate sha v name c \<longleftrightarrow> v (cand_manifest c) = [] \<and> cand_source c = name
     \<and> cand_id c = candidate_id_for sha (cand_manifest c) name"

definition ranked :: "candidate list \<Rightarrow> bool" where
  "ranked cs \<longleftrightarrow> sorted_wrt (\<lambda>a b. cand_score b \<le> cand_score a) cs"

text \<open>
  A registry adapter lists validated candidates under their own name, best score first, and
  sends only permitted requests.
\<close>

locale registry_adapter =
  fixes lst :: listing and sha :: "string \<Rightarrow> string" and v :: validator and name :: string
    and guard :: "string \<Rightarrow> bool"
  assumes lists: "returns (\<lambda>cs. list_all (adapter_candidate sha v name) cs \<and> ranked cs) (lst q)"
    and sends: "sends_only guard (lst q)"
begin

text \<open>What is found by identifier has that identifier, and the identifier pins its manifest.\<close>

lemma get_found: "returns (\<lambda>c. cand_id c = cid \<and> adapter_candidate sha v name c) (adapter_get lst cid)"
  unfolding adapter_get_def
proof (rule returns_bind [OF lists])
  fix cs
  assume "list_all (adapter_candidate sha v name) cs \<and> ranked cs"
  then show "returns (\<lambda>c. cand_id c = cid \<and> adapter_candidate sha v name c)
      (case find (\<lambda>c. cand_id c = cid) cs of Some c \<Rightarrow> io_return c | None \<Rightarrow> io_raise (PyError KeyError cid))"
    by (auto simp: find_Some_iff list_all_length intro!: returns_rules split: option.split)
qed

lemma get_sends: "sends_only guard (adapter_get lst cid)"
  unfolding adapter_get_def by (auto intro!: sends_rules sends split: option.split)

lemma fetch_sends: "sends_only guard (adapter_fetch answer lst cid)"
  unfolding adapter_fetch_def by (intro sends_rules get_sends)

lemma fetch_found:
  "returns (\<lambda>out. \<exists>c. out = answer c \<and> cand_id c = cid \<and> adapter_candidate sha v name c) (adapter_fetch answer lst cid)"
  unfolding adapter_fetch_def by (rule returns_bind [OF get_found], rule returns_return) blast

end

section \<open>The adapters keep the promise\<close>

lemma ranked_by_score: "ranked (by_score cs)"
proof -
  have "sorted (map (\<lambda>c. - cand_score c) (by_score cs))" by (simp add: by_score_def)
  then have "sorted_wrt (\<lambda>a b. - cand_score a \<le> - cand_score b) (by_score cs)" by (simp add: sorted_map)
  then show ?thesis by (simp add: ranked_def)
qed

lemma list_all_by_score: "list_all P (by_score cs) = list_all P cs"
  by (simp add: by_score_def list_all_iff)

lemma make_candidate_good: "v m = [] \<Longrightarrow> adapter_candidate sha v name (make_candidate sha name m s u)"
  by (simp add: adapter_candidate_def make_candidate_def)

lemma static_items_valid: "static_items v ms = Inr r \<Longrightarrow> list_all (\<lambda>m. v m = []) r"
  by (induction ms arbitrary: r) (auto simp: result_simps split: if_splits)

lemma http_entries_good: "http_entries sha v name q es = Inr cs \<Longrightarrow> list_all (adapter_candidate sha v name) cs"
  by (induction es arbitrary: cs)
     (auto simp: result_simps Let_def make_candidate_good split: if_splits)

lemma mcp_tools_good: "mcp_tools sha v name ru q b i ts = Inr cs \<Longrightarrow> list_all (adapter_candidate sha v name) cs"
  by (induction ts arbitrary: cs) (auto simp: result_simps Let_def make_candidate_good split: if_splits)

lemma mcp_servers_good: "mcp_servers sha v name ru q ss = Inr cs \<Longrightarrow> list_all (adapter_candidate sha v name) cs"
  by (induction ss arbitrary: cs) (auto simp: result_simps dest: mcp_tools_good split: if_splits)

lemma http_urls_good: "returns (list_all (adapter_candidate sha v name)) (http_urls sha v request name q us)"
proof (induction us)
  case Nil
  then show ?case by (simp add: returns_rules)
next
  case (Cons u us)
  show ?case
    unfolding http_urls.simps
    by (rule returns_bind [OF returns_any], rule returns_bind [OF returns_lift [OF http_entries_good]],
        assumption, rule returns_bind [OF Cons], rule returns_return) simp
qed

lemma static_list_good:
  "returns (\<lambda>cs. list_all (adapter_candidate sha v name) cs \<and> ranked cs) (static_list sha v name p q)"
proof -
  have load: "returns (list_all (\<lambda>m. v m = [])) (static_load v p)"
    unfolding static_load_def Let_def
    by (rule returns_bind [OF returns_any])
       (auto intro!: returns_rules returns_lift dest: static_items_valid)
  show ?thesis
    unfolding static_list_def
    by (rule returns_bind [OF load], rule returns_return, simp add: ranked_by_score list_all_by_score)
       (simp add: list_all_iff make_candidate_good)
qed

lemma http_list_good:
  "returns (\<lambda>cs. list_all (adapter_candidate sha v name) cs \<and> ranked cs) (http_list sha v request name us q)"
  unfolding http_list_def
  by (rule returns_bind [OF http_urls_good], rule returns_return) (simp add: ranked_by_score list_all_by_score)

lemma mcp_list_good:
  "returns (\<lambda>cs. list_all (adapter_candidate sha v name) cs \<and> ranked cs) (mcp_list sha v request name ru q)"
  unfolding mcp_list_def
  by (rule returns_bind [OF returns_any], rule returns_bind [OF returns_any], rule returns_bind [OF returns_any],
      rule returns_bind [OF returns_lift [OF mcp_servers_good]], assumption, rule returns_return)
     (simp add: ranked_by_score list_all_by_score)

lemma sends_only_read_json [sends_rules]: "sends_only P (read_json p)"
  unfolding read_json_def read_file_def by (intro sends_rules)

lemma static_list_sends: "sends_only P (static_list sha v name p q)"
  unfolding static_list_def static_load_def Let_def by (intro sends_rules)

context guarded_client
begin

lemma load_url_sends: "sends_only guard (load_url request u)"
  unfolding load_url_def by (intro sends_rules request_sends)

lemma http_urls_sends: "sends_only guard (http_urls sha v request name q us)"
  by (induction us) (auto intro!: sends_rules load_url_sends)

lemma http_list_sends: "sends_only guard (http_list sha v request name us q)"
  unfolding http_list_def by (intro sends_rules http_urls_sends)

lemma mcp_list_sends: "sends_only guard (mcp_list sha v request name ru q)"
  unfolding mcp_list_def by (intro sends_rules request_sends)

end

interpretation static_catalog: registry_adapter "static_list sha v name p" sha v name guard
  for sha v name p guard
  by unfold_locales (rule static_list_good static_list_sends)+

interpretation http_catalog: registry_adapter
  "http_list sha v (egress_request cfg tr) name us" sha v name "egress_allowed cfg"
  for sha v cfg tr name us
  by unfold_locales (rule http_list_good egress.http_list_sends)+

interpretation mcp_registry: registry_adapter
  "mcp_list sha v (egress_request cfg tr) name ru" sha v name "egress_allowed cfg"
  for sha v cfg tr name ru
  by unfold_locales (rule mcp_list_good egress.mcp_list_sends)+


section \<open>Properties\<close>

text \<open>An answer to a fetch that is the capability of a candidate, up to a collision of 64 bits of SHA-256.\<close>

definition same_capability :: "(string \<Rightarrow> string) \<Rightarrow> validator \<Rightarrow> candidate \<Rightarrow> json \<Rightarrow> bool" where
  "same_capability sha v c out \<longleftrightarrow>
     v (jget out ''manifest'') = []
     \<and> take 16 (sha (json_dumps True (jget out ''manifest''))) = take 16 (sha (json_dumps True (cand_manifest c)))"

lemma ident_suffix:
  assumes "\<And>x. length (sha x) = 64" and "candidate_id_for sha m name = candidate_id_for sha m' name"
  shows "take 16 (sha (json_dumps True m)) = take 16 (sha (json_dumps True m'))"
proof -
  let ?d = "\<lambda>m. take 16 (sha (json_dumps True m))"
  have "candidate_id_for sha m name
      = (py_str (jget m ''id'') @ ''@'' @ py_str (jget m ''version'') @ '':'' @ name @ '':'') @ ?d m" for m
    by (simp add: candidate_id_for_def)
  moreover have "length (?d m) = 16" for m using assms(1) by simp
  ultimately show ?thesis using assms(2) by (metis append_eq_append_conv)
qed

lemma answer_manifest: "jget (manifest_answer c) ''manifest'' = cand_manifest c" "jget (url_answer c) ''manifest'' = cand_manifest c"
  by (simp_all add: manifest_answer_def url_answer_def jget_def get_or_def split: option.split)

context registry_adapter
begin

lemma fetch_same:
  assumes sha: "\<And>x. length (sha x) = 64" and c: "adapter_candidate sha v name c"
    and answer: "\<And>c. jget (answer c) ''manifest'' = cand_manifest c"
  shows "returns (same_capability sha v c) (adapter_fetch answer lst (cand_id c))"
proof -
  have "same_capability sha v c (answer c')" if "cand_id c' = cand_id c" "adapter_candidate sha v name c'" for c'
    using that c ident_suffix [where sha = sha, OF sha, where m = "cand_manifest c'" and m' = "cand_manifest c" and name = name]
    by (simp add: same_capability_def answer adapter_candidate_def)
  with fetch_found [of answer "cand_id c"] show ?thesis
    unfolding returns_def by (auto split: sum.splits)
qed

end

text \<open>
  C38: a registry cannot swap a capability between listing and fetching. Whatever its file or
  its server holds when a candidate that was listed before is fetched, an answer carries a
  valid manifest with the same digest prefix as the listed one, because the identifier pins
  it; and fetching sends only requests that the egress policy admits.
\<close>

theorem fetch_pinned_to_listing:
  assumes "\<And>x. length (sha x) = 64" and "adapter_candidate sha v name c"
  shows "returns (same_capability sha v c) (static_fetch sha v name p (cand_id c))
    \<and> returns (same_capability sha v c) (http_fetch sha v (egress_request cfg tr) name us (cand_id c))
    \<and> returns (same_capability sha v c) (mcp_fetch sha v (egress_request cfg tr) name u (cand_id c))
    \<and> sends_only (\<lambda>_. False) (static_fetch sha v name p (cand_id c))
    \<and> sends_only (egress_allowed cfg) (http_fetch sha v (egress_request cfg tr) name us (cand_id c))
    \<and> sends_only (egress_allowed cfg) (mcp_fetch sha v (egress_request cfg tr) name u (cand_id c))"
  unfolding static_fetch_def http_fetch_def mcp_fetch_def
  by (intro conjI static_catalog.fetch_same http_catalog.fetch_same mcp_registry.fetch_same answer_manifest assms
        static_catalog.fetch_sends http_catalog.fetch_sends mcp_registry.fetch_sends)

lemma fetch_pinned_to_listing_witness:
  "let c = make_candidate (\<lambda>_. replicate 64 (CHR ''0'')) ''s'' demo_manifest 0 None in
   returns (same_capability (\<lambda>_. replicate 64 (CHR ''0'')) reference_errors c)
     (static_fetch (\<lambda>_. replicate 64 (CHR ''0'')) reference_errors ''s'' [''c.json''] (cand_id c))"
proof -
  have valid: "reference_errors demo_manifest = []" by code_simp
  show ?thesis
    unfolding Let_def
    by (rule fetch_pinned_to_listing [THEN conjunct1]) (simp_all add: make_candidate_good [where v = reference_errors, OF valid])
qed

text \<open>
  C37: whatever a remote catalog or registry answers, the listing of an HTTP catalog or of
  the MCP registry that returns holds only candidates whose manifest passed validation,
  under the adapter's name and with the identifier computed from the manifest, best score
  first; and asking sends only requests that the egress policy admits.
\<close>

theorem remote_listings_validated:
  "returns (\<lambda>cs. list_all (adapter_candidate sha v name) cs \<and> ranked cs)
     (http_list sha v (egress_request cfg tr) name us q)
   \<and> returns (\<lambda>cs. list_all (adapter_candidate sha v name) cs \<and> ranked cs)
     (mcp_list sha v (egress_request cfg tr) name ru q)
   \<and> sends_only (egress_allowed cfg) (http_list sha v (egress_request cfg tr) name us q)
   \<and> sends_only (egress_allowed cfg) (mcp_list sha v (egress_request cfg tr) name ru q)"
  by (intro conjI http_catalog.lists mcp_registry.lists http_catalog.sends mcp_registry.sends)

lemma mcp_manifest_untrusted: "jget (mcp_manifest sha ru b i t n) ''trust_level'' = JStr ''untrusted''"
  by (simp add: mcp_manifest_def jget_def get_or_def)

lemma mcp_tools_untrusted: "mcp_tools sha v name ru q b i ts = Inr cs \<Longrightarrow>
    list_all (\<lambda>c. jget (cand_manifest c) ''trust_level'' = JStr ''untrusted'') cs"
  by (induction ts arbitrary: cs)
     (auto simp: result_simps Let_def make_candidate_def mcp_manifest_untrusted split: if_splits)

lemma mcp_servers_untrusted: "mcp_servers sha v name ru q ss = Inr cs \<Longrightarrow>
    list_all (\<lambda>c. jget (cand_manifest c) ''trust_level'' = JStr ''untrusted'') cs"
  by (induction ss arbitrary: cs) (auto simp: result_simps dest: mcp_tools_untrusted split: if_splits)

text \<open>
  A tool found in the MCP registry is never installable under a policy that does not
  list the untrusted level, whatever the registry says about the tool.
\<close>

theorem mcp_tools_not_installable:
  "if ''untrusted'' \<in> set (trust_allow pol) then True
   else returns (list_all (\<lambda>c. enforce_install pol (cand_manifest c)
       = Inl (CapabilityPolicyError ''trust_level not allowed by policy: untrusted'')))
     (mcp_list sha v request name ru q)"
proof -
  have "returns (list_all (\<lambda>c. jget (cand_manifest c) ''trust_level'' = JStr ''untrusted''))
      (mcp_list sha v request name ru q)"
    unfolding mcp_list_def
    by (rule returns_bind [OF returns_any], rule returns_bind [OF returns_any], rule returns_bind [OF returns_any],
        rule returns_bind [OF returns_lift [OF mcp_servers_untrusted]], assumption, rule returns_return)
       (simp add: list_all_by_score)
  moreover have "enforce_install pol m = Inl (CapabilityPolicyError ''trust_level not allowed by policy: untrusted'')"
    if "jget m ''trust_level'' = JStr ''untrusted''" "''untrusted'' \<notin> set (trust_allow pol)" for m
    using that by (simp add: enforce_install_def)
  ultimately show ?thesis
    unfolding returns_def list_all_iff by (auto split: sum.splits)
qed

end
