(* ===== verification/Execution.thy ===== *)
theory Execution
  imports Discovery
begin

text \<open>
  src/execution.py: running a capability by the kind of its implementation. Subprocesses
  and imported Python callables are a parameter record; the guarded client, when there is
  one, is the one of egress.py, otherwise the request goes out directly.
\<close>

section \<open>What is outside\<close>

text \<open>
  A Python callable by the number of its parameters; any other number is refused. A call is
  an operation on the world: the callables of src/seed_tools.py read and write files.
\<close>

datatype pyfun = Fun1 "json \<Rightarrow> json io" | Fun2 "json \<Rightarrow> json \<Rightarrow> json io" | FunOther

record process_result =
  returncode :: int
  stdout :: string
  stderr :: string

text \<open>
  \<open>run_process argv env timeout s\<close> is what \<open>subprocess.run\<close> returns or raises on the files \<open>s\<close>,
  and the file systems the started program makes one after another: nothing is assumed about
  what a program does to the files. \<open>import_callable\<close> is the import of module and function, an
  exception when it fails, None when there is no such callable.
\<close>

record runtime_env =
  run_process :: "json list \<Rightarrow> (string \<times> string) list \<Rightarrow> flt \<Rightarrow> fs \<Rightarrow> process_result res \<times> fs list"
  import_callable :: "string \<Rightarrow> string \<Rightarrow> pyfun option res"
  os_environ :: "(string \<times> string) list"

definition http_call :: "egress_config option \<Rightarrow> transport \<Rightarrow> http_request \<Rightarrow> http_response io" where
  "http_call eg tr rq = (case eg of Some cfg \<Rightarrow> egress_request cfg tr rq | None \<Rightarrow> send tr rq)"

definition post_request :: "string \<Rightarrow> json \<Rightarrow> flt \<Rightarrow> http_request" where
  "post_request u body timeout = \<lparr>rq_method = ''POST'', rq_url = u, rq_json = Some body, rq_data = None,
     rq_headers = [], rq_timeout = timeout\<rparr>"

section \<open>Commands and callables\<close>

definition spawn ::
    "runtime_env \<Rightarrow> json list \<Rightarrow> (string \<times> string) list \<Rightarrow> flt \<Rightarrow> process_result io" where
  "spawn rt argv env timeout = (\<lambda>w. case run_process rt argv env timeout (w_fs w) of (r, h) \<Rightarrow>
     (r, w\<lparr>w_fs := last (w_fs w # h), w_hist := w_hist w @ h\<rparr>))"

text \<open>\<open>min(a, b)\<close>: the second argument only if it is smaller.\<close>

definition flt_min :: "flt \<Rightarrow> flt \<Rightarrow> flt" where
  "flt_min a b = (if flt_lt b a then b else a)"

definition safe_env :: "(string \<times> string) list \<Rightarrow> (string \<times> string) list" where
  "safe_env env = filter (\<lambda>(k, v). k \<in> set [''LANG'', ''LC_ALL'', ''TZ'']) env"

definition run_error :: "string \<Rightarrow> 'a res" where
  "run_error s = Inl (CapabilityRunError s)"

definition command_timeout :: "json \<Rightarrow> flt res" where
  "command_timeout manifest =
     rbind (py_get (py_or (jget manifest ''runtime'') (JObj [])) ''timeout_seconds'') (\<lambda>t.
     rbind (py_float (py_or t (JInt 30))) (\<lambda>f. Inr (flt_min f (Dec 3 2))))"

text \<open>\<open>except Exception as exc: raise CapabilityRunError(prefix + str(exc))\<close>\<close>

definition io_wrap :: "string \<Rightarrow> 'a io \<Rightarrow> 'a io" where
  "io_wrap prefix m = io_try m (\<lambda>e. io_raise (CapabilityRunError (prefix @ exc_text e)))"

definition run_command :: "runtime_env \<Rightarrow> json \<Rightarrow> json \<Rightarrow> json \<Rightarrow> json io" where
  "run_command rt impl manifest args =
     io_bind (io_lift (py_get (py_or (jget impl ''command'') (JObj [])) ''argv'')) (\<lambda>argv0.
     let argv = py_or argv0 (JArr []) in
     if \<not> is_list argv \<or> items argv = [] then io_raise (CapabilityRunError ''command.argv required'')
     else
       (let extra = py_or (jget args ''argv_extra'') (JArr []) in
        if truthy extra \<and> (\<not> is_list extra \<or> \<not> list_all is_str (items extra)) then
          io_raise (CapabilityRunError ''args.argv_extra must be a list of strings'')
        else
          io_bind (io_lift (command_timeout manifest)) (\<lambda>timeout.
          io_bind (io_wrap ''command execution failed: ''
             (spawn rt (items argv @ items extra) (safe_env (os_environ rt)) timeout)) (\<lambda>proc.
          io_return (JObj [(''returncode'', JInt (returncode proc)), (''stdout'', JStr (stdout proc)),
                           (''stderr'', JStr (stderr proc))])))))"

definition load_callable :: "runtime_env \<Rightarrow> string \<Rightarrow> pyfun res" where
  "load_callable rt spec =
     (let (module_name, found, fn_name) = partition_on (CHR '':'') spec in
      rbind (import_callable rt module_name fn_name) (\<lambda>fn.
      case fn of None \<Rightarrow> run_error (''python callable not found: '' @ spec) | Some f \<Rightarrow> Inr f))"

definition run_python :: "runtime_env \<Rightarrow> json \<Rightarrow> json \<Rightarrow> json \<Rightarrow> json io" where
  "run_python rt impl manifest args =
     io_bind (io_lift (py_get (py_or (jget impl ''python'') (JObj [])) ''callable'')) (\<lambda>spec.
     case spec of
       JStr s \<Rightarrow>
         if \<not> str_contains '':'' s then io_raise (CapabilityRunError ''python.callable required'')
         else
           io_bind (io_lift (load_callable rt s)) (\<lambda>fn.
           io_wrap ''python tool raised: ''
             (case fn of
                Fun1 f \<Rightarrow> f args
              | Fun2 f \<Rightarrow> f manifest args
              | FunOther \<Rightarrow> io_raise (CapabilityRunError ''python callable must accept (args) or (manifest, args)'')))
     | _ \<Rightarrow> io_raise (CapabilityRunError ''python.callable required''))"

section \<open>Remote tools\<close>

definition offers_tool :: "string \<Rightarrow> json list \<Rightarrow> bool" where
  "offers_tool tool_name tools =
     list_ex (\<lambda>t. is_dict t \<and> py_eq (jget t ''name'') (JStr tool_name)) tools"

definition call_tool :: "egress_config option \<Rightarrow> transport \<Rightarrow> json \<Rightarrow> json \<Rightarrow> string \<Rightarrow> json \<Rightarrow> json io" where
  "call_tool eg tr manifest base tool_name args =
     io_wrap ''mcp tool call failed: ''
       (let call_url = py_str base @ ''/tools/'' @ tool_name in
        io_bind (io_lift (enforce_manifest_network manifest call_url)) (\<lambda>_.
        io_bind (http_call eg tr (post_request call_url (JObj [(''arguments'', args)]) (Dec 1 1))) (\<lambda>r.
        io_lift (response_json r))))"

fun try_servers ::
    "egress_config option \<Rightarrow> transport \<Rightarrow> json \<Rightarrow> string \<Rightarrow> json \<Rightarrow> string option \<Rightarrow> json list \<Rightarrow> json io" where
  "try_servers eg tr manifest tool_name args server_id [] =
     io_raise (CapabilityRunError (''mcp tool not found: '' @ tool_name))"
| "try_servers eg tr manifest tool_name args server_id (server # ss) =
     (if \<not> is_dict server then io_raise (attribute_error server ''get'')
      else if (case server_id of None \<Rightarrow> False | Some sid \<Rightarrow> sid \<noteq> [] \<and> py_str (server_ident server) \<noteq> sid) then
        try_servers eg tr manifest tool_name args server_id ss
      else if \<not> truthy (server_base server) then
        try_servers eg tr manifest tool_name args server_id ss
      else
        io_bind (io_lift (py_iter (py_or (jget server ''tools'') (JArr [])))) (\<lambda>tools.
        if \<not> offers_tool tool_name tools then try_servers eg tr manifest tool_name args server_id ss
        else call_tool eg tr manifest (server_base server) tool_name args))"

definition run_mcp_tool ::
    "egress_config option \<Rightarrow> transport \<Rightarrow> json \<Rightarrow> string \<Rightarrow> string \<Rightarrow> json \<Rightarrow> string option \<Rightarrow> json io" where
  "run_mcp_tool eg tr manifest registry_url tool_name args server_id =
     io_bind (io_lift (enforce_manifest_network manifest registry_url)) (\<lambda>_.
     io_bind (io_wrap ''mcp discovery failed: ''
        (io_bind (http_call eg tr (get_request registry_url (Dec 5 0))) (\<lambda>r. io_lift (response_json r)))) (\<lambda>registry.
     io_bind (io_lift (registry_servers registry)) (\<lambda>servers.
     try_servers eg tr manifest tool_name args server_id servers)))"

definition run_a2a :: "egress_config option \<Rightarrow> transport \<Rightarrow> json \<Rightarrow> string \<Rightarrow> json \<Rightarrow> string \<Rightarrow> json io" where
  "run_a2a eg tr manifest endpoint args cap_id =
     io_bind (io_lift (enforce_manifest_network manifest endpoint)) (\<lambda>_.
     let envelope = JObj [(''type'', JStr ''a2a.request''), (''capability_id'', JStr cap_id), (''args'', args)] in
     io_wrap ''a2a call failed: ''
       (io_bind (http_call eg tr (post_request endpoint envelope (Dec 15 0))) (\<lambda>r. io_lift (response_json r))))"

section \<open>Dispatch\<close>

definition exec_mcp :: "egress_config option \<Rightarrow> transport \<Rightarrow> json \<Rightarrow> json \<Rightarrow> json \<Rightarrow> json io" where
  "exec_mcp eg tr impl manifest args =
     (let mcp = py_or (jget impl ''mcp'') (JObj []) in
      io_bind (io_lift (py_get mcp ''registry_url'')) (\<lambda>registry_url.
      let tool_name = jget mcp ''tool_name''; server_id = jget mcp ''server_id'' in
      if \<not> truthy registry_url \<or> \<not> truthy tool_name then
        io_raise (CapabilityRunError ''mcp.registry_url and mcp.tool_name required'')
      else
        run_mcp_tool eg tr manifest (py_str registry_url) (py_str tool_name) args
          (if truthy server_id then Some (py_str server_id) else None)))"

definition exec_a2a :: "egress_config option \<Rightarrow> transport \<Rightarrow> json \<Rightarrow> json \<Rightarrow> json \<Rightarrow> json io" where
  "exec_a2a eg tr impl manifest args =
     io_bind (io_lift (py_get (py_or (jget impl ''a2a'') (JObj [])) ''endpoint'')) (\<lambda>endpoint.
     if \<not> truthy endpoint then io_raise (CapabilityRunError ''a2a.endpoint required'')
     else run_a2a eg tr manifest (py_str endpoint) args (py_str (jget manifest ''id'')))"

definition exec_run :: "runtime_env \<Rightarrow> egress_config option \<Rightarrow> transport \<Rightarrow> json \<Rightarrow> json \<Rightarrow> json io" where
  "exec_run rt eg tr manifest args =
     (let impl = py_or (jget manifest ''implementation'') (JObj []) in
      io_bind (io_lift (py_get impl ''kind'')) (\<lambda>kind.
      if py_eq kind (JStr ''command'') then run_command rt impl manifest args
      else if py_eq kind (JStr ''python'') then run_python rt impl manifest args
      else if py_eq kind (JStr ''mcp_tool'') then exec_mcp eg tr impl manifest args
      else if py_eq kind (JStr ''a2a_rpc'') then exec_a2a eg tr impl manifest args
      else io_raise (CapabilityRunError (''unsupported implementation.kind: '' @ py_str kind))))"

section \<open>Lemmas\<close>

text \<open>What a running capability may call: what its manifest and the egress policy admit.\<close>

definition may_call :: "egress_config option \<Rightarrow> json \<Rightarrow> string \<Rightarrow> bool" where
  "may_call eg manifest u \<longleftrightarrow> network_permitted manifest u
     \<and> (case eg of None \<Rightarrow> True | Some cfg \<Rightarrow> egress_allowed cfg u)"

lemma permitted_call_sends:
  assumes "network_permitted manifest (rq_url rq)"
  shows "sends_only (may_call eg manifest) (http_call eg tr rq)"
proof (cases eg)
  case None
  with assms show ?thesis by (simp add: http_call_def sends_only_send may_call_def)
next
  case (Some cfg)
  show ?thesis
  proof (cases "check_url cfg (rq_url rq)")
    case (Inl e)
    with Some show ?thesis by (simp add: http_call_def egress_request_def sends_rules)
  next
    case (Inr u)
    then have "egress_allowed cfg (rq_url rq)" by (simp add: check_url_Inr)
    with Some Inr assms show ?thesis
      by (simp add: http_call_def egress_request_def sends_only_send may_call_def)
  qed
qed

lemma guarded_call_sends:
  assumes "rq_url rq = u" and "\<And>r. sends_only (may_call eg manifest) (k r)"
  shows "sends_only (may_call eg manifest)
     (io_bind (io_lift (enforce_manifest_network manifest u)) (\<lambda>_. io_bind (http_call eg tr rq) k))"
proof (cases "enforce_manifest_network manifest u")
  case (Inl e)
  then show ?thesis by (simp add: sends_rules)
next
  case (Inr x)
  then have "network_permitted manifest (rq_url rq)" by (simp add: enforce_manifest_network_Inr assms(1))
  with Inr assms(2) show ?thesis by (simp add: sends_only_bind permitted_call_sends)
qed

lemma sends_only_wrap [sends_rules]: "sends_only P m \<Longrightarrow> sends_only P (io_wrap p m)"
  unfolding io_wrap_def by (intro sends_rules)

lemma call_tool_sends: "sends_only (may_call eg manifest) (call_tool eg tr manifest base tool args)"
  unfolding call_tool_def Let_def
  by (intro sends_only_wrap guarded_call_sends sends_rules) (simp add: post_request_def)

lemma try_servers_sends: "sends_only (may_call eg manifest) (try_servers eg tr manifest tool args sid ss)"
  by (induction ss) (auto intro!: sends_rules call_tool_sends split: option.split)

lemma run_mcp_tool_sends: "sends_only (may_call eg manifest) (run_mcp_tool eg tr manifest ru tool args sid)"
proof (cases "enforce_manifest_network manifest ru")
  case (Inl e)
  then show ?thesis by (simp add: run_mcp_tool_def sends_rules)
next
  case (Inr u)
  then have "network_permitted manifest (rq_url (get_request ru (Dec 5 0)))"
    by (simp add: enforce_manifest_network_Inr get_request_def)
  with Inr show ?thesis
    unfolding run_mcp_tool_def by (simp, intro sends_rules try_servers_sends permitted_call_sends)
qed

lemma run_a2a_sends: "sends_only (may_call eg manifest) (run_a2a eg tr manifest endpoint args cid)"
proof (cases "enforce_manifest_network manifest endpoint")
  case (Inl e)
  then show ?thesis by (simp add: run_a2a_def sends_rules)
next
  case (Inr u)
  then have "network_permitted manifest (rq_url (post_request endpoint body t))" for body t
    by (simp add: enforce_manifest_network_Inr post_request_def)
  with Inr show ?thesis
    unfolding run_a2a_def Let_def by (simp, intro sends_rules permitted_call_sends)
qed

text \<open>What the callables of a runtime may send.\<close>

definition callables_send :: "(string \<Rightarrow> bool) \<Rightarrow> runtime_env \<Rightarrow> bool" where
  "callables_send P rt \<longleftrightarrow> (\<forall>m n. case import_callable rt m n of
     Inr (Some (Fun1 f)) \<Rightarrow> \<forall>a. sends_only P (f a)
   | Inr (Some (Fun2 f)) \<Rightarrow> \<forall>x a. sends_only P (f x a)
   | _ \<Rightarrow> True)"

lemma load_callable_Inr:
  "load_callable rt spec = Inr fn \<Longrightarrow> \<exists>m n. import_callable rt m n = Inr (Some fn)"
  by (auto simp: load_callable_def run_error_def result_simps split: prod.splits option.splits)

lemma run_python_sends:
  assumes "callables_send P rt"
  shows "sends_only P (run_python rt impl manifest args)"
proof -
  have call: "sends_only P (io_bind (io_lift (load_callable rt s)) (\<lambda>fn. io_wrap x (case fn of
      Fun1 f \<Rightarrow> f args | Fun2 f \<Rightarrow> f manifest args | FunOther \<Rightarrow> io_raise e)))" for s x e
  proof (cases "load_callable rt s")
    case (Inr fn)
    then obtain m n where "import_callable rt m n = Inr (Some fn)" using load_callable_Inr by blast
    with assms have "case fn of Fun1 f \<Rightarrow> \<forall>a. sends_only P (f a) | Fun2 f \<Rightarrow> \<forall>x a. sends_only P (f x a) | _ \<Rightarrow> True"
      unfolding callables_send_def by (metis (no_types, lifting) option.simps(5) sum.simps(6))
    with Inr show ?thesis by (cases fn) (auto intro!: sends_rules)
  qed (simp add: sends_rules)
  show ?thesis
    unfolding run_python_def
    by (intro sends_rules) (auto split: json.split intro!: sends_rules call)
qed

text \<open>Starting a program sends nothing from this process.\<close>

lemma spawn_rest:
  "w_sent (snd (spawn rt argv env t w)) = w_sent w" "w_log (snd (spawn rt argv env t w)) = w_log w"
  "w_nonces (snd (spawn rt argv env t w)) = w_nonces w"
  by (simp_all add: spawn_def split: prod.split)

lemma run_command_silent: "sends_only P (run_command rt impl manifest args)"
  unfolding run_command_def Let_def by (intro sends_rules sends_only_silent spawn_rest(1))

lemma exec_run_sends:
  assumes "callables_send P rt" and "\<And>u. may_call eg manifest u \<Longrightarrow> P u"
  shows "sends_only P (exec_run rt eg tr manifest args)"
  unfolding exec_run_def exec_mcp_def exec_a2a_def Let_def
  by (intro sends_rules run_command_silent run_python_sends [OF assms(1)] sends_only_mono [OF run_mcp_tool_sends assms(2)]
        sends_only_mono [OF run_a2a_sends assms(2)])

section \<open>Properties\<close>

text \<open>
  When the Python callables respect it, running a capability of any kind sends only
  requests to URLs that the network permissions of its manifest admit and, when there is an
  egress policy, that the policy admits too, whatever the registry answers.
\<close>

theorem execution_network_confined:
  assumes "callables_send (may_call eg manifest) rt"
  shows "sends_only (may_call eg manifest) (exec_run rt eg tr manifest args)"
  by (rule exec_run_sends [OF assms])

text \<open>
  A capability that is a command runs as a process at most: with the environment cut
  down to the three locale variables and a timeout that is never above 300 seconds, so two
  systems that agree on such calls give the same result and leave the same files; and this
  process sends no request for it.
\<close>

theorem command_confined:
  assumes "\<And>argv env t. set (map fst env) \<subseteq> {''LANG'', ''LC_ALL'', ''TZ''} \<Longrightarrow> \<not> flt_lt (Dec 3 2) t \<Longrightarrow>
      run_process rt argv env t = run_process rt' argv env t"
    and "os_environ rt' = os_environ rt"
    and "jget (jget manifest ''implementation'') ''kind'' = JStr ''command''"
  shows "exec_run rt eg tr manifest args w = exec_run rt' eg tr manifest args w
    \<and> w_sent (snd (exec_run rt eg tr manifest args w)) = w_sent w"
proof -
  have env: "set (map fst (safe_env e)) \<subseteq> {''LANG'', ''LC_ALL'', ''TZ''}" for e
    by (auto simp: safe_env_def)
  have min: "\<not> flt_lt (Dec 3 2) (flt_min f (Dec 3 2))" for f
    by (auto simp: flt_min_def flt_lt_def dec_le_def)
  have bound: "\<not> flt_lt (Dec 3 2) t" if "command_timeout m = Inr t" for m t
    using that min by (auto simp: command_timeout_def result_simps)
  have step: "io_bind (io_lift (command_timeout m)) (\<lambda>t. io_bind (io_wrap x (spawn rt argv (safe_env e) t)) k)
      = io_bind (io_lift (command_timeout m)) (\<lambda>t. io_bind (io_wrap x (spawn rt' argv (safe_env e) t)) k)"
    for m x argv e and k :: "process_result \<Rightarrow> json io"
    by (cases "command_timeout m") (simp_all add: spawn_def assms(1) [OF env bound])
  have same: "run_command rt impl m a = run_command rt' impl m a" for impl m a
    by (simp only: run_command_def Let_def step assms(2))
  have "truthy (jget manifest ''implementation'')" "is_dict (jget manifest ''implementation'')"
    using assms(3) by (cases "jget manifest ''implementation''"; auto simp: jget_def get_or_def)+
  then have run: "exec_run rt eg tr manifest args = run_command rt (jget manifest ''implementation'') manifest args"
    for rt
    using assms(3) by (simp add: exec_run_def py_or_def py_get_def)
  have "w_sent (snd (run_command rt impl manifest args w)) = w_sent w" for impl
    using run_command_silent [of "\<lambda>_. False" rt impl manifest args] unfolding sends_only_def
    by (metis append_Nil2 list.set_intros(1) neq_Nil_conv)
  then show ?thesis using same by (simp add: run)
qed

text \<open>A system that would notice one leaked variable.\<close>

definition quiet_runtime :: "(string \<times> string) list \<Rightarrow> runtime_env" where
  "quiet_runtime bad = \<lparr>run_process = (\<lambda>argv env t s. if bad \<noteq> [] \<and> env = bad
       then (Inl (PyError ValueError ''leak''), []) else (Inr \<lparr>returncode = 0, stdout = [], stderr = []\<rparr>, [])),
     import_callable = (\<lambda>m f. Inr None), os_environ = [(''LANG'', ''C''), (''SECRET'', ''s'')]\<rparr>"

definition list_manifest :: json where
  "list_manifest = JObj [(''implementation'',
     JObj [(''kind'', JStr ''command''), (''command'', JObj [(''argv'', JArr [JStr ''ls''])])])]"

lemma command_confined_witness:
  "exec_run (quiet_runtime []) None (\<lambda>rq. Inl url_error) list_manifest (JObj []) blank_world
    = exec_run (quiet_runtime [(''SECRET'', ''s'')]) None (\<lambda>rq. Inl url_error) list_manifest (JObj []) blank_world
   \<and> w_sent (snd (exec_run (quiet_runtime []) None (\<lambda>rq. Inl url_error) list_manifest (JObj []) blank_world))
       = w_sent blank_world"
  by (rule command_confined) (auto simp: quiet_runtime_def list_manifest_def jget_def get_or_def)

lemma execution_network_confined_witness:
  "sends_only (may_call None list_manifest) (exec_run (quiet_runtime []) None (\<lambda>rq. Inl url_error) list_manifest (JObj []))"
  by (rule execution_network_confined) (simp add: callables_send_def quiet_runtime_def)

end
