(* ===== verification/Governance.thy ===== *)
theory Governance
  imports Policy
begin

text \<open>
  src/governance.py: validation of a governed manifest, authorization of one execution and
  the replay guard. Time is in microseconds since the epoch. \<open>datetime.fromisoformat\<close> is a
  parameter: it maps a text to nothing (ValueError), to a time without offset or to an
  instant.
\<close>

section \<open>Validation of the governance block\<close>

definition required_manifest_fields :: "string list" where
  "required_manifest_fields =
     [''actions'', ''data_read'', ''data_write'', ''recipient_classes'', ''execution_location'',
      ''risk'', ''reversible'', ''cost_ceiling'', ''confirmation'', ''accessibility'',
      ''audit'', ''retention'', ''egress'', ''filesystem'', ''devices'', ''timeout_seconds'',
      ''resource_limits'', ''signature'', ''revocation_id'']"

definition governance_version_v1 :: string where
  "governance_version_v1 = ''unison.capability-governance.v1''"

definition forbidden_authority :: "string list" where
  "forbidden_authority = [''*'', ''/'', ''/**'', ''0.0.0.0/0'', ''::/0'']"

text \<open>\<open>bool(forbidden.intersection(j))\<close>: every item of \<open>j\<close> is hashed.\<close>

definition intersects :: "string list \<Rightarrow> json \<Rightarrow> bool res" where
  "intersects ss j = rbind (py_iter j) (\<lambda>xs.
     rbind (rmapM (\<lambda>x. in_str_set x ss) xs) (\<lambda>hits. Inr (list_ex id hits)))"

definition validate_governance_manifest :: "json \<Rightarrow> json res" where
  "validate_governance_manifest manifest =
     (let governance = jget manifest ''governance'' in
      if \<not> py_eq (jget manifest ''governance_version'') (JStr governance_version_v1) \<or> \<not> is_dict governance then
        policy_error ''legacy or unknown capability governance is disabled''
      else
        (let missing = sort (filter (\<lambda>k. \<not> has_key governance k) required_manifest_fields) in
         if missing \<noteq> [] then
           policy_error (''incomplete capability governance: '' @ str_join '', '' missing)
         else
           rbind (in_str_set (jget governance ''execution_location'') [''device'', ''sandboxed-container'']) (\<lambda>loc.
           if \<not> loc then policy_error ''unknown execution location''
           else
           rbind (in_str_set (jget governance ''risk'') [''low'', ''medium'', ''high'', ''critical'']) (\<lambda>risk.
           if \<not> risk then policy_error ''unknown capability risk''
           else
           rbind (py_float (jget governance ''timeout_seconds'')) (\<lambda>t.
           if flt_le t (Dec 0 0) \<or> flt_lt (Dec 3 2) t then
             policy_error ''capability timeout is outside the bounded range''
           else
           rbind (intersects forbidden_authority (jget governance ''filesystem'')) (\<lambda>fs_broad.
           rbind (if fs_broad then Inr True
                  else intersects forbidden_authority (jget governance ''egress'')) (\<lambda>broad.
           if broad then policy_error ''broad filesystem or egress authority is prohibited''
           else if \<not> truthy (jget governance ''signature'') \<or> \<not> truthy (jget governance ''revocation_id'') then
             policy_error ''signature and revocation identity are required''
           else Inr manifest)))))))"

section \<open>Authorizing one execution\<close>

datatype iso_time = Naive int | Aware int

record clock_env =
  iso_parse :: "string \<Rightarrow> iso_time option"
  now_us :: int

definition authority_required :: "string list" where
  "authority_required =
     [''decision_id'', ''outcome'', ''principal_id'', ''assistant_id'', ''action'', ''grant_id'',
      ''expires_at'', ''nonce'']"

text \<open>\<open>datetime.fromisoformat(x) <= datetime.now(timezone.utc)\<close>\<close>

definition expired :: "clock_env \<Rightarrow> json \<Rightarrow> bool res" where
  "expired env x =
     (case x of
        JStr s \<Rightarrow> (case iso_parse env s of
            None \<Rightarrow> Inl (PyError ValueError (''Invalid isoformat string: '' @ repr_str s))
          | Some (Naive t) \<Rightarrow> Inl (type_error (''can'' @ [CHR 0x27] @ ''t compare offset-naive and offset-aware datetimes''))
          | Some (Aware t) \<Rightarrow> Inr (t \<le> now_us env))
      | _ \<Rightarrow> Inl (type_error ''fromisoformat: argument must be str''))"

text \<open>\<open>x in revoked\<close> for the set of revoked identities; None and the empty set are skipped.\<close>

definition revoked_hit :: "string list option \<Rightarrow> json \<Rightarrow> bool res" where
  "revoked_hit revoked x =
     (case revoked of None \<Rightarrow> Inr False | Some rs \<Rightarrow> if rs = [] then Inr False else in_str_set x rs)"

definition authorize_execution ::
    "clock_env \<Rightarrow> json \<Rightarrow> json \<Rightarrow> string list option \<Rightarrow> unit res" where
  "authorize_execution env manifest authority revoked =
     rbind (validate_governance_manifest manifest) (\<lambda>_.
     let governance = jget manifest ''governance'';
         missing = sort (filter (\<lambda>k. \<not> truthy (jget authority k)) authority_required) in
     if missing \<noteq> [] then
       policy_error (''incomplete execution authority: '' @ str_join '', '' missing)
     else if \<not> py_eq (jget authority ''outcome'') (JStr ''allow'') then
       policy_error ''trust decision does not allow execution''
     else
       rbind (py_in (jget authority ''action'') (jget governance ''actions'')) (\<lambda>declared.
       if \<not> declared then policy_error ''manifest does not declare the requested action''
       else
       rbind (expired env (jget authority ''expires_at'')) (\<lambda>late.
       if late then policy_error ''execution authority expired''
       else
       rbind (revoked_hit revoked (jget governance ''revocation_id'')) (\<lambda>hit.
       if hit then policy_error ''capability is revoked'' else Inr ()))))"

section \<open>The replay guard\<close>

text \<open>\<open>_seen\<close> is a set of nonces; \<open>consume\<close> returns the set it leaves.\<close>

definition consume :: "string \<Rightarrow> string list \<Rightarrow> string list res" where
  "consume nonce seen =
     (if nonce \<in> set seen then policy_error ''execution authority replayed''
      else Inr (nonce # seen))"

text \<open>A run of requests: which of them the guard accepts.\<close>

fun consume_all :: "string list \<Rightarrow> string list \<Rightarrow> string list \<times> string list" where
  "consume_all seen [] = ([], seen)"
| "consume_all seen (n # ns) =
     (case consume n seen of
        Inl e \<Rightarrow> consume_all seen ns
      | Inr seen' \<Rightarrow> (case consume_all seen' ns of (acc, final) \<Rightarrow> (n # acc, final)))"

section \<open>Lemmas\<close>

lemma if_policy_Inr [result_simps]:
  "(if c then policy_error s else r) = Inr a \<longleftrightarrow> \<not> c \<and> r = Inr a"
  by simp

lemma if_short_circuit [result_simps]:
  "(if b then Inr True else r) = Inr False \<longleftrightarrow> \<not> b \<and> r = Inr False"
  by simp

section \<open>What the policy says\<close>

text \<open>
  The rules without the order of the checks, and in terms of the values rather than of
  Python's operations on them. A timeout is a number, or a text that denotes one, in
  (0, 300]; that a NaN is one of them is not meant, but it is what the code accepts.
\<close>

fun seconds_ok :: "flt \<Rightarrow> bool" where
  "seconds_ok (Dec m e) = (0 < m \<and> m * 10 ^ nat e \<le> 300 * 10 ^ nat (- e))"
| "seconds_ok NaN = True"
| "seconds_ok _ = False"

fun timeout_ok :: "json \<Rightarrow> bool" where
  "timeout_ok (JInt i) = (0 < i \<and> i \<le> 300)"
| "timeout_ok (JFloat f) = seconds_ok f"
| "timeout_ok (JStr s) = (case float_of_str s of Some f \<Rightarrow> seconds_ok f | None \<Rightarrow> False)"
| "timeout_ok (JBool b) = b"
| "timeout_ok _ = False"

text \<open>A grant that names none of the five broad authorities; a text is read as a list of characters.\<close>

fun narrow :: "json \<Rightarrow> bool" where
  "narrow (JArr xs) = list_all (\<lambda>x. case x of
     JStr s \<Rightarrow> s \<noteq> ''*'' \<and> s \<noteq> ''/'' \<and> s \<noteq> ''/**'' \<and> s \<noteq> ''0.0.0.0/0'' \<and> s \<noteq> ''::/0''
   | JArr ys \<Rightarrow> False | JObj kvs \<Rightarrow> False | _ \<Rightarrow> True) xs"
| "narrow (JObj kvs) = list_all (\<lambda>(k, v). k \<noteq> ''*'' \<and> k \<noteq> ''/'' \<and> k \<noteq> ''/**'' \<and> k \<noteq> ''0.0.0.0/0'' \<and> k \<noteq> ''::/0'') kvs"
| "narrow (JStr s) = (CHR ''*'' \<notin> set s \<and> CHR ''/'' \<notin> set s)"
| "narrow _ = False"

definition governed :: "json \<Rightarrow> bool" where
  "governed m \<longleftrightarrow>
     (let g = jget m ''governance'' in
      jget m ''governance_version'' = JStr ''unison.capability-governance.v1'' \<and> is_dict g
      \<and> {''accessibility'', ''actions'', ''audit'', ''confirmation'', ''cost_ceiling'', ''data_read'', ''data_write'',
          ''devices'', ''egress'', ''execution_location'', ''filesystem'', ''recipient_classes'', ''resource_limits'',
          ''retention'', ''reversible'', ''revocation_id'', ''risk'', ''signature'', ''timeout_seconds''} \<subseteq> fst ` set (entries g)
      \<and> jget g ''execution_location'' \<in> {JStr ''device'', JStr ''sandboxed-container''}
      \<and> jget g ''risk'' \<in> {JStr ''low'', JStr ''medium'', JStr ''high'', JStr ''critical''}
      \<and> timeout_ok (jget g ''timeout_seconds'')
      \<and> narrow (jget g ''filesystem'') \<and> narrow (jget g ''egress'')
      \<and> truthy (jget g ''signature'') \<and> truthy (jget g ''revocation_id''))"

text \<open>The action is one of the declared ones: an item of a list, a key, or a part of a text.\<close>

fun declared :: "json \<Rightarrow> json \<Rightarrow> bool" where
  "declared x (JArr ys) = list_ex (py_eq x) ys"
| "declared (JStr s) (JObj kvs) = (s \<in> fst ` set kvs)"
| "declared (JStr s) (JStr t) = (\<exists>a b. t = a @ s @ b)"
| "declared _ _ = False"

definition authorized :: "clock_env \<Rightarrow> json \<Rightarrow> json \<Rightarrow> string list option \<Rightarrow> bool" where
  "authorized env m a revoked \<longleftrightarrow>
     governed m
     \<and> (let g = jget m ''governance'' in
        truthy (jget a ''decision_id'') \<and> truthy (jget a ''principal_id'') \<and> truthy (jget a ''assistant_id'')
        \<and> truthy (jget a ''action'') \<and> truthy (jget a ''grant_id'') \<and> truthy (jget a ''nonce'')
        \<and> jget a ''outcome'' = JStr ''allow''
        \<and> declared (jget a ''action'') (jget g ''actions'')
        \<and> (case jget a ''expires_at'' of JStr s \<Rightarrow>
              s \<noteq> [] \<and> (case iso_parse env s of Some (Aware t) \<Rightarrow> now_us env < t | _ \<Rightarrow> False) | _ \<Rightarrow> False)
        \<and> (case revoked of
              None \<Rightarrow> True
            | Some rs \<Rightarrow> rs = [] \<or> (case jget g ''revocation_id'' of
                JStr s \<Rightarrow> s \<notin> set rs | JArr ys \<Rightarrow> False | JObj kvs \<Rightarrow> False | _ \<Rightarrow> True)))"

section \<open>The code against the rules\<close>

lemma dec_norm_value:
  "dec_norm m e = Dec a b \<Longrightarrow> if m = 0 then a = 0 else e \<le> b \<and> m = a * 10 ^ nat (b - e)"
proof (induction m e arbitrary: a b rule: dec_norm.induct)
  case (1 m e)
  show ?case
  proof (cases "m \<noteq> 0 \<and> m mod 10 = 0")
    case True
    then have "m div 10 \<noteq> 0" by auto
    with 1 True have "e + 1 \<le> b" "m div 10 = a * 10 ^ nat (b - (e + 1))"
      by (auto simp: dec_norm.simps [of m e])
    moreover have "nat (b - e) = Suc (nat (b - (e + 1)))" using \<open>e + 1 \<le> b\<close> by simp
    moreover have "m = m div 10 * 10" using True by auto
    ultimately show ?thesis using True by simp
  next
    case False
    with 1(2) show ?thesis by (auto simp: dec_norm.simps [of m e] split: if_splits)
  qed
qed

lemma dec_norm_Dec: "\<exists>a b. dec_norm m e = Dec a b"
  by (induction m e rule: dec_norm.induct) (simp add: dec_norm.simps)

lemma dec_le_bound: "dec_le m e 3 2 \<longleftrightarrow> m * 10 ^ nat e \<le> 300 * 10 ^ nat (- e)"
proof -
  consider "2 \<le> e" | "e = 1" | "e \<le> 0" by linarith
  then show ?thesis
  proof cases
    case 1
    then have "nat e = nat (e - 2) + 2" by simp
    then have p: "(10::int) ^ nat e = 10 ^ nat (e - 2) * 100" by (simp add: power_add)
    show ?thesis using 1 by (simp add: dec_le_def p)
  next
    case 3
    then have "nat (2 - e) = nat (- e) + 2" by simp
    then have "(10::int) ^ nat (2 - e) = 10 ^ nat (- e) * 100" by (simp add: power_add)
    with 3 show ?thesis by (simp add: dec_le_def)
  qed (simp add: dec_le_def)
qed

lemma dec_le_zero: "dec_le m e 0 0 \<longleftrightarrow> m \<le> 0"
proof -
  have "m * c \<le> 0 \<longleftrightarrow> m \<le> 0" if "0 < c" for c :: int using that by (auto simp: mult_le_0_iff)
  then show ?thesis by (simp only: dec_le_def Let_def mult_zero_left) simp
qed

lemma seconds_code: "\<not> flt_le t (Dec 0 0) \<and> \<not> flt_lt (Dec 3 2) t \<longleftrightarrow> seconds_ok t"
  by (cases t) (auto simp: flt_lt_def dec_le_zero dec_le_bound)

lemma seconds_int: "seconds_ok (flt_of_int i) \<longleftrightarrow> 0 < i \<and> i \<le> 300"
proof -
  obtain a b where ab: "dec_norm i 0 = Dec a b" using dec_norm_Dec by blast
  note v = dec_norm_value [OF ab]
  show ?thesis
  proof (cases "i = 0")
    case False
    from v False have "0 \<le> b" "i = a * 10 ^ nat b" by simp_all
    have "seconds_ok (Dec a b) \<longleftrightarrow> 0 < a \<and> a * 10 ^ nat b \<le> 300" using \<open>0 \<le> b\<close> by simp
    moreover have "0 < a * 10 ^ nat b \<longleftrightarrow> 0 < a" by (simp add: zero_less_mult_iff)
    ultimately show ?thesis unfolding flt_of_int_def ab using \<open>i = a * 10 ^ nat b\<close> by simp
  qed (simp add: flt_of_int_def dec_norm.simps)
qed

lemma timeout_code:
  "(case py_float x of Inl e \<Rightarrow> False | Inr t \<Rightarrow> \<not> flt_le t (Dec 0 0) \<and> \<not> flt_lt (Dec 3 2) t) \<longleftrightarrow> timeout_ok x"
proof (cases x)
  case (JInt i)
  have "i \<le> 300 \<Longrightarrow> 0 < i \<Longrightarrow> \<bar>i\<bar> < float_overflow" by (simp add: float_overflow_def)
  with JInt seconds_int [of i] show ?thesis by (auto simp: seconds_code)
next
  case (JBool b)
  then show ?thesis by (simp add: seconds_code)
qed (simp_all add: seconds_code split: option.split)

lemma rmapM_hits:
  "rbind (rmapM (\<lambda>x. in_str_set x ss) xs) (\<lambda>hits. Inr (list_ex id hits)) = Inr False
     \<longleftrightarrow> list_all (\<lambda>x. in_str_set x ss = Inr False) xs"
proof (induction xs)
  case (Cons x xs)
  then show ?case
    by (cases "in_str_set x ss"; cases "rmapM (\<lambda>x. in_str_set x ss) xs") auto
qed simp

lemma not_forbidden:
  "in_str_set x forbidden_authority = Inr False \<longleftrightarrow> (case x of
     JStr s \<Rightarrow> s \<noteq> ''*'' \<and> s \<noteq> ''/'' \<and> s \<noteq> ''/**'' \<and> s \<noteq> ''0.0.0.0/0'' \<and> s \<noteq> ''::/0''
   | JArr ys \<Rightarrow> False | JObj kvs \<Rightarrow> False | _ \<Rightarrow> True)"
  by (cases x) (auto simp: in_str_set_def forbidden_authority_def)

lemma narrow_code: "intersects forbidden_authority x = Inr False \<longleftrightarrow> narrow x"
proof (cases x)
  case (JStr s)
  have "list_all (\<lambda>y. in_str_set y forbidden_authority = Inr False) (map (\<lambda>c. JStr [c]) s)
      \<longleftrightarrow> CHR ''*'' \<notin> set s \<and> CHR ''/'' \<notin> set s"
    unfolding not_forbidden by (auto simp: list_all_iff)
  with JStr show ?thesis by (simp add: intersects_def rmapM_hits)
next
  case (JObj kvs)
  then show ?thesis by (simp add: intersects_def rmapM_hits not_forbidden) (auto simp: list_all_iff)
qed (simp_all add: intersects_def rmapM_hits not_forbidden)

lemma location_code:
  "in_str_set x ss = Inr True \<longleftrightarrow> x \<in> JStr ` set ss"
  by (cases x) (auto simp: in_str_set_def)

lemma fields_code:
  "list_all (has_key g) required_manifest_fields \<longleftrightarrow>
     {''accessibility'', ''actions'', ''audit'', ''confirmation'', ''cost_ceiling'', ''data_read'', ''data_write'',
      ''devices'', ''egress'', ''execution_location'', ''filesystem'', ''recipient_classes'', ''resource_limits'',
      ''retention'', ''reversible'', ''revocation_id'', ''risk'', ''signature'', ''timeout_seconds''} \<subseteq> fst ` set (entries g)"
  by (simp add: required_manifest_fields_def has_key_def map_of_eq_None_iff) blast

lemma declared_code: "py_in x c = Inr True \<longleftrightarrow> declared x c"
  by (cases c; cases x) (auto simp: str_contains_iff)

lemma revoked_code:
  "revoked_hit revoked x = Inr False \<longleftrightarrow> (case revoked of
      None \<Rightarrow> True
    | Some rs \<Rightarrow> rs = [] \<or> (case x of JStr s \<Rightarrow> s \<notin> set rs | JArr ys \<Rightarrow> False | JObj kvs \<Rightarrow> False | _ \<Rightarrow> True))"
  by (cases x) (auto simp: revoked_hit_def in_str_set_def split: option.split)

lemma sort_filter_Nil: "sort (filter P xs) = [] \<longleftrightarrow> list_all (\<lambda>x. \<not> P x) xs"
  by (metis filter_empty_conv list_all_iff sort_key_simps(1) length_0_conv length_sort)

lemma governed_code:
  "governed m \<longleftrightarrow>
     (let g = jget m ''governance'' in
      jget m ''governance_version'' = JStr governance_version_v1 \<and> is_dict g
      \<and> list_all (has_key g) required_manifest_fields
      \<and> in_str_set (jget g ''execution_location'') [''device'', ''sandboxed-container''] = Inr True
      \<and> in_str_set (jget g ''risk'') [''low'', ''medium'', ''high'', ''critical''] = Inr True
      \<and> (case py_float (jget g ''timeout_seconds'') of
           Inl e \<Rightarrow> False | Inr t \<Rightarrow> \<not> flt_le t (Dec 0 0) \<and> \<not> flt_lt (Dec 3 2) t)
      \<and> intersects forbidden_authority (jget g ''filesystem'') = Inr False
      \<and> intersects forbidden_authority (jget g ''egress'') = Inr False
      \<and> truthy (jget g ''signature'') \<and> truthy (jget g ''revocation_id''))"
  unfolding governed_def Let_def timeout_code narrow_code fields_code location_code governance_version_v1_def
  by (simp only: list.set image_insert image_empty)

lemma validate_governance_Inr: "validate_governance_manifest m = Inr m' \<longleftrightarrow> m' = m \<and> governed m"
proof -
  let ?g = "jget m ''governance''"
  have t: "(case py_float x of Inl e \<Rightarrow> False | Inr t \<Rightarrow> P t) \<longleftrightarrow> (\<exists>t. py_float x = Inr t \<and> P t)" for x P
    by (cases "py_float x") auto
  show ?thesis
    unfolding validate_governance_manifest_def governed_code Let_def t
    by (simp only: result_simps sort_filter_Nil py_eq_JStr_iff de_Morgan_disj not_not
        ex_simps simp_thms ex_bool_eq if_True if_False sum.inject) auto
qed

lemma expired_False: "expired env x = Inr False \<longleftrightarrow>
    (case x of JStr s \<Rightarrow> (case iso_parse env s of Some (Aware t) \<Rightarrow> now_us env < t | _ \<Rightarrow> False) | _ \<Rightarrow> False)"
  by (auto simp: expired_def split: json.splits option.splits iso_time.splits)

lemma authorized_code:
  "authorized env m a revoked \<longleftrightarrow>
     governed m
     \<and> list_all (\<lambda>k. truthy (jget a k)) authority_required
     \<and> jget a ''outcome'' = JStr ''allow''
     \<and> py_in (jget a ''action'') (jget (jget m ''governance'') ''actions'') = Inr True
     \<and> expired env (jget a ''expires_at'') = Inr False
     \<and> revoked_hit revoked (jget (jget m ''governance'') ''revocation_id'') = Inr False"
proof -
  have out: "jget a ''outcome'' = JStr ''allow'' \<Longrightarrow> truthy (jget a ''outcome'')" by simp
  have exp: "truthy x \<and> expired env x = Inr False \<longleftrightarrow> (case x of JStr s \<Rightarrow>
      s \<noteq> [] \<and> (case iso_parse env s of Some (Aware t) \<Rightarrow> now_us env < t | _ \<Rightarrow> False) | _ \<Rightarrow> False)" for x
    by (cases x) (simp_all add: expired_False)
  show ?thesis
    unfolding authorized_def Let_def declared_code revoked_code authority_required_def exp [symmetric]
    using out by auto
qed

lemma authorize_execution_Inr: "authorize_execution env m a r = Inr u \<longleftrightarrow> authorized env m a r"
  unfolding authorize_execution_def authorized_code Let_def
  by (simp only: result_simps sort_filter_Nil py_eq_JStr_iff validate_governance_Inr not_not
      ex_simps simp_thms ex_bool_eq) auto

lemma consume_Inr [result_simps]: "consume n seen = Inr seen' \<longleftrightarrow> n \<notin> set seen \<and> seen' = n # seen"
  by (auto simp: consume_def)

lemma consume_all_accepted:
  "consume_all seen ns = (acc, final) \<Longrightarrow>
     distinct acc \<and> set acc \<inter> set seen = {} \<and> set acc = set ns - set seen \<and> set final = set seen \<union> set ns"
proof (induction ns arbitrary: seen acc final)
  case Nil
  then show ?case by simp
next
  case (Cons n ns)
  show ?case
  proof (cases "consume n seen")
    case (Inl e)
    then have "n \<in> set seen" by (auto simp: consume_def split: if_splits)
    with Inl Cons show ?thesis by fastforce
  next
    case (Inr seen')
    then have seen': "n \<notin> set seen" "seen' = n # seen" by (auto simp: result_simps)
    obtain acc' where rec: "consume_all seen' ns = (acc', final)" and acc: "acc = n # acc'"
      using Cons.prems Inr by (auto split: prod.splits)
    from Cons.IH [OF rec] seen' acc show ?thesis by auto
  qed
qed

section \<open>Properties\<close>

text \<open>
  C15: an execution is authorized exactly when the rules say so: the manifest is governed
  (current version, all nineteen fields, known location and risk, a timeout in (0, 300] or
  NaN, which the range check lets pass, no broad filesystem or egress grant, signature and
  revocation identity), the authority has all its eight fields, its outcome is allow, its
  action is one the manifest declares, it expires strictly after now, and the capability is
  not revoked. Every path that is not one of these ends in an exception.
\<close>

theorem authorize_exact:
  "authorize_execution env m a revoked = Inr () \<longleftrightarrow> authorized env m a revoked"
  by (rule authorize_execution_Inr)

text \<open>
  The replay guard accepts each nonce at most once over any sequence of requests,
  accepts every nonce that was not used before, and never forgets one.
\<close>

theorem replay_guard_once:
  "case consume_all seen ns of (acc, final) \<Rightarrow>
     distinct acc \<and> set acc = set ns - set seen \<and> set final = set seen \<union> set ns"
  by (cases "consume_all seen ns") (use consume_all_accepted in auto)

text \<open>The governed manifest of the test-suite, with a timeout to be filled in.\<close>

definition sample_governance :: "json \<Rightarrow> json" where
  "sample_governance t = JObj
     [(''actions'', JArr [JStr ''draft'']), (''data_read'', JArr []), (''data_write'', JArr []),
      (''recipient_classes'', JArr []), (''execution_location'', JStr ''device''), (''risk'', JStr ''low''),
      (''reversible'', JBool True), (''cost_ceiling'', JStr ''0''), (''confirmation'', JStr ''draft-first''),
      (''accessibility'', JObj []), (''audit'', JObj []), (''retention'', JObj []),
      (''egress'', JArr []), (''filesystem'', JArr []), (''devices'', JArr []), (''timeout_seconds'', t),
      (''resource_limits'', JObj []), (''signature'', JStr ''sha256:test''), (''revocation_id'', JStr ''cap:1'')]"

definition sample_manifest :: "json \<Rightarrow> json" where
  "sample_manifest t = JObj [(''governance_version'', JStr governance_version_v1), (''governance'', sample_governance t)]"

text \<open>
  A timeout of NaN passes the range check although the check is there to keep the
  timeout in (0, 300]: both comparisons with NaN are false. Every finite timeout outside the
  range is refused.
\<close>

theorem nan_timeout_accepted:
  "validate_governance_manifest (sample_manifest (JFloat NaN)) = Inr (sample_manifest (JFloat NaN))
   \<and> validate_governance_manifest (sample_manifest (JInt 301))
       = Inl (CapabilityPolicyError ''capability timeout is outside the bounded range'')
   \<and> validate_governance_manifest (sample_manifest (JFloat PosInf))
       = Inl (CapabilityPolicyError ''capability timeout is outside the bounded range'')"
  by code_simp

text \<open>
  A manifest that conforms to the manifest schema is never governed, because the
  schema closes the top-level object and has no \<open>governance_version\<close>: whatever the
  authority says, authorization of a schema-valid manifest fails closed with the legacy
  error.
\<close>

theorem schema_valid_never_authorized:
  assumes "schema_conforms m"
  shows "authorize_execution env m a revoked
    = Inl (CapabilityPolicyError ''legacy or unknown capability governance is disabled'')"
  using governance_not_in_schema [OF assms]
  by (simp add: authorize_execution_def validate_governance_manifest_def py_eq_def Let_def policy_error_def)

lemma schema_valid_never_authorized_witness:
  "authorize_execution \<lparr>iso_parse = (\<lambda>s. Some (Aware 1)), now_us = 0\<rparr> demo_manifest (JObj [(''outcome'', JStr ''allow'')]) None
    = Inl (CapabilityPolicyError ''legacy or unknown capability governance is disabled'')"
  by (rule schema_valid_never_authorized [OF demo_manifest_conforms])

end
