(* ===== verification/Catalog.thy ===== *)
theory Catalog
  imports Store
begin

text \<open>
  The catalog operations of src/store.py against their specification on dictionaries: each
  is an atomic update of the local catalog under every schedule of file errors and every
  crash, and leaves the shipped catalog alone.
\<close>

section \<open>Views\<close>

text \<open>What a catalog file holds, as loading it without a file error gives.\<close>

definition catalog_at :: "validator \<Rightarrow> path \<Rightarrow> fs \<Rightarrow> catalog res" where
  "catalog_at v p s =
     (case fs_get s p of
        None \<Rightarrow> Inr []
      | Some DirN \<Rightarrow> Inl (CapabilityManifestError (''invalid catalog json: '' @ path_str p))
      | Some (FileN d) \<Rightarrow> rbind (parse_json d) (catalog_of_json v p))"

definition local_view :: "validator \<Rightarrow> capability_store \<Rightarrow> fs \<Rightarrow> catalog res" where
  "local_view v st s = catalog_at v (local_catalog st) s"

definition base_view :: "validator \<Rightarrow> capability_store \<Rightarrow> fs \<Rightarrow> catalog res" where
  "base_view v st s = catalog_at v (base_catalog st) s"

text \<open>What is read back of a catalog that was written.\<close>

definition reread :: "catalog \<Rightarrow> catalog" where
  "reread d = map (map_prod id sort_json) d"

definition res_map :: "('a \<Rightarrow> 'b) \<Rightarrow> 'a res \<Rightarrow> 'b res" where
  "res_map f r = rbind r (\<lambda>a. Inr (f a))"

lemma res_map_simps [simp]: "res_map f (Inr a) = Inr (f a)" "res_map f (Inl e) = Inl e"
  by (simp_all add: res_map_def)

lemma dget_reread: "dget (reread d) k = map_option sort_json (dget d k)"
  by (simp add: reread_def map_of_map_prod)

lemma keys_reread [simp]: "map fst (reread d) = map fst d"
  by (simp add: reread_def)

text \<open>The catalogs that loading produces: valid manifests under their own identifiers.\<close>

definition entry_good :: "validator \<Rightarrow> string \<Rightarrow> json \<Rightarrow> bool" where
  "entry_good v k m \<longleftrightarrow> is_dict m \<and> json_ok m \<and> v m = [] \<and> str_or_empty (jget m ''id'') = k \<and> k \<noteq> []"

definition cat_good :: "validator \<Rightarrow> catalog \<Rightarrow> bool" where
  "cat_good v d \<longleftrightarrow> dict_ok d \<and> (\<forall>(k, m) \<in> set d. entry_good v k m)"

lemma cat_good_Nil [simp]: "cat_good v []"
  by (simp add: cat_good_def)

lemma cat_good_dset: "cat_good v d \<Longrightarrow> entry_good v k m \<Longrightarrow> cat_good v (dset k m d)"
  using set_dset_subset [of k m d] by (auto simp: cat_good_def)

lemma cat_good_dpop: "cat_good v d \<Longrightarrow> cat_good v (dpop k d)"
  using set_dpop_subset [of k d] by (auto simp: cat_good_def)

lemma cat_good_get: "cat_good v d \<Longrightarrow> dget d k = Some m \<Longrightarrow> entry_good v k m"
  by (auto simp: cat_good_def dest: dget_mem)

lemma collect_good:
  "collect v out xs = Inr d \<Longrightarrow> cat_good v out \<Longrightarrow> (\<forall>x \<in> set xs. json_ok x) \<Longrightarrow> cat_good v d"
proof (induction v out xs rule: collect.induct)
  case (1 v out)
  then show ?case by simp
next
  case (2 v out item rest)
  let ?cid = "str_or_empty (jget item ''id'')"
  have good: "cat_good v (dset ?cid item out)"
    if "is_dict item" "v item = []" "?cid \<noteq> []"
    using 2 that by (auto intro!: cat_good_dset simp: entry_good_def)
  then show ?case
    using 2 by (auto simp: result_simps Let_def split: if_splits)
qed

lemma catalog_of_json_good: "catalog_of_json v p raw = Inr d \<Longrightarrow> json_ok raw \<Longrightarrow> cat_good v d"
proof -
  assume c: "catalog_of_json v p raw = Inr d" and ok: "json_ok raw"
  have "json_ok (jget raw ''capabilities'')" by (rule json_ok_jget [OF ok])
  then have items: "\<forall>x \<in> set (items (jget raw ''capabilities'')). json_ok x"
    by (cases "jget raw ''capabilities''") (auto simp: list_all_iff)
  from c have dict: "is_dict raw" by (auto simp: catalog_of_json_def split: if_splits)
  then have "\<not> is_list raw" by (cases raw) auto
  with c dict have "collect v [] (items (if jget raw ''capabilities'' = JNull then JArr [] else jget raw ''capabilities'')) = Inr d"
    by (auto simp: catalog_of_json_def Let_def split: if_splits)
  then show ?thesis
    by (rule collect_good) (use items in \<open>auto split: if_splits\<close>)
qed

definition docs_ok :: "fs \<Rightarrow> bool" where
  "docs_ok s \<longleftrightarrow> list_all (\<lambda>(p, n). case n of FileN (Doc j) \<Rightarrow> json_ok j | _ \<Rightarrow> True) s"

lemma docs_okD: "docs_ok s \<Longrightarrow> fs_get s p = Some (FileN (Doc j)) \<Longrightarrow> json_ok j"
  unfolding docs_ok_def fs_get_def list_all_iff by (drule map_of_SomeD) (fastforce split: node.splits fdata.splits)

text \<open>The same for one file.\<close>

definition doc_ok_at :: "path \<Rightarrow> fs \<Rightarrow> bool" where
  "doc_ok_at p s \<longleftrightarrow> (case fs_get s p of Some (FileN (Doc j)) \<Rightarrow> json_ok j | _ \<Rightarrow> True)"

lemma docs_ok_at: "docs_ok s \<Longrightarrow> doc_ok_at p s"
  by (auto simp: doc_ok_at_def dest: docs_okD split: option.splits node.splits fdata.splits)

lemma catalog_at_good: "doc_ok_at p s \<Longrightarrow> catalog_at v p s = Inr d \<Longrightarrow> cat_good v d"
  by (auto simp: catalog_at_def parse_json_def doc_ok_at_def dest: catalog_of_json_good
      split: option.splits node.splits fdata.splits)

section \<open>Writing and reading back\<close>

lemma update_fresh: "k \<notin> fst ` set d \<Longrightarrow> dset k v d = d @ [(k, v)]"
  by (induction d) auto

context manifest_validator
begin

lemma errors_sort_json: "json_ok m \<Longrightarrow> iter_errors (sort_json m) = [] \<longleftrightarrow> iter_errors m = []"
  by (simp add: exact schema_conforms_sort_json)

lemma entry_good_reread:
  assumes "entry_good iter_errors k m"
  shows "entry_good iter_errors k (sort_json m)"
proof -
  from assms have "schema_conforms m" by (simp add: entry_good_def exact)
  then obtain s where "jget m ''id'' = JStr s" using conforms_id by blast
  with assms show ?thesis
    by (simp add: entry_good_def errors_sort_json jget_sort_json json_ok_sort_json)
qed

lemma cat_good_reread: "cat_good iter_errors d \<Longrightarrow> cat_good iter_errors (reread d)"
  unfolding cat_good_def dict_ok_def
  by (auto simp: reread_def dest!: bspec intro: entry_good_reread simp del: map_map)

lemma collect_reread:
  assumes "cat_good iter_errors (out @ d)"
  shows "collect iter_errors out (map (\<lambda>p. sort_json (snd p)) d) = Inr (out @ reread d)"
  using assms
proof (induction d arbitrary: out)
  case Nil
  then show ?case by (simp add: reread_def)
next
  case (Cons p d)
  obtain k m where p: "p = (k, m)" by (cases p)
  from Cons.prems p have g: "entry_good iter_errors k m" by (auto simp: cat_good_def)
  note g' = entry_good_reread [OF g]
  from Cons.prems p have fresh: "k \<notin> fst ` set out" by (auto simp: cat_good_def dict_ok_def)
  have "cat_good iter_errors ((out @ [(k, sort_json m)]) @ d)"
    using Cons.prems p g' by (auto simp: cat_good_def dict_ok_def)
  from Cons.IH [OF this] show ?case
    using g' p fresh by (simp add: entry_good_def result_simps validate_manifest_valid update_fresh reread_def Let_def)
qed

lemma written_catalog:
  assumes "cat_good iter_errors d"
  shows "catalog_of_json iter_errors p (sort_json (catalog_payload d)) = Inr (reread d)"
proof -
  have "sort_json (catalog_payload d)
      = JObj [(''capabilities'', JArr (map (\<lambda>p. sort_json (snd p)) d)), (''catalog_version'', JStr ''catalog.v1'')]"
    by (simp add: catalog_payload_def comp_def)
  with collect_reread [of "[]" d] assms show ?thesis
    by (simp add: catalog_of_json_def jget_def get_or_def)
qed

end

section \<open>Loading\<close>

lemma triple_read_json:
  assumes "I s0"
  shows "triple I (\<lambda>w. w_fs w = s0) (read_json p)
     (\<lambda>j w. w_fs w = s0 \<and> fs_get s0 p = Some (FileN (Doc j))) (\<lambda>_ w. w_fs w = s0)"
proof -
  have rd: "triple I (\<lambda>w. w_fs w = s0) (read_file p)
     (\<lambda>d w. w_fs w = s0 \<and> fs_get s0 p = Some (FileN d)) (\<lambda>_ w. w_fs w = s0)"
    unfolding read_file_def
    by (rule triple_prim [where P = "\<lambda>s. s = s0" and Q = "\<lambda>d s. s = s0 \<and> fs_get s0 p = Some (FileN d)"
          and E = "\<lambda>_ s. s = s0"])
       (use assms in \<open>auto split: option.splits node.splits\<close>)
  show ?thesis
    unfolding read_json_def
    by (rule triple_bind [OF rd], rule triple_lift) (auto simp: parse_json_def split: fdata.splits)
qed

lemma triple_load:
  assumes "I s0" and "p \<noteq> []"
  shows "triple I (\<lambda>w. w_fs w = s0) (load_catalog_file v p)
     (\<lambda>d w. w_fs w = s0 \<and> catalog_at v p s0 = Inr d) (\<lambda>_ w. w_fs w = s0)"
proof -
  have ex: "triple I (\<lambda>w. w_fs w = s0) (exists_io p)
      (\<lambda>e w. w_fs w = s0 \<and> e = path_exists s0 p) (\<lambda>_ w. w_fs w = s0)"
    unfolding exists_io_def by (rule triple_get) simp
  have rd: "triple I (\<lambda>w. w_fs w = s0) (io_try (read_json p) (\<lambda>exc. io_raise (h exc)))
     (\<lambda>j w. w_fs w = s0 \<and> fs_get s0 p = Some (FileN (Doc j))) (\<lambda>_ w. w_fs w = s0)" for h
    by (rule triple_try [OF triple_read_json [of I s0, OF assms(1)]]) (rule triple_raise, simp)
  have body: "triple I (\<lambda>w. w_fs w = s0)
      (io_bind (io_try (read_json p) (\<lambda>exc. io_raise (h exc))) (\<lambda>raw. io_lift (catalog_of_json v p raw)))
      (\<lambda>d w. w_fs w = s0 \<and> catalog_at v p s0 = Inr d) (\<lambda>_ w. w_fs w = s0)" for h
    by (rule triple_bind [OF rd], rule triple_lift) (auto simp: catalog_at_def parse_json_def)
  show ?thesis
    unfolding load_catalog_file_def
  proof (rule triple_bind [OF ex])
    fix e
    show "triple I (\<lambda>w. w_fs w = s0 \<and> e = path_exists s0 p)
      (if \<not> e then io_return []
       else io_bind (io_try (read_json p) (\<lambda>exc. io_raise (CapabilityManifestError
              (''invalid catalog json: '' @ path_str p @ '': '' @ exc_text exc)))) (\<lambda>raw. io_lift (catalog_of_json v p raw)))
      (\<lambda>d w. w_fs w = s0 \<and> catalog_at v p s0 = Inr d) (\<lambda>_ w. w_fs w = s0)"
    proof (cases e)
      case True
      then show ?thesis
        by (simp, intro triple_weaken [OF body]) auto
    next
      case False
      then show ?thesis
        using assms(2) by (auto intro!: triple_return simp: path_exists_def catalog_at_def)
    qed
  qed
qed

text \<open>Without file errors loading gives exactly the view.\<close>

lemma load_no_faults:
  assumes "w_faults w = []" and "p \<noteq> []" and "catalog_at v p (w_fs w) = Inr d"
  shows "\<exists>w'. load_catalog_file v p w = (Inr d, w') \<and> w_fs w' = w_fs w \<and> w_faults w' = []"
  using assms
  by (auto simp: load_catalog_file_def exists_io_def read_json_def read_file_def prim_def io_defs path_exists_def
      catalog_at_def parse_json_def split: option.splits node.splits fdata.splits sum.splits)

section \<open>Atomic updates of the local catalog\<close>

definition tmp_catalog :: "string \<Rightarrow> capability_store \<Rightarrow> path" where
  "tmp_catalog token st = tmp_for (local_catalog st) token"

text \<open>Either the old or the new catalog, with everything else kept.\<close>

definition cat_atomic :: "validator \<Rightarrow> capability_store \<Rightarrow> fs \<Rightarrow> catalog res \<Rightarrow> fs \<Rightarrow> bool" where
  "cat_atomic v st s0 new s \<longleftrightarrow> local_view v st s = local_view v st s0 \<or> local_view v st s = new"

lemma local_catalog_not_Nil [simp]: "local_catalog st \<noteq> []"
  by (simp add: local_catalog_def)

context manifest_validator
begin

lemma triple_write_local:
  assumes d: "cat_good iter_errors d" and new: "new = Inr (reread d)"
  shows "triple (cat_atomic iter_errors st s0 new) (\<lambda>w. w_fs w = s0) (write_local_catalog token st d)
     (\<lambda>_ w. local_view iter_errors st (w_fs w) = new
        \<and> keeps {local_catalog st, tmp_catalog token st} s0 (w_fs w))
     (\<lambda>_ w. cat_atomic iter_errors st s0 new (w_fs w)
        \<and> keeps {local_catalog st, tmp_catalog token st} s0 (w_fs w))"
proof -
  let ?p = "local_catalog st" and ?d = "Doc (sort_json (catalog_payload d))"
  have view: "local_view iter_errors st s = new" if "fs_get s ?p = Some (FileN ?d)" for s
    using that written_catalog [OF d, of ?p] new by (simp add: local_view_def catalog_at_def parse_json_def)
  have same: "local_view iter_errors st s = local_view iter_errors st s0" if "fs_get s ?p = fs_get s0 ?p" for s
    using that by (simp add: local_view_def catalog_at_def)
  have step: "cat_atomic iter_errors st s0 new s" if "old_or_new ?p (fs_get s0 ?p) ?d s" for s
    using that view [of s] same [of s] unfolding old_or_new_def cat_atomic_def by blast
  have inv: "triple I P m Q E \<Longrightarrow> (\<And>s. I s \<Longrightarrow> J s) \<Longrightarrow> triple J P m Q E" for I J P Q E and m :: "unit io"
    unfolding triple_def steps_ok_def by blast
  have finished: "fs_get s ?p = Some (FileN ?d) \<and> keeps {?p, tmp_catalog token st} s0 s"
    if "aw_stage ?p (tmp_for ?p token) ?d s0 2 s" for s
    using that by (simp add: aw_stage_def aw_frame_def tmp_catalog_def)
  have failed: "old_or_new ?p (fs_get s0 ?p) ?d s \<and> keeps {?p, tmp_catalog token st} s0 s"
    if "aw_stage ?p (tmp_for ?p token) ?d s0 3 s" for s
    using that by (simp add: aw_stage_def aw_frame_def tmp_catalog_def)
  note wr = inv [OF atomic_write_text_triple [OF local_catalog_not_Nil, of st s0 ?d token] step]
  show ?thesis
    unfolding write_local_catalog_def atomic_write_json_def
    by (rule triple_weaken [OF wr]) (use view step finished failed in blast)+
qed

text \<open>Load, change, write back.\<close>

lemma triple_local_update:
  assumes ok: "doc_ok_at (local_catalog st) s0"
    and good: "\<And>l. cat_good iter_errors l \<Longrightarrow> cat_good iter_errors (f l)"
    and new: "new = res_map (\<lambda>l. reread (f l)) (local_view iter_errors st s0)"
  shows "triple (cat_atomic iter_errors st s0 new) (\<lambda>w. w_fs w = s0)
     (io_bind (load_local_catalog iter_errors st) (\<lambda>l. write_local_catalog token st (f l)))
     (\<lambda>_ w. local_view iter_errors st (w_fs w) = new
        \<and> keeps {local_catalog st, tmp_catalog token st} s0 (w_fs w))
     (\<lambda>_ w. cat_atomic iter_errors st s0 new (w_fs w)
        \<and> keeps {local_catalog st, tmp_catalog token st} s0 (w_fs w))"
proof (rule triple_bind)
  show "triple (cat_atomic iter_errors st s0 new) (\<lambda>w. w_fs w = s0) (load_local_catalog iter_errors st)
      (\<lambda>l w. w_fs w = s0 \<and> local_view iter_errors st s0 = Inr l)
      (\<lambda>_ w. cat_atomic iter_errors st s0 new (w_fs w)
        \<and> keeps {local_catalog st, tmp_catalog token st} s0 (w_fs w))"
    unfolding load_local_catalog_def
    by (rule triple_weaken [OF triple_load]) (auto simp: cat_atomic_def local_view_def)
next
  fix l
  show "triple (cat_atomic iter_errors st s0 new) (\<lambda>w. w_fs w = s0 \<and> local_view iter_errors st s0 = Inr l)
      (write_local_catalog token st (f l))
      (\<lambda>_ w. local_view iter_errors st (w_fs w) = new
        \<and> keeps {local_catalog st, tmp_catalog token st} s0 (w_fs w))
      (\<lambda>_ w. cat_atomic iter_errors st s0 new (w_fs w)
        \<and> keeps {local_catalog st, tmp_catalog token st} s0 (w_fs w))"
  proof (cases "local_view iter_errors st s0 = Inr l")
    case True
    then have "cat_good iter_errors l" using catalog_at_good [OF ok] by (simp add: local_view_def)
    from triple_write_local [OF good [OF this], of new st s0 token] True new show ?thesis
      by (auto intro: triple_weaken)
  qed (rule triple_vacuous, simp)
qed

end


section \<open>The operations\<close>

text \<open>Setting the enabled flag keeps a manifest conforming.\<close>

lemma opt_key_jset: "opt_key k P (jset k' x m) = (if k = k' then P x else opt_key k P m)"
  by (simp add: opt_key_def)

lemma has_key_jset: "has_key (jset k x m) k' = (k' = k \<or> has_key m k')"
  by (simp add: has_key_def)

lemma closed_obj_jset: "closed_obj req allowed m \<Longrightarrow> k \<in> set allowed \<Longrightarrow> closed_obj req allowed (jset k x m)"
  using set_dset_subset [of k x "entries m"]
  by (auto simp: closed_obj_def req_keys_def only_keys_def list_all_iff has_key_jset)

lemma conforms_set_enabled: "schema_conforms m \<Longrightarrow> schema_conforms (jset ''enabled'' (JBool b) m)"
  unfolding schema_conforms_def opt_key_jset
  by (auto intro!: closed_obj_jset simp: manifest_properties_def)

lemma entry_good_set_enabled:
  assumes "manifest_validator v" and "entry_good v k m"
  shows "entry_good v k (jset ''enabled'' (JBool b) m)"
  using assms conforms_set_enabled [of m b] manifest_validator.exact [OF assms(1)]
  by (simp add: entry_good_def json_ok_jset)

text \<open>The specifications: what an operation makes of the local catalog.\<close>

definition put_spec :: "json \<Rightarrow> catalog \<Rightarrow> catalog" where
  "put_spec m l = reread (dset (str_or_empty (jget m ''id'')) m l)"

definition del_spec :: "string \<Rightarrow> catalog \<Rightarrow> catalog" where
  "del_spec k l = (if dget l k = None then l else reread (dpop k l))"

definition enable_spec :: "string \<Rightarrow> bool \<Rightarrow> catalog \<Rightarrow> catalog \<Rightarrow> catalog" where
  "enable_spec k b base l =
     (case dget (dupdate base l) k of None \<Rightarrow> l | Some m \<Rightarrow> put_spec (jset ''enabled'' (JBool b) m) l)"

text \<open>The frame of every catalog operation: only the catalog file and its temporary file change.\<close>

abbreviation cat_frame :: "string \<Rightarrow> capability_store \<Rightarrow> fs \<Rightarrow> fs \<Rightarrow> bool" where
  "cat_frame token st \<equiv> keeps {local_catalog st, tmp_catalog token st}"

lemma triple_load_view:
  assumes "I s0" and "p \<noteq> []"
  shows "triple I (\<lambda>w. w_fs w = s0 \<and> B) (load_catalog_file v p)
     (\<lambda>d w. (w_fs w = s0 \<and> B) \<and> catalog_at v p s0 = Inr d) (\<lambda>_ w. w_fs w = s0)"
proof (cases B)
  case True
  then show ?thesis using triple_load [of I s0 p v, OF assms] by simp
qed (rule triple_vacuous, simp)

lemma triple_merged:
  assumes "I s0" and "base_catalog st \<noteq> []"
  shows "triple I (\<lambda>w. w_fs w = s0) (merged_catalog v st)
     (\<lambda>d w. w_fs w = s0 \<and> (\<exists>b l. base_view v st s0 = Inr b \<and> local_view v st s0 = Inr l \<and> d = dupdate b l))
     (\<lambda>_ w. w_fs w = s0)"
proof -
  have 1: "triple I (\<lambda>w. w_fs w = s0) (load_base_catalog v st)
      (\<lambda>b w. w_fs w = s0 \<and> base_view v st s0 = Inr b) (\<lambda>_ w. w_fs w = s0)"
    unfolding load_base_catalog_def base_view_def by (rule triple_load [of I s0, OF assms])
  have 2: "triple I (\<lambda>w. w_fs w = s0 \<and> base_view v st s0 = Inr b) (load_local_catalog v st)
      (\<lambda>l w. (w_fs w = s0 \<and> base_view v st s0 = Inr b) \<and> local_view v st s0 = Inr l) (\<lambda>_ w. w_fs w = s0)" for b
    unfolding load_local_catalog_def local_view_def
    by (rule triple_load_view [of I s0, OF assms(1) local_catalog_not_Nil])
  show ?thesis
    unfolding merged_catalog_def
    by (rule triple_bind [OF 1 triple_bind [OF 2]], rule triple_return) auto
qed

context manifest_validator
begin

lemma good_local: "doc_ok_at (local_catalog st) s \<Longrightarrow> local_view iter_errors st s = Inr l \<Longrightarrow> cat_good iter_errors l"
  using catalog_at_good by (simp add: local_view_def)

lemma good_base: "doc_ok_at (base_catalog st) s \<Longrightarrow> base_view iter_errors st s = Inr l \<Longrightarrow> cat_good iter_errors l"
  using catalog_at_good by (simp add: base_view_def)

lemma good_merged: "cat_good iter_errors b \<Longrightarrow> cat_good iter_errors l \<Longrightarrow> cat_good iter_errors (dupdate b l)"
proof (induction l arbitrary: b)
  case Nil
  then show ?case by simp
next
  case (Cons p l)
  obtain k m where p: "p = (k, m)" by (cases p)
  with Cons.prems have "entry_good iter_errors k m" "cat_good iter_errors l"
    by (auto simp: cat_good_def dict_ok_def)
  with Cons.IH [of "dset k m b"] Cons.prems p show ?case by (simp add: cat_good_dset)
qed

lemma valid_entry: "json_ok m \<Longrightarrow> iter_errors m = [] \<Longrightarrow> entry_good iter_errors (str_or_empty (jget m ''id'')) m"
  using conforms_id [of m] conforms_dict [of m] by (auto simp: entry_good_def exact)

lemma triple_upsert:
  assumes ok: "doc_ok_at (local_catalog st) s0" "json_ok m"
    and new: "new = res_map (put_spec m) (local_view iter_errors st s0)"
  shows "triple (cat_atomic iter_errors st s0 new) (\<lambda>w. w_fs w = s0) (upsert_local iter_errors token st m)
     (\<lambda>_ w. iter_errors m = [] \<and> local_view iter_errors st (w_fs w) = new \<and> cat_frame token st s0 (w_fs w))
     (\<lambda>_ w. cat_atomic iter_errors st s0 new (w_fs w) \<and> cat_frame token st s0 (w_fs w))"
proof (cases "iter_errors m = []")
  case True
  note m = valid_entry [OF ok(2) True]
  have "triple (cat_atomic iter_errors st s0 new) (\<lambda>w. w_fs w = s0)
     (io_bind (load_local_catalog iter_errors st)
        (\<lambda>l. write_local_catalog token st (dset (str_or_empty (jget m ''id'')) m l)))
     (\<lambda>_ w. local_view iter_errors st (w_fs w) = new \<and> cat_frame token st s0 (w_fs w))
     (\<lambda>_ w. cat_atomic iter_errors st s0 new (w_fs w) \<and> cat_frame token st s0 (w_fs w))"
    by (rule triple_local_update [OF ok(1)]) (use m new in \<open>auto intro: cat_good_dset simp: put_spec_def [abs_def]\<close>)
  with True m show ?thesis
    by (simp add: upsert_local_def validate_manifest_valid entry_good_def Let_def)
next
  case False
  then obtain e where "validate_manifest iter_errors m = Inl e"
    by (cases "validate_manifest iter_errors m") (auto simp: result_simps)
  then show ?thesis
    by (simp add: upsert_local_def) (rule triple_raise, simp add: cat_atomic_def)
qed

lemma triple_delete:
  assumes ok: "doc_ok_at (local_catalog st) s0" and new: "new = res_map (del_spec k) (local_view iter_errors st s0)"
  shows "triple (cat_atomic iter_errors st s0 new) (\<lambda>w. w_fs w = s0) (delete_local iter_errors token st k)
     (\<lambda>b w. local_view iter_errors st (w_fs w) = new \<and> cat_frame token st s0 (w_fs w)
        \<and> (\<exists>l. local_view iter_errors st s0 = Inr l \<and> b = (dget l k \<noteq> None) \<and> (b \<or> w_fs w = s0)))
     (\<lambda>_ w. cat_atomic iter_errors st s0 new (w_fs w) \<and> cat_frame token st s0 (w_fs w))"
  unfolding delete_local_def
proof (rule triple_bind)
  show "triple (cat_atomic iter_errors st s0 new) (\<lambda>w. w_fs w = s0) (load_local_catalog iter_errors st)
      (\<lambda>l w. w_fs w = s0 \<and> local_view iter_errors st s0 = Inr l)
      (\<lambda>_ w. cat_atomic iter_errors st s0 new (w_fs w) \<and> cat_frame token st s0 (w_fs w))"
    unfolding load_local_catalog_def
    by (rule triple_weaken [OF triple_load]) (auto simp: cat_atomic_def local_view_def)
next
  fix l
  let ?Q = "\<lambda>b w. local_view iter_errors st (w_fs w) = new \<and> cat_frame token st s0 (w_fs w)
        \<and> (\<exists>l. local_view iter_errors st s0 = Inr l \<and> b = (dget l k \<noteq> None) \<and> (b \<or> w_fs w = s0))"
  let ?E = "\<lambda>_ w. cat_atomic iter_errors st s0 new (w_fs w) \<and> cat_frame token st s0 (w_fs w)"
  show "triple (cat_atomic iter_errors st s0 new) (\<lambda>w. w_fs w = s0 \<and> local_view iter_errors st s0 = Inr l)
      (if dget l k = None then io_return False
       else io_bind (write_local_catalog token st (dpop k l)) (\<lambda>_. io_return True)) ?Q ?E"
  proof (cases "local_view iter_errors st s0 = Inr l")
    case l: True
    show ?thesis
    proof (cases "dget l k = None")
      case True
      with l new show ?thesis by (auto intro!: triple_return simp: del_spec_def)
    next
      case False
      note good = cat_good_dpop [OF good_local [OF ok l], of k]
      have n: "new = Inr (reread (dpop k l))" using new l False by (simp add: del_spec_def)
      have wr: "triple (cat_atomic iter_errors st s0 new) (\<lambda>w. w_fs w = s0) (write_local_catalog token st (dpop k l))
          (\<lambda>_ w. local_view iter_errors st (w_fs w) = new \<and> cat_frame token st s0 (w_fs w)) ?E"
        by (rule triple_write_local [OF good n])
      have "triple (cat_atomic iter_errors st s0 new) (\<lambda>w. w_fs w = s0)
          (io_bind (write_local_catalog token st (dpop k l)) (\<lambda>_. io_return True)) ?Q ?E"
        by (rule triple_bind [OF wr], rule triple_return) (use l False in simp)
      with False show ?thesis by (auto elim: triple_weaken)
    qed
  qed (rule triple_vacuous, simp)
qed

lemma triple_set_enabled:
  assumes ok: "doc_ok_at (local_catalog st) s0" "doc_ok_at (base_catalog st) s0" and base: "base_catalog st \<noteq> []"
    and new: "new = rbind (base_view iter_errors st s0) (\<lambda>b. res_map (enable_spec k e b) (local_view iter_errors st s0))"
  shows "triple (cat_atomic iter_errors st s0 new) (\<lambda>w. w_fs w = s0) (set_local_enabled iter_errors token st k e)
     (\<lambda>_ w. local_view iter_errors st (w_fs w) = new \<and> cat_frame token st s0 (w_fs w)
        \<and> (\<exists>b l m. base_view iter_errors st s0 = Inr b \<and> local_view iter_errors st s0 = Inr l
             \<and> dget (dupdate b l) k = Some m))
     (\<lambda>_ w. cat_atomic iter_errors st s0 new (w_fs w) \<and> cat_frame token st s0 (w_fs w))"
  unfolding set_local_enabled_def
proof (rule triple_bind)
  show "triple (cat_atomic iter_errors st s0 new) (\<lambda>w. w_fs w = s0) (merged_catalog iter_errors st)
     (\<lambda>d w. w_fs w = s0 \<and> (\<exists>b l. base_view iter_errors st s0 = Inr b \<and> local_view iter_errors st s0 = Inr l
        \<and> d = dupdate b l))
     (\<lambda>_ w. cat_atomic iter_errors st s0 new (w_fs w) \<and> cat_frame token st s0 (w_fs w))"
    by (rule triple_weaken [OF triple_merged]) (auto simp: cat_atomic_def base)
next
  fix d
  let ?Q = "\<lambda>_ w. local_view iter_errors st (w_fs w) = new \<and> cat_frame token st s0 (w_fs w)
        \<and> (\<exists>b l m. base_view iter_errors st s0 = Inr b \<and> local_view iter_errors st s0 = Inr l
             \<and> dget (dupdate b l) k = Some m)"
  let ?E = "\<lambda>_ w. cat_atomic iter_errors st s0 new (w_fs w) \<and> cat_frame token st s0 (w_fs w)"
  show "triple (cat_atomic iter_errors st s0 new)
      (\<lambda>w. w_fs w = s0 \<and> (\<exists>b l. base_view iter_errors st s0 = Inr b \<and> local_view iter_errors st s0 = Inr l
        \<and> d = dupdate b l))
      (case dget d k of None \<Rightarrow> io_raise (CapabilityNotFoundError (''capability not found: '' @ k))
       | Some m \<Rightarrow> upsert_local iter_errors token st (jset ''enabled'' (JBool e) m)) ?Q ?E"
  proof (cases "\<exists>b l. base_view iter_errors st s0 = Inr b \<and> local_view iter_errors st s0 = Inr l \<and> d = dupdate b l")
    case True
    then obtain b l where bl: "base_view iter_errors st s0 = Inr b" "local_view iter_errors st s0 = Inr l"
      and d: "d = dupdate b l" by blast
    show ?thesis
    proof (cases "dget d k")
      case None
      then show ?thesis by (auto intro!: triple_raise simp: cat_atomic_def)
    next
      case (Some m)
      have g: "entry_good iter_errors k m"
        using good_merged [OF good_base [OF ok(2) bl(1)] good_local [OF ok(1) bl(2)]] d Some cat_good_get by blast
      then have j: "json_ok (jset ''enabled'' (JBool e) m)" by (simp add: entry_good_def json_ok_jset)
      have n: "new = res_map (put_spec (jset ''enabled'' (JBool e) m)) (local_view iter_errors st s0)"
        using new bl d Some by (simp add: enable_spec_def)
      from triple_upsert [OF ok(1) j n, of token] Some bl d show ?thesis
        by (auto elim!: triple_weaken)
    qed
  qed (rule triple_vacuous, simp)
qed

end

section \<open>Writes that return\<close>

text \<open>A directory all of whose ancestors exist, and a store whose catalog can be written.\<close>

definition dir_ready :: "fs \<Rightarrow> path \<Rightarrow> bool" where
  "dir_ready s p \<longleftrightarrow> list_all (\<lambda>q. fs_get s q = Some DirN) (prefixes_of p)"

lemma dir_ready_mk_dirs: "list_all (\<lambda>q. fs_get s q = Some DirN) ps \<Longrightarrow> mk_dirs ps s = Inr s"
  by (induction ps) auto

lemma dir_ready_is_dir: "dir_ready s p \<Longrightarrow> is_dir s p"
  using self_in_prefixes [of p] by (auto simp: dir_ready_def is_dir_def list_all_iff)

lemma atomic_write_text_returns:
  assumes "w_faults w = []" and "p \<noteq> []" and "dir_ready (w_fs w) (parent p)"
    and "fs_get (w_fs w) (tmp_for p token) = None" and "fs_get (w_fs w) p \<noteq> Some DirN"
  shows "\<exists>w'. atomic_write_text token p d w = (Inr (), w') \<and> w_faults w' = []
     \<and> (\<forall>q. fs_get (w_fs w') q = (if q = p then Some (FileN d) else fs_get (w_fs w) q))"
proof -
  let ?tmp = "tmp_for p token"
  have neq: "?tmp \<noteq> p" "p \<noteq> ?tmp" using tmp_for_neq [OF assms(2), of token] by auto
  have tmp: "?tmp \<noteq> []" by (simp add: tmp_for_def)
  have mk: "mk_dirs (prefixes_of (parent p)) (w_fs w) = Inr (w_fs w)"
    using assms(3) by (simp add: dir_ready_def dir_ready_mk_dirs)
  note par = dir_ready_is_dir [OF assms(3)]
  have par_neq: "parent p \<noteq> ?tmp" by (simp add: tmp_for_def)
  show ?thesis
    using assms mk par par_neq neq tmp
    by (simp add: atomic_write_text_def Let_def mkdir_p_def create_file_def write_file_def replace_file_def
        fsync_def unlink_missing_ok_def unlink_def prim_def io_defs path_exists_def is_file_def parent_tmp_for
        os_error_def is_dir_def split: option.splits)
qed


section \<open>Frames\<close>

text \<open>The shipped catalog is a file outside the directory of the local one.\<close>

definition shipped :: "capability_store \<Rightarrow> fs \<Rightarrow> bool" where
  "shipped st s \<longleftrightarrow> base_catalog st \<noteq> [] \<and> is_file s (base_catalog st) \<and> parent (base_catalog st) \<noteq> base_dir st"

lemma parent_local [simp]: "parent (local_catalog st) = base_dir st"
  by (simp add: local_catalog_def parent_def)

lemma parent_tmp [simp]: "parent (tmp_catalog token st) = base_dir st"
  by (simp add: tmp_catalog_def parent_tmp_for)

lemma shipped_other: "shipped st s \<Longrightarrow> base_catalog st \<notin> {local_catalog st, tmp_catalog token st}"
  using parent_local [of st] parent_tmp [of token st] by (auto simp: shipped_def)

lemma frame_shipped: "cat_frame token st s s' \<Longrightarrow> shipped st s \<Longrightarrow> fs_get s' (base_catalog st) = fs_get s (base_catalog st)"
  using keeps_get [of _ s s' "base_catalog st"] shipped_other [of st s token]
  by (auto simp: shipped_def is_file_def split: option.splits)

lemma frame_base: "cat_frame token st s s' \<Longrightarrow> shipped st s \<Longrightarrow> base_view v st s' = base_view v st s"
  using frame_shipped by (simp add: base_view_def catalog_at_def)

text \<open>
  An operation from \<open>w\<close> to \<open>w'\<close> with outcome \<open>r\<close> updates the local catalog atomically to
  \<open>new\<close>: every intermediate file system, and the last one, has the old or the new catalog,
  the last one has the new catalog if the operation returns, and the shipped catalog is as
  before.
\<close>

definition updates_atomically ::
    "validator \<Rightarrow> capability_store \<Rightarrow> catalog res \<Rightarrow> world \<Rightarrow> 'a res \<Rightarrow> world \<Rightarrow> bool" where
  "updates_atomically v st new w r w' \<longleftrightarrow>
     steps_ok (cat_atomic v st (w_fs w) new) w w'
     \<and> cat_atomic v st (w_fs w) new (w_fs w')
     \<and> (is_ok r \<longrightarrow> local_view v st (w_fs w') = new)
     \<and> (shipped st (w_fs w) \<longrightarrow> base_view v st (w_fs w') = base_view v st (w_fs w))"

lemma updates_atomicallyI:
  assumes "triple (cat_atomic v st (w_fs w) new) (\<lambda>u. w_fs u = w_fs w) m Q
     (\<lambda>_ u. cat_atomic v st (w_fs w) new (w_fs u) \<and> cat_frame token st (w_fs w) (w_fs u))"
    and "m w = (r, w')"
    and "\<And>a u. Q a u \<Longrightarrow> local_view v st (w_fs u) = new \<and> cat_frame token st (w_fs w) (w_fs u)"
  shows "updates_atomically v st new w r w'"
  using tripleD [OF assms(1) refl assms(2)] frame_base [of st token "w_fs w" "w_fs w'" v] assms(3)
  by (auto simp: updates_atomically_def cat_atomic_def split: sum.splits)

text \<open>A store whose local catalog can be read and written.\<close>

definition ready_store :: "string \<Rightarrow> capability_store \<Rightarrow> world \<Rightarrow> bool" where
  "ready_store token st w \<longleftrightarrow> w_faults w = [] \<and> dir_ready (w_fs w) (base_dir st)
     \<and> fs_get (w_fs w) (tmp_catalog token st) = None \<and> doc_ok_at (local_catalog st) (w_fs w)"

lemma ready_load:
  assumes "ready_store token st w" and "local_view v st (w_fs w) = Inr l"
  shows "\<exists>w'. load_local_catalog v st w = (Inr l, w') \<and> ready_store token st w' \<and> local_view v st (w_fs w') = Inr l
    \<and> w_fs w' = w_fs w"
  using assms load_no_faults [of w "local_catalog st" v l]
  by (auto simp: ready_store_def load_local_catalog_def local_view_def)

lemma tmp_not_local: "tmp_catalog token st \<noteq> local_catalog st"
  unfolding tmp_catalog_def by (rule tmp_for_neq) simp

lemma ready_write:
  assumes v: "manifest_validator v" and w: "ready_store token st w" "local_view v st (w_fs w) = Inr l" and d: "cat_good v d"
  shows "\<exists>w'. write_local_catalog token st d w = (Inr (), w') \<and> ready_store token st w'
    \<and> local_view v st (w_fs w') = Inr (reread d)
    \<and> (\<forall>q. q \<noteq> local_catalog st \<longrightarrow> fs_get (w_fs w') q = fs_get (w_fs w) q)"
proof -
  let ?p = "local_catalog st"
  let ?d = "sort_json (catalog_payload d)"
  have nodir: "fs_get (w_fs w) ?p \<noteq> Some DirN" using w(2) by (auto simp: local_view_def catalog_at_def)
  obtain w' where wr: "atomic_write_text token ?p (Doc ?d) w = (Inr (), w')" "w_faults w' = []"
    and fs: "\<And>q. fs_get (w_fs w') q = (if q = ?p then Some (FileN (Doc ?d)) else fs_get (w_fs w) q)"
    using atomic_write_text_returns [of w ?p token "Doc ?d"] w(1) nodir by (auto simp: ready_store_def tmp_catalog_def)
  have "?p \<notin> set (prefixes_of (base_dir st))"
    by (auto simp: prefixes_of_def local_catalog_def dest: arg_cong [of _ _ length])
  then have "dir_ready (w_fs w') (base_dir st)" using w(1) by (auto simp: ready_store_def dir_ready_def list_all_iff fs)
  moreover have "json_ok ?d" using d by (intro json_ok_sort_json) (auto simp: catalog_payload_def cat_good_def entry_good_def list_all_iff dict_ok_def)
  ultimately have "ready_store token st w'"
    using w(1) wr(2) tmp_not_local by (simp add: ready_store_def fs doc_ok_at_def)
  with wr(1) manifest_validator.written_catalog [OF v d, of ?p] show ?thesis
    by (auto simp: write_local_catalog_def atomic_write_json_def local_view_def catalog_at_def parse_json_def fs)
qed

text \<open>What the names of a capability become on disk.\<close>

lemma safe_dirname_Inr:
  "safe_dirname x = Inr y \<longleftrightarrow> y = x \<and> x \<noteq> [] \<and> str_strip x = x
     \<and> \<not> list_ex (\<lambda>t. str_contains t x) [''/'', [CHR 0x5C], ''..'', [CHR 0x00]]"
  by (auto simp: safe_dirname_def)

lemma str_contains_char: "str_contains [c] s \<longleftrightarrow> c \<in> set s"
  by (auto simp: str_contains_iff in_set_conv_decomp)

section \<open>Properties\<close>

text \<open>
  C5: the three operations on the local catalog are atomic under every schedule of file
  errors and a crash at any point: storing a manifest, deleting one and setting its enabled
  flag leave the old catalog or the specified new one, the new one whenever they return, and
  never touch the shipped catalog.
\<close>

theorem catalog_updates_atomic:
  assumes v: "manifest_validator v" and ok: "docs_ok (w_fs w)" "json_ok m" and b: "base_catalog st \<noteq> []"
  shows "(case upsert_local v token st m w of (r, w') \<Rightarrow>
      updates_atomically v st (res_map (put_spec m) (local_view v st (w_fs w))) w r w')
    \<and> (case delete_local v token st k w of (r, w') \<Rightarrow>
      updates_atomically v st (res_map (del_spec k) (local_view v st (w_fs w))) w r w')
    \<and> (case set_local_enabled v token st k e w of (r, w') \<Rightarrow>
      updates_atomically v st
        (rbind (base_view v st (w_fs w)) (\<lambda>b. res_map (enable_spec k e b) (local_view v st (w_fs w)))) w r w')"
proof (intro conjI)
  show "case upsert_local v token st m w of (r, w') \<Rightarrow>
      updates_atomically v st (res_map (put_spec m) (local_view v st (w_fs w))) w r w'"
    by (auto split: prod.split intro: updates_atomicallyI [OF manifest_validator.triple_upsert [OF v docs_ok_at [OF ok(1)] ok(2) refl]])
  show "case delete_local v token st k w of (r, w') \<Rightarrow>
      updates_atomically v st (res_map (del_spec k) (local_view v st (w_fs w))) w r w'"
    by (auto split: prod.split intro: updates_atomicallyI [OF manifest_validator.triple_delete [OF v docs_ok_at [OF ok(1)] refl]])
  show "case set_local_enabled v token st k e w of (r, w') \<Rightarrow>
      updates_atomically v st
        (rbind (base_view v st (w_fs w)) (\<lambda>b. res_map (enable_spec k e b) (local_view v st (w_fs w)))) w r w'"
    by (auto split: prod.split intro: updates_atomicallyI [OF manifest_validator.triple_set_enabled [OF v docs_ok_at [OF ok(1)] docs_ok_at [OF ok(1)] b refl]])
qed

text \<open>A store of one directory, its shipped catalog elsewhere.\<close>

definition sample_store :: capability_store where
  "sample_store = \<lparr>base_dir = [''var''], base_catalog_path = Some [''opt'', ''base.json''], repo_root = []\<rparr>"

definition sample_world :: world where
  "sample_world = \<lparr>w_fs = [([''var''], DirN), ([''opt''], DirN),
       ([''opt'', ''base.json''], FileN (Doc (catalog_payload [(''demo.echo'', demo_manifest)])))],
     w_faults = [], w_hist = [], w_sent = [], w_nonces = [], w_log = []\<rparr>"

lemma sample_docs_ok: "docs_ok (w_fs sample_world)" "json_ok demo_manifest" "base_catalog sample_store \<noteq> []"
  by code_simp+

lemma catalog_updates_atomic_witness:
  "case delete_local reference_errors ''x'' sample_store ''demo.echo'' sample_world of (r, w') \<Rightarrow>
      updates_atomically reference_errors sample_store
        (res_map (del_spec ''demo.echo'') (local_view reference_errors sample_store (w_fs sample_world)))
        sample_world r w'"
  by (rule catalog_updates_atomic [OF reference.manifest_validator_axioms sample_docs_ok,
        where k = "''demo.echo''" and token = "''x''" and e = True, THEN conjunct2, THEN conjunct1])

text \<open>
  C30: storing a valid manifest in a writable store always succeeds, and the merged
  catalog then maps its identifier to it (with sorted keys), every other identifier of the
  local catalog to its old manifest, and the rest to the shipped one.
\<close>

theorem upsert_then_lookup:
  assumes v: "manifest_validator v" and ok: "docs_ok (w_fs w)" "json_ok m" "v m = []"
    and ready: "w_faults w = []" "dir_ready (w_fs w) (base_dir st)" "fs_get (w_fs w) (tmp_catalog token st) = None"
    and views: "local_view v st (w_fs w) = Inr l" "base_view v st (w_fs w) = Inr b"
    and sh: "shipped st (w_fs w)"
  shows "\<exists>w1 w2 d. upsert_local v token st m w = (Inr (), w1) \<and> merged_catalog v st w1 = (Inr d, w2)
     \<and> dget d (py_str (jget m ''id'')) = Some (sort_json m)
     \<and> (\<forall>k. k \<noteq> py_str (jget m ''id'') \<longrightarrow>
          dget d k = (case dget l k of Some x \<Rightarrow> Some (sort_json x) | None \<Rightarrow> dget b k))"
proof -
  let ?k = "str_or_empty (jget m ''id'')" and ?l = "put_spec m l"
  note good = manifest_validator.valid_entry [OF v ok(2,3)]
  obtain i where "jget m ''id'' = JStr i"
    using conforms_id manifest_validator.exact [OF v] ok(3) by blast
  then have k: "py_str (jget m ''id'') = ?k" by simp
  have w: "ready_store token st w" using ready docs_ok_at [OF ok(1)] by (simp add: ready_store_def)
  obtain wl where load: "load_local_catalog v st w = (Inr l, wl)" "ready_store token st wl" "local_view v st (w_fs wl) = Inr l"
    and wl: "w_fs wl = w_fs w"
    using ready_load [OF w views(1)] by blast
  have l: "cat_good v l" using manifest_validator.good_local [OF v docs_ok_at [OF ok(1)] views(1)] .
  obtain w1 where wr: "write_local_catalog token st (dset ?k m l) wl = (Inr (), w1)" "ready_store token st w1"
    and local1: "local_view v st (w_fs w1) = Inr ?l"
    and frame: "\<And>q. q \<noteq> local_catalog st \<Longrightarrow> fs_get (w_fs w1) q = fs_get (w_fs w) q"
    using ready_write [OF v load(2,3) cat_good_dset [OF l good]] wl unfolding put_spec_def by auto
  have up: "upsert_local v token st m w = (Inr (), w1)"
    using load(1) wr(1) good ok(3)
    by (simp add: upsert_local_def validate_manifest_valid entry_good_def Let_def io_bind_def io_return_def)
  have ne: "base_catalog st \<noteq> []" and base1: "base_view v st (w_fs w1) = Inr b"
    using sh views(2) shipped_other [OF sh, of token] frame by (simp_all add: shipped_def base_view_def catalog_at_def)
  obtain wb where b: "load_base_catalog v st w1 = (Inr b, wb)" "w_fs wb = w_fs w1" "w_faults wb = []"
    using load_no_faults [where v = v and d = b, OF _ ne] base1 wr(2)
    by (auto simp: load_base_catalog_def base_view_def ready_store_def)
  then have "ready_store token st wb" "local_view v st (w_fs wb) = Inr ?l" using wr(2) local1 by (simp_all add: ready_store_def)
  from ready_load [OF this] b(1) obtain w2 where merged: "merged_catalog v st w1 = (Inr (dupdate b ?l), w2)"
    by (auto simp: merged_catalog_def io_bind_def io_return_def)
  have "dict_ok ?l" using l dict_ok_dset [of l ?k m] by (simp add: put_spec_def dict_ok_def cat_good_def)
  then have "dget (dupdate b ?l) j
      = (if j = ?k then Some (sort_json m)
         else case dget l j of Some x \<Rightarrow> Some (sort_json x) | None \<Rightarrow> dget b j)" for j
    by (simp add: dget_dupdate put_spec_def dget_reread split: option.splits)
  with up merged k show ?thesis by auto
qed

definition other_manifest :: json where
  "other_manifest = jset ''id'' (JStr ''demo.two'') demo_manifest"

lemma upsert_then_lookup_witness:
  "\<exists>w1 w2 d. upsert_local reference_errors ''x'' sample_store other_manifest sample_world = (Inr (), w1)
     \<and> merged_catalog reference_errors sample_store w1 = (Inr d, w2)
     \<and> dget d ''demo.two'' = Some (sort_json other_manifest) \<and> dget d ''demo.echo'' = Some demo_manifest"
proof -
  have a: "json_ok other_manifest" "reference_errors other_manifest = []" "w_faults sample_world = []"
    "dir_ready (w_fs sample_world) (base_dir sample_store)"
    "fs_get (w_fs sample_world) (tmp_catalog ''x'' sample_store) = None"
    "local_view reference_errors sample_store (w_fs sample_world) = Inr []"
    "base_view reference_errors sample_store (w_fs sample_world) = Inr [(''demo.echo'', demo_manifest)]"
    "shipped sample_store (w_fs sample_world)" "py_str (jget other_manifest ''id'') = ''demo.two''"
    by code_simp+
  from upsert_then_lookup [OF reference.manifest_validator_axioms sample_docs_ok(1) a(1-8)] a(9)
  show ?thesis by fastforce
qed

text \<open>
  C40: where a capability lives on disk. A reference is accepted exactly when both of its
  names are not empty, have no white space at their ends and contain no slash, backslash,
  null character or double dot; its directory is then the manifests directory extended by
  those names. But a name that is a single dot is accepted and dropped, so two different
  references share a directory, which is not below one named after a capability.
\<close>

theorem install_dir_confined:
  "is_ok (install_dir st r) = list_all (\<lambda>c. c \<noteq> [] \<and> str_strip c = c \<and> set c \<inter> {CHR ''/'', CHR 0x5C, CHR 0x00} = {}
       \<and> \<not> str_contains ''..'' c) [capability_id r, ref_version r]
   \<and> (case install_dir st r of
        Inl e \<Rightarrow> \<exists>t. e = CapabilityManifestError t
      | Inr p \<Rightarrow> p = manifests_dir st @ filter (\<lambda>c. c \<noteq> ''.'') [capability_id r, ref_version r])
   \<and> install_dir st \<lparr>capability_id = ''.'', ref_version = ''1.0.0''\<rparr> = Inr (manifests_dir st @ [''1.0.0''])
   \<and> install_dir st \<lparr>capability_id = ''1.0.0'', ref_version = ''.''\<rparr> = Inr (manifests_dir st @ [''1.0.0''])"
proof (intro conjI)
  show "is_ok (install_dir st r) = list_all (\<lambda>c. c \<noteq> [] \<and> str_strip c = c \<and> set c \<inter> {CHR ''/'', CHR 0x5C, CHR 0x00} = {}
       \<and> \<not> str_contains ''..'' c) [capability_id r, ref_version r]"
    by (auto simp: is_ok_iff install_dir_def dir_for_def result_simps safe_dirname_Inr str_contains_char)
  show "case install_dir st r of
        Inl e \<Rightarrow> \<exists>t. e = CapabilityManifestError t
      | Inr p \<Rightarrow> p = manifests_dir st @ filter (\<lambda>c. c \<noteq> ''.'') [capability_id r, ref_version r]"
    by (cases "install_dir st r")
       (auto simp: install_dir_def dir_for_def result_simps safe_dirname_def path_join_def split: if_splits)
  have names: "safe_dirname ''.'' = Inr ''.''" "safe_dirname ''1.0.0'' = Inr ''1.0.0''" by code_simp+
  then show "install_dir st \<lparr>capability_id = ''.'', ref_version = ''1.0.0''\<rparr> = Inr (manifests_dir st @ [''1.0.0''])"
    and "install_dir st \<lparr>capability_id = ''1.0.0'', ref_version = ''.''\<rparr> = Inr (manifests_dir st @ [''1.0.0''])"
    by (simp_all add: install_dir_def dir_for_def path_join_def)
qed

end
