(* ===== verification/Installer.thy ===== *)
theory Installer
  imports Catalog
begin

text \<open>
  src/installer.py: installing a manifest by staging it and moving the staged directory to
  its final place. \<open>token\<close> stands for the random names (uuid4 and mkstemp).
\<close>

section \<open>The code\<close>

record install_result =
  inst_ref :: capability_ref
  inst_updated :: bool

definition ref_of :: "json \<Rightarrow> capability_ref" where
  "ref_of m = \<lparr>capability_id = str_or_empty (jget m ''id''), ref_version = str_or_empty (jget m ''version'')\<rparr>"

text \<open>Opening the directory and \<open>fsync\<close>.\<close>

definition fsync_dir :: "unit io" where
  "fsync_dir = io_bind fsync (\<lambda>_. fsync)"

definition stage_root :: "capability_store \<Rightarrow> path" where
  "stage_root st = base_dir st @ [''tmp'', ''staging'']"

definition stage_dir :: "capability_store \<Rightarrow> capability_ref \<Rightarrow> string \<Rightarrow> path" where
  "stage_dir st r token = stage_root st @ [capability_id r @ ''@'' @ ref_version r @ ''.'' @ token]"

definition install_meta :: "json \<Rightarrow> json" where
  "install_meta meta = (if is_dict meta then JObj [(''installed_via'', jget meta ''installed_via'')] else JObj [])"

text \<open>\<open>os.replace\<close>, where the errors of a concurrent install count as done.\<close>

definition promote :: "path \<Rightarrow> path \<Rightarrow> bool io" where
  "promote staged final_dir =
     io_try (io_bind (replace_dir staged final_dir) (\<lambda>_. io_return True))
       (\<lambda>e. case e of PyError (OSError n) t \<Rightarrow> if n = 17 \<or> n = 39 then io_return False else io_raise e
            | _ \<Rightarrow> io_raise e)"

definition stage_and_promote ::
    "string \<Rightarrow> path \<Rightarrow> path \<Rightarrow> path \<Rightarrow> capability_ref \<Rightarrow> json \<Rightarrow> json \<Rightarrow> install_result io" where
  "stage_and_promote token stage staged final_dir r manifest meta =
     io_bind (mkdir_new stage) (\<lambda>_.
     io_bind (mkdir_p staged) (\<lambda>_.
     io_bind (atomic_write_json token (staged @ [manifest_filename]) manifest) (\<lambda>_.
     io_bind (atomic_write_json token (staged @ [meta_filename]) (install_meta meta)) (\<lambda>_.
     io_bind (mkdir_p (parent final_dir)) (\<lambda>_.
     io_bind fsync_dir (\<lambda>_.
     io_bind (promote staged final_dir) (\<lambda>moved.
     if \<not> moved then io_return \<lparr>inst_ref = r, inst_updated = False\<rparr>
     else io_bind fsync_dir (\<lambda>_. io_return \<lparr>inst_ref = r, inst_updated = True\<rparr>))))))))"

definition install_manifest_atomic :: "string \<Rightarrow> capability_store \<Rightarrow> json \<Rightarrow> json \<Rightarrow> install_result io" where
  "install_manifest_atomic token st manifest meta =
     (let r = ref_of manifest in
      if capability_id r = [] \<or> ref_version r = [] then
        io_raise (CapabilityInstallError ''manifest must include id and version'')
      else
        io_bind (io_lift (install_dir st r)) (\<lambda>final_dir.
        io_bind (exists_io (final_dir @ [manifest_filename])) (\<lambda>present.
        if present then io_return \<lparr>inst_ref = r, inst_updated = False\<rparr>
        else
          io_bind (mkdir_p (stage_root st)) (\<lambda>_.
          let stage = stage_dir st r token;
              staged = path_join (path_join (stage @ [''manifests'']) (capability_id r)) (ref_version r)
          in io_finally
               (io_try (stage_and_promote token stage staged final_dir r manifest meta)
                  (\<lambda>exc. io_raise (CapabilityInstallError (''install failed: '' @ exc_text exc))))
               (rmtree stage)))))"

section \<open>Moving a directory\<close>

lemma map_of_rekey:
  assumes "\<And>k. k \<in> fst ` set s \<Longrightarrow> g k = p \<longleftrightarrow> k = k'"
  shows "map_of (map (\<lambda>(k, n). (g k, n)) s) p = map_of s k'"
  using assms
proof (induction s)
  case Nil
  then show ?case by simp
next
  case (Cons e s)
  obtain k n where e: "e = (k, n)" by (cases e)
  from Cons.prems [of k] e have "g k = p \<longleftrightarrow> k = k'" by simp
  moreover from Cons.prems have "map_of (map (\<lambda>(k, n). (g k, n)) s) p = map_of s k'"
    by (intro Cons.IH) auto
  ultimately show ?case using e by (cases "k = k'") auto
qed

lemma is_prefix_iff: "is_prefix p q \<longleftrightarrow> (\<exists>r. q = p @ r)"
  unfolding is_prefix_def by (metis append_take_drop_id append_eq_conv_conj)

lemma map_of_filter_key: "map_of (filter (\<lambda>(q, n). q \<noteq> d) s) p = (if p = d then None else map_of s p)"
  by (induction s) auto

lemma below_empty: "below d s = [] \<Longrightarrow> (k, n) \<in> set s \<Longrightarrow> is_prefix d k \<Longrightarrow> k = d"
  unfolding below_def by (fastforce simp: filter_empty_conv)

lemma fs_get_moved:
  assumes b: "below dst s = []" and x: "x \<noteq> []" and sd: "\<not> is_prefix dst (src @ x)"
  shows "fs_get (map (\<lambda>(q, n). (move_path src dst q, n)) (filter (\<lambda>(q, n). q \<noteq> dst) s)) (dst @ x)
    = fs_get s (src @ x)"
proof -
  have "move_path src dst k = dst @ x \<longleftrightarrow> k = src @ x"
    if k: "k \<in> fst ` set (filter (\<lambda>(q, n). q \<noteq> dst) s)" for k
  proof (cases "is_prefix src k")
    case True
    then show ?thesis by (auto simp: move_path_def is_prefix_iff)
  next
    case False
    from k obtain n where "(k, n) \<in> set s" "k \<noteq> dst" by auto
    then have "k \<noteq> dst @ x" using below_empty [OF b, of k n] x by (auto simp: is_prefix_iff)
    with False show ?thesis by (auto simp: move_path_def is_prefix_iff)
  qed
  from map_of_rekey [OF this]
  have "fs_get (map (\<lambda>(q, n). (move_path src dst q, n)) (filter (\<lambda>(q, n). q \<noteq> dst) s)) (dst @ x)
      = map_of (filter (\<lambda>(q, n). q \<noteq> dst) s) (src @ x)"
    unfolding fs_get_def by fast
  moreover have "src @ x \<noteq> dst" using sd by (auto simp: is_prefix_iff)
  ultimately show ?thesis by (simp add: map_of_filter_key fs_get_def)
qed

section \<open>Frames of single operations\<close>

text \<open>
  \<open>touches X m\<close>: whatever happens, \<open>m\<close> leaves every path outside \<open>X\<close> as it was, in every
  intermediate file system too.
\<close>

definition touches :: "path set \<Rightarrow> 'a io \<Rightarrow> bool" where
  "touches X m \<longleftrightarrow> (\<forall>s0. triple (same_off X s0) (\<lambda>w. same_off X s0 (w_fs w)) m
     (\<lambda>_ w. same_off X s0 (w_fs w)) (\<lambda>_ w. same_off X s0 (w_fs w)))"

named_theorems touches_rules

lemma touchesD: "touches X m \<Longrightarrow> triple (same_off X s0) (\<lambda>w. same_off X s0 (w_fs w)) m
     (\<lambda>_ w. same_off X s0 (w_fs w)) (\<lambda>_ w. same_off X s0 (w_fs w))"
  by (simp add: touches_def)

lemma same_off_trans: "same_off X s t \<Longrightarrow> same_off X t u \<Longrightarrow> same_off X s u"
  by (simp add: same_off_def)

lemma same_off_mono: "same_off X s t \<Longrightarrow> X \<subseteq> Y \<Longrightarrow> same_off Y s t"
  by (auto simp: same_off_def)

lemma touches_prim:
  assumes "\<And>s a s'. f s = Inr (a, s') \<Longrightarrow> same_off X s s'"
  shows "touches X (prim f)"
  unfolding touches_def
  by (intro allI triple_prim) (use assms same_off_trans in blast)+

lemma touches_mono: "touches X m \<Longrightarrow> X \<subseteq> Y \<Longrightarrow> touches Y m"
proof -
  assume t: "touches X m" and sub: "X \<subseteq> Y"
  have "steps_ok (same_off Y s0) w w' \<and> (case r of Inl e \<Rightarrow> same_off Y s0 (w_fs w') | Inr a \<Rightarrow> same_off Y s0 (w_fs w'))"
    if "same_off Y s0 (w_fs w)" "m w = (r, w')" for s0 w r w'
    using tripleD [OF touchesD [OF t, of "w_fs w"] same_off_refl that(2)] that(1) sub
      same_off_mono same_off_trans
    unfolding steps_ok_def by (metis (no_types, lifting) sum.case_eq_if)
  then show "touches Y m" by (simp add: touches_def triple_def)
qed

lemma touches_return [touches_rules]: "touches X (io_return a)"
  by (simp add: touches_def triple_return)

lemma touches_raise [touches_rules]: "touches X (io_raise e)"
  by (simp add: touches_def triple_raise)

lemma touches_get [touches_rules]: "touches X (io_get f)"
  by (simp add: touches_def triple_get)

lemma touches_lift [touches_rules]: "touches X (io_lift r)"
  unfolding touches_def by (intro allI triple_lift)

lemma touches_bind [touches_rules]: "touches X m \<Longrightarrow> (\<And>a. touches X (f a)) \<Longrightarrow> touches X (io_bind m f)"
  unfolding touches_def by (intro allI triple_bind [where R = "\<lambda>_ w. same_off X s0 (w_fs w)" for s0]) blast+

lemma touches_try [touches_rules]: "touches X m \<Longrightarrow> (\<And>e. touches X (h e)) \<Longrightarrow> touches X (io_try m h)"
  unfolding touches_def by (intro allI triple_try [where R = "\<lambda>_ w. same_off X s0 (w_fs w)" for s0]) blast+

lemma touches_foreach [touches_rules]:
  "(\<And>x. x \<in> set xs \<Longrightarrow> touches X (f x)) \<Longrightarrow> touches X (io_foreach f xs)"
  by (induction xs) (auto intro!: touches_rules)

lemma touches_ignore [touches_rules]: "touches X m \<Longrightarrow> touches X (io_ignore m)"
  unfolding io_ignore_def by (intro touches_rules)

lemma touches_mkdir_p: "touches (set (prefixes_of p)) (mkdir_p p)"
  unfolding mkdir_p_def
  by (rule touches_prim, case_tac "mk_dirs (prefixes_of p) s") (auto simp: same_off_def dest: mk_dirs_keeps)

lemma touches_mkdir_new: "touches (set (prefixes_of p)) (mkdir_new p)"
  unfolding mkdir_new_def
  by (rule touches_prim, case_tac "mk_dirs (prefixes_of p) s")
     (auto simp: same_off_def dest: mk_dirs_keeps split: if_splits)

lemma touches_fsync [touches_rules]: "touches X fsync"
  unfolding fsync_def by (rule touches_prim) auto

lemma touches_fsync_dir [touches_rules]: "touches X fsync_dir"
  unfolding fsync_dir_def by (intro touches_rules)

lemma touches_unlink: "p \<in> X \<Longrightarrow> touches X (unlink p)"
  unfolding unlink_def by (rule touches_prim) (auto simp: same_off_del split: option.splits node.splits)

lemma touches_rmdir: "p \<in> X \<Longrightarrow> touches X (rmdir p)"
  unfolding rmdir_def by (rule touches_prim) (auto simp: same_off_del split: option.splits node.splits if_splits)

lemma touches_remove_entry: "p \<in> X \<Longrightarrow> touches X (remove_entry p)"
  unfolding remove_entry_def by (intro touches_rules) (simp add: touches_unlink touches_rmdir)

text \<open>Removing a tree touches the tree only.\<close>

lemma touches_get_bind:
  assumes "\<And>w. touches X (m (f w))"
  shows "touches X (io_bind (io_get f) m)"
proof -
  have "steps_ok (same_off X s0) w w' \<and> (case r of Inl e \<Rightarrow> same_off X s0 (w_fs w') | Inr a \<Rightarrow> same_off X s0 (w_fs w'))"
    if "same_off X s0 (w_fs w)" "io_bind (io_get f) m w = (r, w')" for s0 w r w'
    using tripleD [OF touchesD [OF assms [of w], of s0] that(1)] that(2) by (simp add: io_bind_def io_get_def)
  then show ?thesis by (simp add: touches_def triple_def)
qed

lemma tree_entries_below: "q \<in> set (tree_entries p s) \<Longrightarrow> is_prefix p q"
  by (auto simp: tree_entries_def below_def is_prefix_def split: if_splits)

lemma touches_rmtree: "touches {q. is_prefix p q} (rmtree p)"
  unfolding rmtree_def
  by (intro touches_get_bind touches_foreach touches_remove_entry) (simp add: tree_entries_below)

text \<open>An operation that touches nothing of interest keeps any assertion about what it does not touch.\<close>

lemma touches_keeps:
  assumes "touches X m" and "\<And>s s'. same_off X s s' \<Longrightarrow> P s \<Longrightarrow> P s'" and "\<And>s. P s \<Longrightarrow> I s"
  shows "triple I (\<lambda>w. P (w_fs w)) m (\<lambda>_ w. P (w_fs w)) (\<lambda>_ w. P (w_fs w))"
proof (rule tripleI)
  fix w r w'
  assume P: "P (w_fs w)" and run: "m w = (r, w')"
  from tripleD [OF touchesD [OF assms(1), of "w_fs w"] same_off_refl run] assms(2) [OF _ P] assms(3)
  show "steps_ok I w w' \<and> (case r of Inl e \<Rightarrow> P (w_fs w') | Inr a \<Rightarrow> P (w_fs w'))"
    by (auto simp: steps_ok_def split: sum.splits)
qed


section \<open>Places\<close>

definition staged_dir :: "capability_store \<Rightarrow> capability_ref \<Rightarrow> string \<Rightarrow> path" where
  "staged_dir st r token =
     path_join (path_join (stage_dir st r token @ [''manifests'']) (capability_id r)) (ref_version r)"

lemma is_prefix_refl [simp]: "is_prefix p p"
  by (simp add: is_prefix_def)

lemma prefixes_are_prefixes: "q \<in> set (prefixes_of p) \<Longrightarrow> is_prefix q p"
  by (auto simp: prefixes_of_def is_prefix_iff) (metis append_take_drop_id)

lemma is_prefix_length: "is_prefix p q \<Longrightarrow> length p \<le> length q"
  by (auto simp: is_prefix_iff)

lemma is_prefix_trans: "is_prefix p q \<Longrightarrow> is_prefix q r \<Longrightarrow> is_prefix p r"
  by (auto simp: is_prefix_iff)

lemma parent_prefix: "is_prefix (parent p) p"
  unfolding is_prefix_iff parent_def by (cases p rule: rev_cases) auto

lemma staged_area: "\<exists>x. staged_dir st r token = stage_dir st r token @ x"
  by (auto simp: staged_dir_def path_join_def)

lemma stage_area: "is_prefix (base_dir st @ [''tmp'']) (stage_dir st r token)"
  by (simp add: stage_dir_def stage_root_def is_prefix_iff)

lemma final_area: "install_dir st r = Inr d \<Longrightarrow> is_prefix (base_dir st @ [''manifests'']) d"
  by (auto simp: install_dir_def dir_for_def result_simps path_join_def manifests_dir_def is_prefix_iff)

text \<open>Nothing is in both areas.\<close>

lemma areas_disjoint:
  assumes "is_prefix (base @ [''manifests'']) p" and "is_prefix (base @ [''tmp'']) q"
  shows "\<not> is_prefix p q" "\<not> is_prefix q p" "p \<noteq> q"
  using assms by (auto simp: is_prefix_iff)

section \<open>The stages of an install\<close>

definition artifact_at :: "path \<Rightarrow> fs \<Rightarrow> node option \<times> node option" where
  "artifact_at d s = (fs_get s (d @ [manifest_filename]), fs_get s (d @ [meta_filename]))"

definition new_artifact :: "json \<Rightarrow> json \<Rightarrow> node option \<times> node option" where
  "new_artifact m meta =
     (Some (FileN (Doc (sort_json m))), Some (FileN (Doc (sort_json (install_meta meta)))))"

definition in_stage :: "path \<Rightarrow> path \<Rightarrow> json \<Rightarrow> json \<Rightarrow> fs \<Rightarrow> nat \<Rightarrow> fs \<Rightarrow> bool" where
  "in_stage final staged m meta s0 n s \<longleftrightarrow>
     (if n = 0 then artifact_at final s = artifact_at final s0
      else if n = 1 then artifact_at final s = artifact_at final s0
        \<and> fs_get s (staged @ [manifest_filename]) = fst (new_artifact m meta)
      else if n = 2 then artifact_at final s = artifact_at final s0 \<and> artifact_at staged s = new_artifact m meta
      else if n = 3 then artifact_at final s = new_artifact m meta
      else artifact_at final s \<in> {artifact_at final s0, new_artifact m meta})"

lemma in_stage_any: "in_stage final staged m meta s0 n s \<Longrightarrow> in_stage final staged m meta s0 4 s"
  by (auto simp: in_stage_def split: if_splits)

lemma in_stage_down: "in_stage final staged m meta s0 n s \<Longrightarrow> n \<le> 2 \<Longrightarrow> in_stage final staged m meta s0 0 s"
  by (auto simp: in_stage_def split: if_splits)

abbreviation stage_inv :: "path \<Rightarrow> json \<Rightarrow> json \<Rightarrow> fs \<Rightarrow> fs \<Rightarrow> bool" where
  "stage_inv final m meta s0 \<equiv> (\<lambda>s. artifact_at final s \<in> {artifact_at final s0, new_artifact m meta})"

lemma in_stage_inv: "in_stage final staged m meta s0 n s \<Longrightarrow> stage_inv final m meta s0 s"
  by (auto simp: in_stage_def split: if_splits)

text \<open>An operation outside both directories stays in its stage.\<close>

lemma touches_in_stage:
  assumes "touches X (op :: 'a io)"
    and "\<And>x. x \<in> {manifest_filename, meta_filename} \<Longrightarrow> final @ [x] \<notin> X"
    and "n \<in> {1, 2} \<Longrightarrow> staged @ [manifest_filename] \<notin> X"
    and "n = 2 \<Longrightarrow> staged @ [meta_filename] \<notin> X"
  shows "triple (stage_inv final m meta s0) (\<lambda>w. in_stage final staged m meta s0 n (w_fs w)) op
     (\<lambda>_ w. in_stage final staged m meta s0 n (w_fs w)) (\<lambda>_ w. in_stage final staged m meta s0 n (w_fs w))"
proof (rule touches_keeps [OF assms(1)])
  fix s s'
  assume s: "same_off X s s'" and st: "in_stage final staged m meta s0 n s"
  have "artifact_at final s' = artifact_at final s"
    using assms(2) same_offD [OF s] by (simp add: artifact_at_def)
  moreover have "n \<in> {1, 2} \<Longrightarrow> fs_get s' (staged @ [manifest_filename]) = fs_get s (staged @ [manifest_filename])"
    using assms(3) same_offD [OF s] by simp
  moreover have "n = 2 \<Longrightarrow> fs_get s' (staged @ [meta_filename]) = fs_get s (staged @ [meta_filename])"
    using assms(4) same_offD [OF s] by simp
  ultimately show "in_stage final staged m meta s0 n s'"
    using st by (auto simp: in_stage_def artifact_at_def)
qed (rule in_stage_inv)

lemma triple_pointwise:
  "(\<And>s. P s \<Longrightarrow> triple I (\<lambda>w. w_fs w = s) m Q E) \<Longrightarrow> triple I (\<lambda>w. P (w_fs w)) m Q E"
  unfolding triple_def by blast

lemma triple_inv: "triple I P m Q E \<Longrightarrow> (\<And>s. I s \<Longrightarrow> J s) \<Longrightarrow> triple J P m Q E"
  unfolding triple_def steps_ok_def by blast

lemma touches_finally [touches_rules]: "touches X m \<Longrightarrow> touches X c \<Longrightarrow> touches X (io_finally m c)"
  unfolding touches_def
  by (intro allI triple_finally [where R = "\<lambda>_ w. same_off X s0 (w_fs w)" and S = "\<lambda>_ w. same_off X s0 (w_fs w)" for s0])
     blast+

lemma touches_aw: "touches ({p, tmp_for p token} \<union> set (prefixes_of (parent p))) (atomic_write_text token p d)"
proof -
  let ?X = "{p, tmp_for p token} \<union> set (prefixes_of (parent p))"
  have mk: "touches ?X (mkdir_p (parent p))"
    by (rule touches_mono [OF touches_mkdir_p]) blast
  have "touches ?X (create_file (tmp_for p token))"
    unfolding create_file_def by (rule touches_prim) (auto simp: same_off_put split: if_splits)
  moreover have "touches ?X (write_file (tmp_for p token) d)"
    unfolding write_file_def by (rule touches_prim) (auto simp: same_off_put split: if_splits)
  moreover have "touches ?X (replace_file (tmp_for p token) p)"
    unfolding replace_file_def
    by (rule touches_prim) (auto simp: same_off_put same_off_del split: option.splits node.splits if_splits)
  moreover have "touches ?X (unlink_missing_ok (tmp_for p token))"
    unfolding unlink_missing_ok_def
    by (intro touches_rules touches_unlink) (auto intro!: touches_rules split: exc.split pykind.split)
  ultimately show ?thesis
    unfolding atomic_write_text_def Let_def
    by (intro touches_rules mk)
qed


section \<open>An install, stage by stage\<close>

lemma tmp_for_snoc: "tmp_for (d @ [x]) token = d @ [x @ ''.'' @ token]"
  by (simp add: tmp_for_def parent_def)

lemma parent_snoc [simp]: "parent (d @ [x]) = d"
  by (simp add: parent_def)

lemma filenames_differ:
  "manifest_filename \<noteq> meta_filename" "meta_filename \<noteq> manifest_filename"
  "manifest_filename \<noteq> meta_filename @ x" "meta_filename \<noteq> manifest_filename @ x"
  "manifest_filename \<noteq> manifest_filename @ ''.'' @ token" "meta_filename \<noteq> meta_filename @ ''.'' @ token"
  by (simp_all add: manifest_filename_def meta_filename_def)

text \<open>A file in one directory is no prefix of a path that does not go through it.\<close>

lemma not_in_prefixes:
  assumes "\<not> is_prefix p q"
  shows "p @ x \<notin> set (prefixes_of q)"
  using assms prefixes_are_prefixes [of "p @ x" q] by (auto simp: is_prefix_iff)

lemma own_file_not_prefix: "d @ [x] \<notin> set (prefixes_of d)"
  using prefixes_of_shorter [of "d @ [x]" d] by auto

text \<open>Writing a file of the staged directory, with the final directory elsewhere.\<close>

lemma triple_stage_write:
  assumes apart: "\<not> is_prefix final staged" "\<not> is_prefix staged final" "final \<noteq> staged"
    and step: "\<And>s s'. in_stage final staged m meta s0 n s \<Longrightarrow> in_stage final staged m meta s0 n s' \<Longrightarrow>
        fs_get s' (staged @ [name]) = Some (FileN (Doc (sort_json j))) \<Longrightarrow> in_stage final staged m meta s0 k s'"
    and name: "name \<in> {manifest_filename, meta_filename}" and n: "n = 0 \<or> n = 1 \<and> name = meta_filename"
  shows "triple (stage_inv final m meta s0) (\<lambda>w. in_stage final staged m meta s0 n (w_fs w))
     (atomic_write_json token (staged @ [name]) j)
     (\<lambda>_ w. in_stage final staged m meta s0 k (w_fs w)) (\<lambda>_ w. in_stage final staged m meta s0 4 (w_fs w))"
proof (rule tripleI)
  fix w r w'
  assume P: "in_stage final staged m meta s0 n (w_fs w)"
    and run: "atomic_write_json token (staged @ [name]) j w = (r, w')"
  let ?X = "{staged @ [name], tmp_for (staged @ [name]) token} \<union> set (prefixes_of (parent (staged @ [name])))"
  have fin: "final @ [x] \<notin> ?X" if "x \<in> {manifest_filename, meta_filename}" for x
    using apart prefixes_are_prefixes [of "final @ [x]" staged]
    by (auto simp: tmp_for_snoc is_prefix_iff)
  have own: "staged @ [manifest_filename] \<notin> ?X" if "n \<in> {1, 2}"
    using n that filenames_differ own_file_not_prefix [of staged manifest_filename] by (auto simp: tmp_for_snoc)
  have "triple (stage_inv final m meta s0) (\<lambda>w. in_stage final staged m meta s0 n (w_fs w))
     (atomic_write_json token (staged @ [name]) j)
     (\<lambda>_ w. in_stage final staged m meta s0 n (w_fs w)) (\<lambda>_ w. in_stage final staged m meta s0 n (w_fs w))"
    unfolding atomic_write_json_def
    by (rule touches_in_stage [OF touches_aw fin own]) (use n in auto)
  from tripleD [OF this P run]
  have s: "steps_ok (stage_inv final m meta s0) w w'" and st: "in_stage final staged m meta s0 n (w_fs w')"
    by (auto split: sum.splits)
  show "steps_ok (stage_inv final m meta s0) w w' \<and>
      (case r of Inl e \<Rightarrow> in_stage final staged m meta s0 4 (w_fs w') | Inr a \<Rightarrow> in_stage final staged m meta s0 k (w_fs w'))"
  proof (cases r)
    case (Inl e)
    with s in_stage_any [OF st] show ?thesis by simp
  next
    case (Inr a)
    then have "fs_get (w_fs w') (staged @ [name]) = Some (FileN (Doc (sort_json j)))"
      using atomic_write_text_run(2) [of "staged @ [name]" token _ w r w'] run by (simp add: atomic_write_json_def)
    from step [OF P st this] s Inr show ?thesis by simp
  qed
qed

lemma triple_replace_dir:
  assumes apart: "\<not> is_prefix final staged" "\<not> is_prefix staged final"
  shows "triple (stage_inv final m meta s0) (\<lambda>w. in_stage final staged m meta s0 2 (w_fs w))
     (replace_dir staged final)
     (\<lambda>_ w. in_stage final staged m meta s0 3 (w_fs w)) (\<lambda>_ w. in_stage final staged m meta s0 2 (w_fs w))"
  unfolding replace_dir_def
proof (rule triple_prim [where P = "in_stage final staged m meta s0 2" and Q = "\<lambda>_. in_stage final staged m meta s0 3"
      and E = "\<lambda>_. in_stage final staged m meta s0 2"], goal_cases)
  case (1 s a s')
  then have b: "below final s = []"
    and s': "s' = map (\<lambda>(q, n). (move_path staged final q, n)) (filter (\<lambda>(q, n). q \<noteq> final) s)"
    by (auto split: if_splits)
  have "fs_get s' (final @ [x]) = fs_get s (staged @ [x])" for x
    unfolding s'
    by (rule fs_get_moved [OF b]) (use apart in \<open>auto simp: is_prefix_iff append_eq_append_conv2 Cons_eq_append_conv\<close>)
  then have "artifact_at final s' = artifact_at staged s" by (simp add: artifact_at_def)
  with 1 show ?case by (simp add: in_stage_def)
qed

lemma triple_promote:
  assumes apart: "\<not> is_prefix final staged" "\<not> is_prefix staged final"
  shows "triple (stage_inv final m meta s0) (\<lambda>w. in_stage final staged m meta s0 2 (w_fs w))
     (promote staged final)
     (\<lambda>moved w. in_stage final staged m meta s0 (if moved then 3 else 0) (w_fs w))
     (\<lambda>_ w. in_stage final staged m meta s0 4 (w_fs w))"
proof -
  have body: "triple (stage_inv final m meta s0) (\<lambda>w. in_stage final staged m meta s0 2 (w_fs w))
      (io_bind (replace_dir staged final) (\<lambda>_. io_return True))
      (\<lambda>moved w. in_stage final staged m meta s0 (if moved then 3 else 0) (w_fs w))
      (\<lambda>_ w. in_stage final staged m meta s0 2 (w_fs w))"
    by (rule triple_bind [OF triple_replace_dir [OF apart]]) (simp add: triple_return)
  show ?thesis
    unfolding promote_def
    by (rule triple_try [OF body])
       (auto intro!: triple_return triple_raise dest: in_stage_down in_stage_any split: exc.split pykind.split)
qed


lemma triple_stage_and_promote:
  assumes apart: "\<not> is_prefix final staged" "\<not> is_prefix staged final"
    and stage: "is_prefix stage staged" "\<not> is_prefix final stage"
    and final: "final \<noteq> []"
  shows "triple (stage_inv final m meta s0) (\<lambda>w. in_stage final staged m meta s0 0 (w_fs w))
     (stage_and_promote token stage staged final r m meta)
     (\<lambda>res w. in_stage final staged m meta s0 (if inst_updated res then 3 else 0) (w_fs w))
     (\<lambda>_ w. in_stage final staged m meta s0 4 (w_fs w))"
proof -
  let ?I = "stage_inv final m meta s0"
  let ?St = "\<lambda>n w. in_stage final staged m meta s0 n (w_fs w)"
  note any = triple_weaken [where E' = "\<lambda>_ w. in_stage final staged m meta s0 4 (w_fs w)"]
  have new: "triple ?I (?St 0) (mkdir_new stage) (\<lambda>_. ?St 0) (\<lambda>_. ?St 4)"
    by (rule any [OF touches_in_stage [where n = 0, OF touches_mkdir_new]])
       (use not_in_prefixes [OF stage(2)] in \<open>auto intro: in_stage_any\<close>)
  have mk: "triple ?I (?St 0) (mkdir_p staged) (\<lambda>_. ?St 0) (\<lambda>_. ?St 4)"
    by (rule any [OF touches_in_stage [where n = 0, OF touches_mkdir_p]])
       (use not_in_prefixes [OF apart(1)] in \<open>auto intro: in_stage_any\<close>)
  have ne: "final \<noteq> staged" using apart by auto
  have w1: "triple ?I (?St 0) (atomic_write_json token (staged @ [manifest_filename]) m) (\<lambda>_. ?St 1) (\<lambda>_. ?St 4)"
    by (rule triple_stage_write [OF apart ne]) (auto simp: in_stage_def new_artifact_def)
  have w2: "triple ?I (?St 1) (atomic_write_json token (staged @ [meta_filename]) (install_meta meta))
      (\<lambda>_. ?St 2) (\<lambda>_. ?St 4)"
    by (rule triple_stage_write [OF apart ne])
       (auto simp: in_stage_def new_artifact_def artifact_at_def)
  have staged_no: "staged @ [x] \<notin> set (prefixes_of (parent final))" for x
    using not_in_prefixes [of staged "parent final" "[x]"] is_prefix_trans [OF _ parent_prefix] apart(2) by blast
  have final_no: "final @ [x] \<notin> set (prefixes_of (parent final))" for x
    using prefixes_of_shorter [of "final @ [x]" "parent final"] by (auto simp: parent_def)
  have par: "triple ?I (?St 2) (mkdir_p (parent final)) (\<lambda>_. ?St 2) (\<lambda>_. ?St 4)"
    by (rule any [OF touches_in_stage [where n = 2, OF touches_mkdir_p]])
       (use staged_no final_no in \<open>auto intro: in_stage_any\<close>)
  have sync: "triple ?I (?St n) fsync_dir (\<lambda>_. ?St n) (\<lambda>_. ?St 4)" for n
    by (rule any [OF touches_in_stage [where n = n, OF touches_fsync_dir [of "{}"]]]) (auto intro: in_stage_any)
  have last: "triple ?I (?St (if moved then 3 else 0))
      (if \<not> moved then io_return \<lparr>inst_ref = r, inst_updated = False\<rparr>
       else io_bind fsync_dir (\<lambda>_. io_return \<lparr>inst_ref = r, inst_updated = True\<rparr>))
      (\<lambda>res. ?St (if inst_updated res then 3 else 0)) (\<lambda>_. ?St 4)" for moved
    by (cases moved; simp only: not_True_eq_False not_False_eq_True if_True if_False)
       (rule triple_bind [OF sync], rule triple_return, simp, rule triple_return, simp)
  show ?thesis
    unfolding stage_and_promote_def
    by (rule triple_bind [OF new triple_bind [OF mk triple_bind [OF w1 triple_bind [OF w2
            triple_bind [OF par triple_bind [OF sync triple_bind [OF triple_promote [OF apart] last]]]]]]])
qed

section \<open>Properties\<close>

text \<open>The two files of an installed capability, wherever its reference puts them.\<close>

definition artifact :: "capability_store \<Rightarrow> json \<Rightarrow> fs \<Rightarrow> node option \<times> node option" where
  "artifact st m s = (case install_dir st (ref_of m) of Inl e \<Rightarrow> (None, None) | Inr d \<Rightarrow> artifact_at d s)"

text \<open>The attempt: stage and promote, and remove the staging directory in any case.\<close>

abbreviation (input) attempt ::
    "string \<Rightarrow> capability_store \<Rightarrow> json \<Rightarrow> json \<Rightarrow> path \<Rightarrow> install_result io" where
  "attempt token st m meta final \<equiv> io_finally
     (io_try (stage_and_promote token (stage_dir st (ref_of m) token) (staged_dir st (ref_of m) token) final (ref_of m) m meta)
        (\<lambda>exc. io_raise (CapabilityInstallError (''install failed: '' @ exc_text exc))))
     (rmtree (stage_dir st (ref_of m) token))"

abbreviation (input) staging :: "path \<Rightarrow> capability_store \<Rightarrow> string \<Rightarrow> json \<Rightarrow> json \<Rightarrow> fs \<Rightarrow> nat \<Rightarrow> world \<Rightarrow> bool" where
  "staging final st token m meta s0 n \<equiv> \<lambda>w. in_stage final (staged_dir st (ref_of m) token) m meta s0 n (w_fs w)"

lemma triple_stage_root:
  assumes dir: "install_dir st (ref_of m) = Inr final"
  shows "triple (stage_inv final m meta s0) (staging final st token m meta s0 0) (mkdir_p (stage_root st))
     (\<lambda>_. staging final st token m meta s0 0) (\<lambda>_. staging final st token m meta s0 4)"
proof (rule triple_weaken [OF touches_in_stage [where n = 0, OF touches_mkdir_p]])
  have "is_prefix (base_dir st @ [''tmp'']) (stage_root st)" by (simp add: stage_root_def is_prefix_iff)
  from areas_disjoint [OF final_area [OF dir] this] show "final @ [y] \<notin> set (prefixes_of (stage_root st))" for y
    by (intro not_in_prefixes)
qed (auto intro: in_stage_any)

lemma triple_attempt:
  assumes dir: "install_dir st (ref_of m) = Inr final"
  shows "triple (stage_inv final m meta s0) (staging final st token m meta s0 0) (attempt token st m meta final)
     (\<lambda>res. staging final st token m meta s0 (if inst_updated res then 3 else 0)) (\<lambda>_. staging final st token m meta s0 4)"
proof -
  let ?stage = "stage_dir st (ref_of m) token" and ?staged = "staged_dir st (ref_of m) token"
  let ?I = "stage_inv final m meta s0" and ?St = "staging final st token m meta s0"
  obtain x where x: "?staged = ?stage @ x" using staged_area by blast
  have pre: "is_prefix ?stage ?staged" by (simp add: x is_prefix_iff)
  note final = final_area [OF dir]
  note apart = areas_disjoint [OF final is_prefix_trans [OF stage_area pre]]
    and apart2 = areas_disjoint [OF final stage_area, of "ref_of m" token]
  have ne: "final \<noteq> []" using final by (auto simp: is_prefix_iff)
  have outside: "\<not> is_prefix ?stage (final @ [y])" for y
  proof -
    have "is_prefix (base_dir st @ [''manifests'']) (final @ [y])" using final by (auto simp: is_prefix_iff)
    from areas_disjoint(2) [OF this stage_area] show ?thesis .
  qed
  have clean: "triple ?I (?St n) (rmtree ?stage) (\<lambda>_. ?St n) (\<lambda>_. ?St n)" if "n \<notin> {1, 2}" for n
    by (rule touches_in_stage [OF touches_rmtree]) (use that outside in auto)
  have body: "triple ?I (?St 0)
      (io_try (stage_and_promote token ?stage ?staged final (ref_of m) m meta)
         (\<lambda>exc. io_raise (CapabilityInstallError (''install failed: '' @ exc_text exc))))
      (\<lambda>res. ?St (if inst_updated res then 3 else 0)) (\<lambda>_. ?St 4)"
    by (rule triple_try [OF triple_stage_and_promote [OF apart(1,2) pre apart2(1) ne]]) (rule triple_raise)
  show ?thesis
  proof (rule triple_finally [OF body])
    fix res :: install_result
    show "triple ?I (?St (if inst_updated res then 3 else 0)) (rmtree ?stage)
        (\<lambda>_. ?St (if inst_updated res then 3 else 0)) (\<lambda>_. ?St 4)"
      by (rule triple_weaken [OF clean [of "if inst_updated res then 3 else 0"]])
         (simp_all del: split_paired_All, rule in_stage_any)
  next
    show "triple ?I (?St 4) (rmtree ?stage) (\<lambda>_. ?St 4) (\<lambda>_. ?St 4)"
      by (rule clean) simp
  qed
qed

lemma triple_install:
  assumes dir: "install_dir st (ref_of m) = Inr final"
  shows "triple (stage_inv final m meta s0) (\<lambda>w. w_fs w = s0) (install_manifest_atomic token st m meta)
     (\<lambda>res w. artifact_at final (w_fs w) = (if inst_updated res then new_artifact m meta else artifact_at final s0))
     (\<lambda>_ w. stage_inv final m meta s0 (w_fs w))"
proof (cases "capability_id (ref_of m) = [] \<or> ref_version (ref_of m) = []")
  case True
  then show ?thesis by (auto simp: install_manifest_atomic_def Let_def intro!: triple_raise)
next
  case False
  let ?I = "stage_inv final m meta s0"
  let ?Q = "\<lambda>res w. artifact_at final (w_fs w) = (if inst_updated res then new_artifact m meta else artifact_at final s0)"
  let ?E = "\<lambda>_ w. stage_inv final m meta s0 (w_fs w)"
  have main: "triple ?I (staging final st token m meta s0 0)
      (io_bind (mkdir_p (stage_root st)) (\<lambda>_. attempt token st m meta final)) ?Q ?E"
    by (rule triple_weaken [OF triple_bind [OF triple_stage_root [OF dir] triple_attempt [OF dir]]]) (auto simp: in_stage_def)
  have early: "triple ?I (\<lambda>w. w_fs w = s0) (exists_io (final @ [manifest_filename])) (\<lambda>b w. w_fs w = s0) ?E"
    unfolding exists_io_def by (rule triple_get)
  have rest: "triple ?I (\<lambda>w. w_fs w = s0)
      (if present then io_return \<lparr>inst_ref = ref_of m, inst_updated = False\<rparr>
       else io_bind (mkdir_p (stage_root st)) (\<lambda>_. attempt token st m meta final)) ?Q ?E" for present
    by (cases present; simp only: if_True if_False)
       (rule triple_return, simp, rule triple_weaken [OF main], simp_all add: in_stage_def)
  have "install_manifest_atomic token st m meta = io_bind (exists_io (final @ [manifest_filename]))
     (\<lambda>present. if present then io_return \<lparr>inst_ref = ref_of m, inst_updated = False\<rparr>
       else io_bind (mkdir_p (stage_root st)) (\<lambda>_. attempt token st m meta final))"
    unfolding install_manifest_atomic_def Let_def staged_dir_def
    by (simp only: False if_False dir io_lift_Inr io_bind_return)
  with triple_bind [OF early rest] show ?thesis by (simp only:)
qed

text \<open>
  C6: installing is atomic under every schedule of file errors and a crash at any point:
  at the place of the capability every intermediate file system has what was there before or
  both complete files of the new artifact, and the call reports an update exactly when the
  new artifact is there because of it.
\<close>

theorem install_crash_safe:
  "case install_manifest_atomic token st m meta w of (r, w') \<Rightarrow>
     steps_ok (\<lambda>s. artifact st m s \<in> {artifact st m (w_fs w), new_artifact m meta}) w w'
     \<and> (case r of
          Inl e \<Rightarrow> artifact st m (w_fs w') \<in> {artifact st m (w_fs w), new_artifact m meta}
        | Inr res \<Rightarrow> artifact st m (w_fs w') = (if inst_updated res then new_artifact m meta else artifact st m (w_fs w)))"
proof (cases "install_dir st (ref_of m)")
  case (Inl e)
  then have "artifact st m = (\<lambda>s. (None, None))" by (simp add: artifact_def fun_eq_iff)
  moreover from Inl have "\<exists>e'. install_manifest_atomic token st m meta w = (Inl e', w)"
    by (simp add: install_manifest_atomic_def Let_def) (simp add: io_raise_def)
  ultimately show ?thesis by auto
next
  case (Inr final)
  obtain r w' where run: "install_manifest_atomic token st m meta w = (r, w')" by fastforce
  from tripleD [OF triple_install [where meta = meta and token = token, OF Inr] refl run] Inr run
  show ?thesis by (auto simp: artifact_def split: sum.splits)
qed

text \<open>Two stores: an empty one, and one where the place of the capability holds a stray file.\<close>

definition tiny_manifest :: json where
  "tiny_manifest = JObj [(''id'', JStr ''a''), (''version'', JStr ''1'')]"

definition empty_world :: world where
  "empty_world = \<lparr>w_fs = [([''v''], DirN)], w_faults = [], w_hist = [], w_sent = [], w_nonces = [], w_log = []\<rparr>"

definition stray_world :: world where
  "stray_world = empty_world\<lparr>w_fs :=
     [([''v''], DirN), ([''v'', ''manifests''], DirN), ([''v'', ''manifests'', ''a''], DirN),
      ([''v'', ''manifests'', ''a'', ''1''], DirN), ([''v'', ''manifests'', ''a'', ''1'', ''n''], FileN (Raw ''x''))]\<rparr>"

definition tiny_store :: capability_store where
  "tiny_store = \<lparr>base_dir = [''v''], base_catalog_path = None, repo_root = []\<rparr>"

definition install_tiny :: "world \<Rightarrow> install_result res \<times> world" where
  "install_tiny = install_manifest_atomic ''x'' tiny_store tiny_manifest JNull"

text \<open>
  What a caller sees: installing into an empty store succeeds and puts both files in
  place; installing again changes nothing and reports no update; and when the directory of
  the capability exists, without a manifest but not empty, the call reports success although
  no manifest is installed, because that error counts as a concurrent install.
\<close>

theorem install_outcomes:
  "(case install_tiny empty_world of (r, w1) \<Rightarrow>
      r = Inr \<lparr>inst_ref = ref_of tiny_manifest, inst_updated = True\<rparr>
      \<and> artifact tiny_store tiny_manifest (w_fs w1) = new_artifact tiny_manifest JNull
      \<and> fst (install_tiny w1) = Inr \<lparr>inst_ref = ref_of tiny_manifest, inst_updated = False\<rparr>)
   \<and> (case install_tiny stray_world of (r, w1) \<Rightarrow>
      r = Inr \<lparr>inst_ref = ref_of tiny_manifest, inst_updated = False\<rparr>
      \<and> artifact tiny_store tiny_manifest (w_fs w1) = (None, None))"
  by code_simp

end
