(* ===== verification/File_Lock.thy ===== *)
theory File_Lock
  imports Installer
begin

text \<open>
  src/locks.py as it acts on the disk: acquiring a lock makes its directory and its file
  when they are missing, and may fail. Which thread gets a lock when is in Locks. Releasing
  has no effect that can be seen here.
\<close>

section \<open>Acquiring\<close>

text \<open>\<open>path.open("a+")\<close>: the content of an existing file stays.\<close>

definition open_append :: "path \<Rightarrow> unit io" where
  "open_append p = prim (\<lambda>s. case fs_get s p of
     Some (FileN d) \<Rightarrow> Inr ((), s)
   | Some DirN \<Rightarrow> Inl (os_error 21)
   | None \<Rightarrow> if is_dir s (parent p) then Inr ((), fs_put p (FileN (Raw [])) s) else Inl (os_error 2))"

text \<open>\<open>fcntl.flock\<close>, in either mode: it changes no file, but it may fail.\<close>

definition flock :: "unit io" where
  "flock = prim (\<lambda>s. Inr ((), s))"

definition take_lock :: "path \<Rightarrow> unit io" where
  "take_lock p = io_bind (mkdir_p (parent p)) (\<lambda>_. io_bind (open_append p) (\<lambda>_. flock))"

text \<open>\<open>with lock.shared(): body\<close> and \<open>with lock.exclusive(): body\<close>\<close>

definition with_lock :: "path \<Rightarrow> 'a io \<Rightarrow> 'a io" where
  "with_lock p body = io_bind (take_lock p) (\<lambda>_. body)"

section \<open>What acquiring leaves behind\<close>

text \<open>
  \<open>lock_made p s s'\<close>: nothing that was there has changed; what is new are directories on
  the way to the lock file, and the lock file itself, empty.
\<close>

definition lock_made :: "path \<Rightarrow> fs \<Rightarrow> fs \<Rightarrow> bool" where
  "lock_made p s s' \<longleftrightarrow> (\<forall>q. fs_get s' q = fs_get s q
     \<or> fs_get s q = None \<and> q \<noteq> [] \<and> (if q = p then fs_get s' q = Some (FileN (Raw []))
         else is_prefix q p \<and> fs_get s' q = Some DirN))"

lemma lock_madeD: "lock_made p s s' \<Longrightarrow> fs_get s' q = fs_get s q
     \<or> fs_get s q = None \<and> q \<noteq> [] \<and> (if q = p then fs_get s' q = Some (FileN (Raw []))
         else is_prefix q p \<and> fs_get s' q = Some DirN)"
  by (simp add: lock_made_def)

lemma lock_made_refl [simp]: "lock_made p s s"
  by (simp add: lock_made_def)

lemma lock_made_trans: "lock_made p s t \<Longrightarrow> lock_made p t u \<Longrightarrow> lock_made p s u"
  unfolding lock_made_def by metis

lemma lock_made_same: "lock_made p s s' \<Longrightarrow> \<not> is_prefix q p \<Longrightarrow> fs_get s' q = fs_get s q"
  using lock_madeD [of p s s' q] by (cases "q = p") auto

lemma lock_made_keeps: "lock_made p s s' \<Longrightarrow> fs_get s q = Some n \<Longrightarrow> fs_get s' q = Some n"
  using lock_madeD [of p s s' q] by auto

lemma prefixes_parent_prefix: "q \<in> set (prefixes_of (parent p)) \<Longrightarrow> is_prefix q p"
  using prefixes_are_prefixes is_prefix_trans parent_prefix by blast

lemma mkdir_made:
  assumes "p \<noteq> []" and "mk_dirs (prefixes_of (parent p)) s = Inr s'"
  shows "lock_made p s s'"
  unfolding lock_made_def
proof
  fix q
  have root: "q \<in> set (prefixes_of (parent p)) \<Longrightarrow> q \<noteq> []" by (auto simp: prefixes_of_def)
  from mk_dirs_keeps [OF assms(2)] have k: "keeps {} s s'" and o: "q \<notin> set (prefixes_of (parent p)) \<Longrightarrow> fs_get s' q = fs_get s q"
    by auto
  show "fs_get s' q = fs_get s q \<or> fs_get s q = None \<and> q \<noteq> [] \<and> (if q = p then fs_get s' q = Some (FileN (Raw []))
      else is_prefix q p \<and> fs_get s' q = Some DirN)"
  proof (cases "q \<in> set (prefixes_of (parent p))")
    case True
    then have "is_prefix q p" "q \<noteq> p" using prefixes_parent_prefix not_in_prefixes_parent [OF assms(1)] by auto
    with keepsD [OF k, of q] root [OF True] show ?thesis by auto
  qed (simp add: o)
qed

lemma triple_take_lock:
  assumes "p \<noteq> []"
  shows "triple (lock_made p s0) (\<lambda>w. lock_made p s0 (w_fs w)) (take_lock p)
    (\<lambda>_ w. lock_made p s0 (w_fs w)) (\<lambda>_ w. lock_made p s0 (w_fs w))"
proof -
  let ?I = "lock_made p s0"
  have prim: "triple ?I (\<lambda>w. ?I (w_fs w)) (prim f) (\<lambda>_ w. ?I (w_fs w)) (\<lambda>_ w. ?I (w_fs w))"
    if "\<And>s a s'. f s = Inr (a, s') \<Longrightarrow> lock_made p s s'" for f :: "fs \<Rightarrow> (unit \<times> fs) res"
    by (rule triple_prim [where P = ?I and Q = "\<lambda>_. ?I" and E = "\<lambda>_. ?I"]) (use that lock_made_trans in blast)+
  have mk: "triple ?I (\<lambda>w. ?I (w_fs w)) (mkdir_p (parent p)) (\<lambda>_ w. ?I (w_fs w)) (\<lambda>_ w. ?I (w_fs w))"
    unfolding mkdir_p_def
    by (rule prim, case_tac "mk_dirs (prefixes_of (parent p)) s") (auto dest: mkdir_made [OF assms])
  have opn: "triple ?I (\<lambda>w. ?I (w_fs w)) (open_append p) (\<lambda>_ w. ?I (w_fs w)) (\<lambda>_ w. ?I (w_fs w))"
    unfolding open_append_def
    by (rule prim) (use assms in \<open>auto simp: lock_made_def split: option.splits node.splits if_splits\<close>)
  have fl: "triple ?I (\<lambda>w. ?I (w_fs w)) flock (\<lambda>_ w. ?I (w_fs w)) (\<lambda>_ w. ?I (w_fs w))"
    unfolding flock_def by (rule prim) simp
  show ?thesis
    unfolding take_lock_def by (rule triple_bind [OF mk triple_bind [OF opn fl]])
qed

lemma take_lock_run:
  assumes "p \<noteq> []" and "take_lock p w = (r, w')"
  shows "lock_made p (w_fs w) (w_fs w')" "steps_ok (lock_made p (w_fs w)) w w'"
  using tripleD [OF triple_take_lock [OF assms(1), of "w_fs w"] lock_made_refl assms(2)] by (auto split: sum.splits)

lemma prim_rest:
  "prim f w = (r, w') \<Longrightarrow> w_sent w' = w_sent w \<and> w_log w' = w_log w \<and> w_nonces w' = w_nonces w"
  by (auto simp: prim_def Let_def split: if_splits option.splits sum.splits)

lemma take_lock_rest:
  assumes "take_lock p w = (r, w')"
  shows "w_sent w' = w_sent w \<and> w_log w' = w_log w \<and> w_nonces w' = w_nonces w"
  using assms
  by (auto simp: take_lock_def mkdir_p_def open_append_def flock_def io_bind_def dest!: prim_rest split: prod.splits sum.splits)

text \<open>Under a lock: an exception of the acquisition, or the body in a world with the lock.\<close>

lemma with_lock_cases:
  assumes "p \<noteq> []" and "with_lock p body w = (r, w')"
  obtains (refused) e where "take_lock p w = (Inl e, w')" "r = Inl e" "lock_made p (w_fs w) (w_fs w')"
      "w_sent w' = w_sent w" "w_log w' = w_log w" "w_nonces w' = w_nonces w"
  | (held) w1 where "take_lock p w = (Inr (), w1)" "body w1 = (r, w')" "lock_made p (w_fs w) (w_fs w1)"
      "w_sent w1 = w_sent w" "w_log w1 = w_log w" "w_nonces w1 = w_nonces w"
  using assms(2) take_lock_run(1) [OF assms(1)] take_lock_rest
  by (cases "take_lock p w") (auto simp: with_lock_def io_bind_def split: sum.splits)

section \<open>Frames\<close>

lemma touches_take_lock:
  assumes "p \<noteq> []"
  shows "touches {q. is_prefix q p} (take_lock p)"
  unfolding touches_def
proof (intro allI tripleI)
  fix s0 w r w'
  assume s: "same_off {q. is_prefix q p} s0 (w_fs w)" and run: "take_lock p w = (r, w')"
  have "same_off {q. is_prefix q p} s0 t" if "lock_made p (w_fs w) t" for t
    using that s lock_made_same by (auto simp: same_off_def)
  with take_lock_run [OF assms run]
  show "steps_ok (same_off {q. is_prefix q p} s0) w w' \<and> (case r of Inl e \<Rightarrow> same_off {q. is_prefix q p} s0 (w_fs w')
      | Inr a \<Rightarrow> same_off {q. is_prefix q p} s0 (w_fs w'))"
    by (auto simp: steps_ok_def split: sum.splits)
qed

lemma touches_with_lock:
  "p \<noteq> [] \<Longrightarrow> {q. is_prefix q p} \<subseteq> X \<Longrightarrow> touches X body \<Longrightarrow> touches X (with_lock p body)"
  unfolding with_lock_def by (intro touches_bind touches_mono [OF touches_take_lock])

lemma take_lock_silent: "sends_only P (take_lock p)"
  by (rule sends_only_silent) (use take_lock_rest [OF surjective_pairing] in blast)

lemma with_lock_sends [sends_rules]: "sends_only P body \<Longrightarrow> sends_only P (with_lock p body)"
  unfolding with_lock_def by (rule sends_only_bind [OF take_lock_silent])

section \<open>When a lock is granted\<close>

text \<open>No file is in the way of the lock file, and no directory in its place.\<close>

definition lock_open :: "fs \<Rightarrow> path \<Rightarrow> bool" where
  "lock_open s p \<longleftrightarrow> p \<noteq> [] \<and> list_all (\<lambda>q. fs_get s q = None \<or> fs_get s q = Some DirN) (prefixes_of (parent p))
     \<and> fs_get s p \<noteq> Some DirN"

lemma mk_dirs_open:
  "list_all (\<lambda>q. fs_get s q = None \<or> fs_get s q = Some DirN) ps \<Longrightarrow> \<exists>s'. mk_dirs ps s = Inr s'"
proof (induction ps s rule: mk_dirs.induct)
  case (2 p ps s)
  then show ?case
    by (cases "fs_get s p") (auto simp: list_all_iff)
qed simp

lemma take_lock_granted:
  assumes "w_faults w = []" and "lock_open (w_fs w) p"
  shows "\<exists>w'. take_lock p w = (Inr (), w') \<and> w_faults w' = [] \<and> lock_made p (w_fs w) (w_fs w')"
proof -
  let ?par = "parent p"
  from assms(2) have p: "p \<noteq> []" and free: "fs_get (w_fs w) p \<noteq> Some DirN"
    by (auto simp: lock_open_def)
  obtain s1 where s1: "mk_dirs (prefixes_of ?par) (w_fs w) = Inr s1"
    using mk_dirs_open assms(2) unfolding lock_open_def by blast
  from mk_dirs_keeps [OF s1] have dir: "is_dir s1 ?par"
    by (cases "?par = []") (auto simp: is_dir_def dest: self_in_prefixes)
  have "fs_get s1 p = fs_get (w_fs w) p"
    using mk_dirs_keeps [OF s1] not_in_prefixes_parent [OF p] by blast
  with free have "fs_get s1 p \<noteq> Some DirN" by simp
  then have "\<exists>w'. take_lock p w = (Inr (), w') \<and> w_faults w' = []"
    using assms(1) s1 dir
    by (auto simp: take_lock_def mkdir_p_def open_append_def flock_def prim_def io_defs split: option.splits node.splits)
  then show ?thesis using take_lock_run(1) [OF p] by blast
qed

lemma lock_open_after:
  assumes "lock_open s p" and "lock_made p s s'"
  shows "lock_open s' p"
  using assms lock_madeD [OF assms(2)] not_in_prefixes_parent [of p]
  unfolding lock_open_def list_all_iff by (metis option.inject node.distinct(1))

end
