(* ===== verification/Locks.thy ===== *)
theory Locks
  imports Main
begin

text \<open>
  src/locks.py: advisory whole-file locks. Each use of a lock opens the file anew, so two
  uses conflict even within one process: \<open>flock\<close> grants a shared lock when every holder is
  shared and an exclusive lock when there is no holder, and blocks otherwise. Threads run
  programs of acquisitions, work and releases; a context manager acquires on entry and
  releases on every exit, so programs are bracketed.
\<close>

section \<open>Locks and threads\<close>

datatype lock_mode = LockSH | LockEX

datatype lock_act = Acquire lock_mode | Work | Release

text \<open>A thread: the locks it holds, innermost first, and what it still has to do.\<close>

record thread =
  holds :: "lock_mode list"
  todo :: "lock_act list"

definition holders :: "thread list \<Rightarrow> lock_mode list" where
  "holders ts = concat (map holds ts)"

definition grantable :: "lock_mode \<Rightarrow> lock_mode list \<Rightarrow> bool" where
  "grantable m hs = (case m of LockSH \<Rightarrow> list_all (\<lambda>h. h = LockSH) hs | LockEX \<Rightarrow> hs = [])"

definition enabled :: "thread list \<Rightarrow> nat \<Rightarrow> bool" where
  "enabled ts i =
     (i < length ts \<and>
      (case todo (ts ! i) of
         [] \<Rightarrow> False
       | Acquire m # _ \<Rightarrow> grantable m (holders ts)
       | _ \<Rightarrow> True))"

definition advance :: "thread \<Rightarrow> thread" where
  "advance t =
     (case todo t of
        [] \<Rightarrow> t
      | Acquire m # r \<Rightarrow> \<lparr>holds = m # holds t, todo = r\<rparr>
      | Work # r \<Rightarrow> t\<lparr>todo := r\<rparr>
      | Release # r \<Rightarrow> \<lparr>holds = tl (holds t), todo = r\<rparr>)"

inductive lock_step :: "thread list \<Rightarrow> thread list \<Rightarrow> bool" where
  step: "enabled ts i \<Longrightarrow> lock_step ts (ts[i := advance (ts ! i)])"

inductive_cases lock_stepE: "lock_step ts ts'"

inductive reaches :: "thread list \<Rightarrow> thread list \<Rightarrow> bool" where
  reaches_refl: "reaches ts ts"
| reaches_next: "reaches ts us \<Longrightarrow> lock_step us vs \<Longrightarrow> reaches ts vs"

section \<open>The programs of the code\<close>

text \<open>\<open>with lock.shared(): body\<close> and \<open>with lock.exclusive(): body\<close>\<close>

definition shared :: "lock_act list \<Rightarrow> lock_act list" where
  "shared body = Acquire LockSH # body @ [Release]"

definition exclusive :: "lock_act list \<Rightarrow> lock_act list" where
  "exclusive body = Acquire LockEX # body @ [Release]"

text \<open>How the resolver uses the store lock: \<open>run\<close> calls \<open>get\<close> inside its own shared lock.\<close>

definition prog_list :: "lock_act list" where
  "prog_list = shared [Work]"

definition prog_get :: "lock_act list" where
  "prog_get = shared [Work]"

definition prog_search :: "lock_act list" where
  "prog_search = shared [Work] @ [Work]"

definition prog_remove :: "lock_act list" where
  "prog_remove = exclusive [Work, Work]"

definition prog_install :: "lock_act list" where
  "prog_install = exclusive [Work, Work]"

definition prog_run :: "lock_act list" where
  "prog_run = shared (prog_get @ [Work])"

definition resolver_programs :: "lock_act list list" where
  "resolver_programs = [prog_list, prog_get, prog_search, prog_remove, prog_install, prog_run]"

section \<open>The discipline\<close>

text \<open>
  Bracketed, everything released at the end, nothing acquired inside an exclusive lock, and
  no exclusive lock inside a shared one.
\<close>

fun disciplined :: "lock_mode list \<Rightarrow> lock_act list \<Rightarrow> bool" where
  "disciplined hs [] = (hs = [])"
| "disciplined hs (Acquire m # r) =
     ((case m of LockSH \<Rightarrow> list_all (\<lambda>h. h = LockSH) hs | LockEX \<Rightarrow> hs = []) \<and> disciplined (m # hs) r)"
| "disciplined hs (Work # r) = disciplined hs r"
| "disciplined hs (Release # r) = (hs \<noteq> [] \<and> disciplined (tl hs) r)"

definition sound :: "thread list \<Rightarrow> bool" where
  "sound ts \<longleftrightarrow> list_all (\<lambda>t. disciplined (holds t) (todo t)) ts"

text \<open>Only shared holders, or one exclusive holder alone.\<close>

definition compatible :: "lock_mode list \<Rightarrow> bool" where
  "compatible hs \<longleftrightarrow> list_all (\<lambda>h. h = LockSH) hs \<or> hs = [LockEX]"

definition start :: "lock_act list list \<Rightarrow> thread list" where
  "start progs = map (\<lambda>p. \<lparr>holds = [], todo = p\<rparr>) progs"

lemma holders_start [simp]: "holders (start progs) = []"
  by (simp add: holders_def start_def)

lemma sound_start: "list_all (disciplined []) progs \<Longrightarrow> sound (start progs)"
  by (simp add: sound_def start_def list_all_iff)

lemma holders_update:
  assumes "i < length ts"
  shows "holders (ts[i := t]) = holders (take i ts) @ holds t @ holders (drop (Suc i) ts)"
    and "holders ts = holders (take i ts) @ holds (ts ! i) @ holders (drop (Suc i) ts)"
proof -
  show "holders (ts[i := t]) = holders (take i ts) @ holds t @ holders (drop (Suc i) ts)"
    using assms by (simp add: holders_def upd_conv_take_nth_drop)
  show "holders ts = holders (take i ts) @ holds (ts ! i) @ holders (drop (Suc i) ts)"
    using assms by (subst id_take_nth_drop [of i ts]) (simp_all add: holders_def)
qed

lemma advance_disciplined: "disciplined (holds t) (todo t) \<Longrightarrow> disciplined (holds (advance t)) (todo (advance t))"
  by (cases "(holds t, todo t)" rule: disciplined.cases) (auto simp: advance_def)

lemma step_sound: "lock_step ts us \<Longrightarrow> sound ts \<Longrightarrow> sound us"
  by (auto elim!: lock_stepE simp: sound_def list_all_length nth_list_update enabled_def advance_disciplined)

lemma compatible_tl: "compatible (a @ hs @ b) \<Longrightarrow> compatible (a @ tl hs @ b)"
  by (cases hs) (auto simp: compatible_def append_eq_Cons_conv)

lemma step_compatible:
  assumes "lock_step ts us" and "compatible (holders ts)"
  shows "compatible (holders us)"
  using assms(1)
proof (cases rule: lock_step.cases)
  case (step i)
  then have i: "i < length ts" by (simp add: enabled_def)
  note h = holders_update(1) [OF i, of "advance (ts ! i)"] holders_update(2) [OF i]
  show ?thesis
  proof (cases "todo (ts ! i)")
    case Nil
    with step show ?thesis by (simp add: enabled_def)
  next
    case (Cons a r)
    show ?thesis
    proof (cases a)
      case (Acquire m)
      with step Cons have "grantable m (holders ts)" by (simp add: enabled_def)
      then show ?thesis
        using h Cons Acquire step
        by (cases m) (auto simp: advance_def grantable_def compatible_def)
    next
      case Work
      then show ?thesis using h Cons step assms(2) by (simp add: advance_def)
    next
      case Release
      then show ?thesis using h Cons step assms(2) compatible_tl by (simp add: advance_def)
    qed
  qed
qed

lemma reaches_invariant:
  "reaches ts us \<Longrightarrow> sound ts \<Longrightarrow> compatible (holders ts) \<Longrightarrow> sound us \<and> compatible (holders us)"
  by (induction rule: reaches.induct) (auto dest: step_sound step_compatible)

section \<open>Progress\<close>

lemma sound_nth: "sound ts \<Longrightarrow> i < length ts \<Longrightarrow> disciplined (holds (ts ! i)) (todo (ts ! i))"
  by (simp add: sound_def list_all_length)

lemma holder_index: "h \<in> set (holders ts) \<Longrightarrow> \<exists>i < length ts. h \<in> set (holds (ts ! i))"
proof -
  assume "h \<in> set (holders ts)"
  then obtain t where "t \<in> set ts" and h: "h \<in> set (holds t)" by (auto simp: holders_def)
  then obtain i where "i < length ts" "ts ! i = t" by (auto simp: in_set_conv_nth)
  with h show ?thesis by auto
qed

lemma progress:
  assumes s: "sound ts" and c: "compatible (holders ts)" and t: "i < length ts" "todo (ts ! i) \<noteq> []"
  shows "\<exists>j. enabled ts j"
proof (cases "holders ts")
  case Nil
  with t show ?thesis
    by (intro exI [of _ i]) (auto simp: enabled_def grantable_def split: list.split lock_act.split lock_mode.split)
next
  case (Cons h hs)
  then obtain j where j: "j < length ts" "h \<in> set (holds (ts ! j))"
    using holder_index [of h ts] by auto
  note d = sound_nth [OF s j(1)]
  from d j(2) have ne: "todo (ts ! j) \<noteq> []" by (cases "todo (ts ! j)") auto
  then obtain a r where a: "todo (ts ! j) = a # r" by (cases "todo (ts ! j)") auto
  show ?thesis
  proof (cases a)
    case (Acquire m)
    with d a j(2) have m: "m = LockSH" and "list_all (\<lambda>h. h = LockSH) (holds (ts ! j))"
      by (auto split: lock_mode.splits)
    with j(2) have "h = LockSH" by (auto simp: list_all_iff)
    with c Cons have "list_all (\<lambda>h. h = LockSH) (holders ts)" by (auto simp: compatible_def)
    with m a Acquire j(1) show ?thesis
      by (intro exI [of _ j]) (simp add: enabled_def grantable_def)
  qed (use a j(1) in \<open>auto intro!: exI [of _ j] simp: enabled_def\<close>)
qed

text \<open>Every step shortens what is left to do, so executions end.\<close>

definition work_left :: "thread list \<Rightarrow> nat" where
  "work_left ts = sum_list (map (\<lambda>t. length (todo t)) ts)"

lemma advance_shorter: "todo t \<noteq> [] \<Longrightarrow> Suc (length (todo (advance t))) = length (todo t)"
  by (cases "todo t") (auto simp: advance_def split: lock_act.splits)

lemma step_shorter: "lock_step ts us \<Longrightarrow> work_left ts = Suc (work_left us)"
proof (erule lock_stepE)
  fix i
  assume us: "us = ts[i := advance (ts ! i)]" and en: "enabled ts i"
  then have i: "i < length ts" "todo (ts ! i) \<noteq> []" by (auto simp: enabled_def)
  then show "work_left ts = Suc (work_left us)"
    using advance_shorter [OF i(2)] unfolding us work_left_def
    by (subst id_take_nth_drop [OF i(1)]) (simp add: upd_conv_take_nth_drop)
qed

text \<open>The shapes of the resolver keep the discipline.\<close>

lemma resolver_inv:
  assumes "set progs \<subseteq> set resolver_programs" and "reaches (start progs) ts"
  shows "sound ts" and "compatible (holders ts)"
proof -
  have "list_all (disciplined []) resolver_programs" by code_simp
  with assms(1) have "sound (start progs)" by (intro sound_start) (auto simp: list_all_iff)
  with reaches_invariant [OF assms(2)] show "sound ts" "compatible (holders ts)"
    by (auto simp: compatible_def)
qed

lemma stuck_finished:
  assumes "sound ts" and "compatible (holders ts)" and "\<nexists>us. lock_step ts us"
  shows "list_all (\<lambda>t. todo t = []) ts"
proof (rule ccontr)
  assume "\<not> ?thesis"
  then obtain i where "i < length ts" "todo (ts ! i) \<noteq> []" by (auto simp: list_all_length)
  from progress [OF assms(1,2) this] obtain j where "enabled ts j" ..
  with assms(3) show False using lock_step.step by blast
qed

section \<open>Properties\<close>

text \<open>
  C17: in every interleaving of any number of uses of the store lock in the shapes the
  resolver has, an exclusive holder is alone, and unless every thread has finished some
  thread can go on: the nested shared lock of \<open>run\<close> never waits for a writer.
\<close>

theorem lock_safe_and_live:
  assumes "set progs \<subseteq> set resolver_programs" and "reaches (start progs) ts"
  shows "compatible (holders ts)
    \<and> (list_all (\<lambda>t. todo t = []) ts \<or> (\<exists>us. lock_step ts us \<and> work_left us < work_left ts))"
  using resolver_inv [OF assms] stuck_finished [OF resolver_inv [OF assms]] step_shorter by fastforce

lemma lock_safe_and_live_witness:
  "compatible (holders (start [prog_run, prog_install]))
    \<and> (list_all (\<lambda>t. todo t = []) (start [prog_run, prog_install])
       \<or> (\<exists>us. lock_step (start [prog_run, prog_install]) us
            \<and> work_left us < work_left (start [prog_run, prog_install])))"
  by (rule lock_safe_and_live [of "[prog_run, prog_install]"])
     (simp_all add: resolver_programs_def reaches.reaches_refl)

text \<open>
  The discipline is needed: a program that takes the lock exclusively while it
  holds it shared waits for itself, since the two uses are different open files.
\<close>

theorem upgrade_deadlocks:
  "reaches (start [shared (exclusive [Work])]) [\<lparr>holds = [LockSH], todo = exclusive [Work] @ [Release]\<rparr>]
   \<and> (\<forall>us. \<not> lock_step [\<lparr>holds = [LockSH], todo = exclusive [Work] @ [Release]\<rparr>] us)"
proof
  have "lock_step (start [shared (exclusive [Work])])
      ((start [shared (exclusive [Work])])[0 := advance (start [shared (exclusive [Work])] ! 0)])"
    by (rule lock_step.step) (simp add: enabled_def start_def shared_def grantable_def holders_def)
  then show "reaches (start [shared (exclusive [Work])]) [\<lparr>holds = [LockSH], todo = exclusive [Work] @ [Release]\<rparr>]"
    using reaches.reaches_next [OF reaches.reaches_refl] by (simp add: start_def shared_def advance_def)
  show "\<forall>us. \<not> lock_step [\<lparr>holds = [LockSH], todo = exclusive [Work] @ [Release]\<rparr>] us"
    by (auto elim!: lock_stepE simp: enabled_def exclusive_def grantable_def holders_def)
qed

end
