(* ===== verification/Resolver.thy ===== *)
theory Resolver
  imports Execution Governance File_Lock Locks
begin

text \<open>
  src/resolver.py: the capability resolver. Each operation acquires the store lock first
  (which may make the lock file, and may fail) and does its work, a definition of its own named
  \<open>..._locked\<close>, as one operation on the world; the modes and the waiting are in Locks.
  \<open>adapters\<close> are the listings of the configured registries.
\<close>

section \<open>Configuration\<close>

record resolver =
  r_store :: capability_store
  r_policy :: capability_policy
  r_runtime :: runtime_env
  r_egress :: "egress_config option"
  r_transport :: transport
  r_adapters :: "listing list"
  r_validator :: validator
  r_sha :: "string \<Rightarrow> string"
  r_clock :: clock_env
  r_env :: env
  r_resolve_path :: "string \<Rightarrow> path"

definition store_lock :: "resolver \<Rightarrow> path" where
  "store_lock R = lock_path (r_store R)"

definition normalize_digest :: "string \<Rightarrow> string" where
  "normalize_digest digest =
     (let d = str_lower (str_strip digest) in if starts_with ''sha256:'' d then drop 7 d else d)"

section \<open>Listing and lookup\<close>

definition summary :: "json \<Rightarrow> json" where
  "summary m = JObj
     [(''id'', jget m ''id''), (''version'', jget m ''version''), (''type'', jget m ''type''),
      (''description'', jget m ''description''), (''trust_level'', jget m ''trust_level''),
      (''enabled'', get_or m ''enabled'' (JBool True)), (''requires_oauth'', get_or m ''requires_oauth'' (JBool False))]"

definition list_locked :: "resolver \<Rightarrow> json list io" where
  "list_locked R =
     io_bind (merged_catalog (r_validator R) (r_store R)) (\<lambda>merged.
     io_return (map (\<lambda>(cid, m). summary m) (sort_key fst merged)))"

definition resolver_list :: "resolver \<Rightarrow> json list io" where
  "resolver_list R = with_lock (store_lock R) (list_locked R)"

definition get_locked :: "resolver \<Rightarrow> string \<Rightarrow> string option \<Rightarrow> json io" where
  "get_locked R cid version =
     io_bind (merged_catalog (r_validator R) (r_store R)) (\<lambda>merged.
     case dget merged cid of
       None \<Rightarrow> io_raise (CapabilityNotFoundError (''capability not found: '' @ cid))
     | Some m \<Rightarrow>
         (case version of
            Some v \<Rightarrow> if v \<noteq> [] \<and> py_str (jget m ''version'') \<noteq> v
              then io_raise (CapabilityNotFoundError (''capability version not found: '' @ cid @ ''@'' @ v))
              else io_return m
          | None \<Rightarrow> io_return m))"

definition resolver_get :: "resolver \<Rightarrow> string \<Rightarrow> string option \<Rightarrow> json io" where
  "resolver_get R cid version = with_lock (store_lock R) (get_locked R cid version)"

section \<open>Removing\<close>

text \<open>\<open>try: m except Exception: pass\<close>\<close>

definition best_effort :: "'a io \<Rightarrow> unit io" where
  "best_effort m = io_ignore (io_bind m (\<lambda>_. io_return ()))"

definition remove_locked :: "resolver \<Rightarrow> string \<Rightarrow> string \<Rightarrow> string \<Rightarrow> bool io" where
  "remove_locked R token cid version =
     io_bind (merged_catalog (r_validator R) (r_store R)) (\<lambda>merged.
     if dget merged cid = None then io_return False
     else
       io_bind (delete_local (r_validator R) token (r_store R) cid) (\<lambda>removed_local.
       io_bind (if removed_local then io_return ()
                else set_local_enabled (r_validator R) token (r_store R) cid False) (\<lambda>_.
       io_bind (best_effort (store_remove (r_store R) \<lparr>capability_id = cid, ref_version = version\<rparr>)) (\<lambda>_.
       io_return True))))"

definition resolver_remove :: "resolver \<Rightarrow> string \<Rightarrow> string \<Rightarrow> string \<Rightarrow> bool io" where
  "resolver_remove R token cid version = with_lock (store_lock R) (remove_locked R token cid version)"

section \<open>Searching and resolving\<close>

definition catalog_candidate :: "(string \<Rightarrow> string) \<Rightarrow> string \<Rightarrow> json \<Rightarrow> candidate" where
  "catalog_candidate sha intent m =
     (let base = score_manifest intent m in
      make_candidate sha ''catalog'' m (base + (if base > 0 then 40 else 0)) None)"

text \<open>Adapters that raise are skipped.\<close>

fun ask_adapters :: "listing list \<Rightarrow> string \<Rightarrow> candidate list io" where
  "ask_adapters [] q = io_return []"
| "ask_adapters (a # as) q =
     io_bind (io_try (a q) (\<lambda>_. io_return [])) (\<lambda>cs.
     io_bind (ask_adapters as q) (\<lambda>r. io_return (cs @ r)))"

definition trust_filter :: "json \<Rightarrow> candidate list \<Rightarrow> candidate list" where
  "trust_filter constraints cs =
     (let allow = jget constraints ''trust_allow'' in
      if is_list allow \<and> items allow \<noteq> [] then
        filter (\<lambda>c. py_str (jget (cand_manifest c) ''trust_level'') \<in> set (map py_str (items allow))) cs
      else cs)"

text \<open>Only the catalog is read under the lock; the registries are asked after its release.\<close>

definition resolver_search :: "resolver \<Rightarrow> string \<Rightarrow> json \<Rightarrow> candidate list io" where
  "resolver_search R intent constraints =
     io_bind (with_lock (store_lock R) (merged_catalog (r_validator R) (r_store R))) (\<lambda>merged.
     io_bind (ask_adapters (r_adapters R) intent) (\<lambda>more.
     io_return (by_score (trust_filter constraints
       (map (\<lambda>(cid, m). catalog_candidate (r_sha R) intent m) merged @ more)))))"

text \<open>The first candidate of the catalog, or the first one that may be installed.\<close>

fun first_allowed :: "capability_policy \<Rightarrow> candidate list \<Rightarrow> candidate option" where
  "first_allowed pol [] = None"
| "first_allowed pol (c # cs) =
     (if cand_source c = ''catalog'' then Some c
      else if is_ok (enforce_install pol (cand_manifest c)) then Some c
      else first_allowed pol cs)"

definition resolver_resolve :: "resolver \<Rightarrow> json \<Rightarrow> candidate io" where
  "resolver_resolve R step =
     (if \<not> is_dict step then io_raise (CapabilityManifestError ''step must be an object'')
      else
        (let intent = str_or_empty (jget step ''intent'');
             constraints = dict_or_empty (jget step ''constraints'') in
         if intent = [] then io_raise (CapabilityManifestError ''step.intent required'')
         else
           io_bind (resolver_search R intent constraints) (\<lambda>cs.
           if cs = [] then io_raise (CapabilityNotFoundError (''no candidates found for intent: '' @ intent))
           else (case first_allowed (r_policy R) cs of
               Some c \<Rightarrow> io_return c
             | None \<Rightarrow> io_raise (CapabilityNotFoundError (''no policy-allowed candidates for intent: '' @ intent))))))"

section \<open>Installing\<close>

text \<open>The remote manifest, pinned by the digest of the caller's manifest.\<close>

definition fetch_pinned :: "resolver \<Rightarrow> json \<Rightarrow> string \<Rightarrow> json io" where
  "fetch_pinned R manifest manifest_url =
     io_bind (io_lift (urlparse manifest_url)) (\<lambda>u.
     if scheme u \<noteq> ''https'' then io_raise (CapabilityInstallError ''remote manifest fetch requires https'')
     else
       io_bind (io_try
          (io_bind (http_call (r_egress R) (r_transport R) (get_request manifest_url (Dec 5 0)))
             (\<lambda>r. io_lift (response_json r)))
          (\<lambda>e. io_raise (CapabilityInstallError
             (''failed to fetch remote manifest from candidate.manifest_url: '' @ exc_text e)))) (\<lambda>remote.
       if \<not> is_dict remote then io_raise (CapabilityInstallError ''remote manifest must be an object'')
       else
         io_bind (io_lift (validate_manifest (r_validator R) remote)) (\<lambda>_.
         let expected = normalize_digest (str_or_empty (jget (jget manifest ''origin'') ''digest'')) in
         if expected \<noteq> [] \<and> r_sha R (json_dumps True remote) \<noteq> expected then
           io_raise (CapabilityInstallError
             ''origin.digest pinning failed (sha256 of canonical manifest does not match)'')
         else io_return remote)))"

text \<open>Which manifest an install call stores.\<close>

definition manifest_to_install :: "resolver \<Rightarrow> json \<Rightarrow> json io" where
  "manifest_to_install R candidate =
     (if \<not> is_dict candidate \<or> \<not> is_dict (jget candidate ''manifest'') then
        io_raise (CapabilityInstallError ''candidate.manifest required'')
      else
        (let manifest = jget candidate ''manifest'' in
         io_bind (io_lift (validate_manifest (r_validator R) manifest)) (\<lambda>_.
         io_bind (io_lift (enforce_install (r_policy R) manifest)) (\<lambda>_.
         io_bind (io_lift (py_get (py_or (jget manifest ''origin'') (JObj [])) ''source'')) (\<lambda>source.
         case jget candidate ''manifest_url'' of
           JStr u \<Rightarrow> if py_eq source (JStr ''url'') \<and> u \<noteq> [] then fetch_pinned R manifest u
             else io_return manifest
         | _ \<Rightarrow> io_return manifest)))))"

definition copy_payload :: "resolver \<Rightarrow> json \<Rightarrow> capability_ref \<Rightarrow> unit io" where
  "copy_payload R candidate r =
     (let origin = jget (jget candidate ''manifest'') ''origin'' in
      if py_eq (jget origin ''source'') (JStr ''local'') then
        (case jget origin ''path'' of
           JStr p \<Rightarrow> if p \<noteq> [] then best_effort (put_payload_from_path (r_resolve_path R) (r_store R) r p)
             else io_return ()
         | _ \<Rightarrow> io_return ())
      else io_return ())"

definition install_locked :: "resolver \<Rightarrow> string \<Rightarrow> json \<Rightarrow> json io" where
  "install_locked R token candidate =
     io_bind (manifest_to_install R candidate) (\<lambda>manifest.
     io_bind (install_manifest_atomic token (r_store R) manifest
        (JObj [(''installed_via'', jget candidate ''source'')])) (\<lambda>res.
     io_bind (upsert_local (r_validator R) token (r_store R) manifest) (\<lambda>_.
     io_bind (copy_payload R candidate (inst_ref res)) (\<lambda>_.
     io_return (JObj [(''installed'', JObj [(''id'', JStr (capability_id (inst_ref res))),
        (''version'', JStr (ref_version (inst_ref res)))])])))))"

definition resolver_install :: "resolver \<Rightarrow> string \<Rightarrow> json \<Rightarrow> json io" where
  "resolver_install R token candidate = with_lock (store_lock R) (install_locked R token candidate)"

section \<open>Running\<close>

definition requested_channel :: "json \<Rightarrow> json res" where
  "requested_channel args =
     (let requested = py_or (jget args ''execution_channel'') (jget args ''requested_channel'') in
      if truthy requested then Inr requested
      else
        (let maybe = jget args ''channel'' in
         rbind (in_str_set maybe [''programmatic'', ''vdi_vpn'']) (\<lambda>known.
         Inr (if known then maybe else requested))))"

definition opt_text :: "json \<Rightarrow> string option" where
  "opt_text j = (if truthy j then Some (py_str j) else None)"

text \<open>The process-wide replay guard, with the set of nonces in the world.\<close>

definition consume_nonce :: "string \<Rightarrow> unit io" where
  "consume_nonce n = (\<lambda>w. case consume n (w_nonces w) of
     Inl e \<Rightarrow> (Inl e, w) | Inr s \<Rightarrow> (Inr (), w\<lparr>w_nonces := s\<rparr>))"

definition must_authorize :: "resolver \<Rightarrow> json \<Rightarrow> bool" where
  "must_authorize R manifest \<longleftrightarrow>
     py_eq (jget manifest ''governance_version'') (JStr governance_version_v1)
     \<or> str_lower (getenv (r_env R) ''UNISON_CAPABILITY_ALLOW_LEGACY'' ''false'') \<noteq> ''true''"

text \<open>
  Everything \<open>run\<close> does under its lock before it hands over to the execution engine; looking
  the capability up acquires the lock once more.
\<close>

definition run_checks :: "resolver \<Rightarrow> string \<Rightarrow> json \<Rightarrow> json io" where
  "run_checks R cid args =
     (if \<not> is_dict args then io_raise (CapabilityManifestError ''args must be an object'')
      else
        io_bind (io_lift (requested_channel args)) (\<lambda>channel.
        io_bind (resolver_get R cid (opt_text (jget args ''version''))) (\<lambda>manifest.
        io_bind (io_lift (enforce_run manifest (opt_text channel))) (\<lambda>_.
        if must_authorize R manifest then
          (let authority = dict_or_empty (jget args ''authority'') in
           io_bind (io_lift (authorize_execution (r_clock R) manifest authority None)) (\<lambda>_.
           io_bind (consume_nonce (py_str (jget authority ''nonce''))) (\<lambda>_. io_return manifest)))
        else io_return manifest))))"

definition resolver_run :: "resolver \<Rightarrow> string \<Rightarrow> json \<Rightarrow> json io" where
  "resolver_run R cid args =
     with_lock (store_lock R)
       (io_bind (run_checks R cid args) (\<lambda>manifest.
        exec_run (r_runtime R) (r_egress R) (r_transport R) manifest args))"

section \<open>Built-in capabilities\<close>

definition builtin_manifest :: "string \<Rightarrow> string \<Rightarrow> json \<Rightarrow> json \<Rightarrow> string \<Rightarrow> json" where
  "builtin_manifest i description inputs outputs spec = JObj
     [(''id'', JStr i), (''type'', JStr ''tool''), (''version'', JStr ''0.1.0''), (''description'', JStr description),
      (''origin'', JObj [(''source'', JStr ''local''), (''digest'', JStr (''sha256:'' @ replicate 64 (CHR ''0''))),
         (''path'', JStr ''builtin'')]),
      (''interfaces'', JObj
         [(''inputs'', JObj [(''type'', JStr ''object''), (''properties'', inputs)]),
          (''outputs'', JObj [(''type'', JStr ''object''), (''properties'', outputs)])]),
      (''permissions'', JObj [(''network'', JStr ''deny''), (''filesystem'', JStr ''none''), (''devices'', JArr [])]),
      (''runtime'', JObj [(''sandbox'', JStr ''process''),
         (''resources'', JObj [(''cpu'', JStr ''default''), (''memory'', JStr ''default'')]), (''timeout_seconds'', JInt 5)]),
      (''trust_level'', JStr ''local''),
      (''execution'', JObj [(''channel'', JStr ''programmatic'')]),
      (''implementation'', JObj [(''kind'', JStr ''python''), (''python'', JObj [(''callable'', JStr spec)])])]"

definition builtins :: "json list" where
  "builtins =
     [builtin_manifest ''demo.echo'' ''Echo input text'' (JObj [(''text'', JObj [(''type'', JStr ''string'')])])
        (JObj [(''echo'', JObj [])]) ''capability_builtins:echo'',
      builtin_manifest ''demo.time_now'' ''Return current UTC time'' (JObj [])
        (JObj [(''iso'', JObj [])]) ''capability_builtins:time_now'']"

definition builtin_catalog :: "resolver \<Rightarrow> string \<Rightarrow> candidate list res" where
  "builtin_catalog R intent =
     rmapM (\<lambda>m. rbind (validate_manifest (r_validator R) m) (\<lambda>_.
       Inr (make_candidate (r_sha R) ''builtin'' m (score_manifest intent m) None))) builtins"

end
