(* ===== verification/Resolver_Laws.thy ===== *)
theory Resolver_Laws
  imports Resolver
begin

text \<open>
  What the operations of src/resolver.py promise: which part of the disk each can change,
  what installing and removing make of the catalogs, which candidate resolving returns, and
  what stands between a run request and the execution engine.
\<close>

section \<open>Where the store keeps its artifacts\<close>

text \<open>
  The ancestors of the base directory (created on demand) and everything below the three
  directories of artifacts and the one of lock files. The catalog file is in none of them.
\<close>

definition store_area :: "capability_store \<Rightarrow> path set" where
  "store_area st = {q. is_prefix q (base_dir st)
     \<or> list_ex (\<lambda>x. is_prefix (base_dir st @ [x]) q) [''manifests'', ''payloads'', ''tmp'', ''locks'']}"

lemma area_below: "x \<in> {''manifests'', ''payloads'', ''tmp'', ''locks''} \<Longrightarrow> is_prefix (base_dir st @ [x]) p \<Longrightarrow> p \<in> store_area st"
  by (auto simp: store_area_def)

lemma local_not_in_area: "local_catalog st \<notin> store_area st"
  by (auto simp: store_area_def local_catalog_def is_prefix_iff)

lemma area_prefix:
  assumes "p \<in> store_area st" and "is_prefix q p"
  shows "q \<in> store_area st"
proof -
  have "is_prefix q (base_dir st) \<or> is_prefix (base_dir st @ [x]) q"
    if "is_prefix (base_dir st @ [x]) p" for x
    using that assms(2) by (auto simp: is_prefix_iff append_eq_append_conv2 Cons_eq_append_conv)
  then show ?thesis
    using assms is_prefix_trans [OF assms(2)] by (auto simp: store_area_def)
qed

lemma area_extend: "is_prefix p q \<Longrightarrow> \<not> is_prefix p (base_dir st) \<Longrightarrow> p \<in> store_area st \<Longrightarrow> q \<in> store_area st"
  using is_prefix_trans by (auto simp: store_area_def)

lemma area_prefixes: "p \<in> store_area st \<Longrightarrow> set (prefixes_of p) \<subseteq> store_area st"
  using area_prefix prefixes_are_prefixes by blast

lemma area_parent: "p \<in> store_area st \<Longrightarrow> parent p \<in> store_area st"
  using area_prefix parent_prefix by blast

lemma install_dir_area: "install_dir st r = Inr d \<Longrightarrow> is_prefix (base_dir st @ [''manifests'']) d"
  by (rule final_area)

lemma payload_dir_area: "payload_dir st r = Inr d \<Longrightarrow> is_prefix (base_dir st @ [''payloads'']) d"
  by (auto simp: payload_dir_def dir_for_def result_simps path_join_def payloads_dir_def is_prefix_iff)

section \<open>Operations that stay in the area\<close>

named_theorems area_rules

lemma touches_if [touches_rules]:
  "(b \<Longrightarrow> touches X m) \<Longrightarrow> (\<not> b \<Longrightarrow> touches X n) \<Longrightarrow> touches X (if b then m else n)"
  by simp

lemma touches_raise_cases: "touches X (case e of PyError (OSError n) t \<Rightarrow> f n t | _ \<Rightarrow> io_raise e)"
  if "\<And>n t. touches X (f n t)"
  using that by (auto intro: touches_rules split: exc.split pykind.split)

lemma area_mkdir_p [area_rules]: "p \<in> store_area st \<Longrightarrow> touches (store_area st) (mkdir_p p)"
  by (rule touches_mono [OF touches_mkdir_p area_prefixes])

lemma area_mkdir_new [area_rules]: "p \<in> store_area st \<Longrightarrow> touches (store_area st) (mkdir_new p)"
  by (rule touches_mono [OF touches_mkdir_new area_prefixes])

lemma area_rmdir [area_rules]: "p \<in> store_area st \<Longrightarrow> touches (store_area st) (rmdir p)"
  by (rule touches_rmdir)

lemma touches_unlink_missing: "p \<in> X \<Longrightarrow> touches X (unlink_missing_ok p)"
  unfolding unlink_missing_ok_def
  by (intro touches_rules touches_unlink touches_raise_cases) (auto intro: touches_rules)

lemma touches_ignore_os [area_rules]: "touches X m \<Longrightarrow> touches X (ignore_os m)"
  unfolding ignore_os_def by (intro touches_rules touches_raise_cases)

lemma touches_best_effort [area_rules]: "touches X m \<Longrightarrow> touches X (best_effort m)"
  unfolding best_effort_def by (intro touches_rules)

lemma touches_exists [area_rules]: "touches X (exists_io p)"
  unfolding exists_io_def by (rule touches_get)

lemma touches_read [area_rules]: "touches X (read_file p)"
  unfolding read_file_def by (rule touches_prim) (auto split: option.splits node.splits)

lemma touches_copy_file [area_rules]: "q \<in> X \<Longrightarrow> touches X (copy_file p q)"
  unfolding copy_file_def
  by (intro touches_rules touches_read touches_prim) (auto simp: same_off_put split: if_splits)

lemma touches_replace_dir:
  assumes "{q. is_prefix src q \<or> is_prefix dst q} \<subseteq> X"
  shows "touches X (replace_dir src dst)"
  unfolding replace_dir_def
proof (rule touches_prim)
  fix s a s'
  assume "(if \<not> is_dir s src then Inl (os_error 2)
     else if is_file s dst then Inl (os_error 20)
     else if below dst s \<noteq> [] then Inl (os_error 39)
     else if \<not> is_dir s (parent dst) then Inl (os_error 2)
     else Inr ((), map (\<lambda>(q, n). (move_path src dst q, n)) (filter (\<lambda>(q, n). q \<noteq> dst) s))) = Inr (a, s')"
  then have s': "s' = map (\<lambda>(q, n). (move_path src dst q, n)) (filter (\<lambda>(q, n). q \<noteq> dst) s)"
    by (auto split: if_splits)
  have "fs_get s' p = fs_get s p" if "p \<notin> X" for p
  proof -
    from that assms have p: "\<not> is_prefix src p" "\<not> is_prefix dst p" by auto
    then have "move_path src dst k = p \<longleftrightarrow> k = p" for k by (auto simp: move_path_def is_prefix_iff)
    from map_of_rekey [of "filter (\<lambda>(q, n). q \<noteq> dst) s" "move_path src dst" p p, OF this] p
    show ?thesis by (auto simp: s' fs_get_def map_of_filter_key)
  qed
  then show "same_off X s s'" by (simp add: same_off_def)
qed

lemma area_write [area_rules]:
  assumes "p \<in> store_area st" and "tmp_for p token \<in> store_area st"
  shows "touches (store_area st) (atomic_write_json token p j)"
  unfolding atomic_write_json_def
  by (rule touches_mono [OF touches_aw]) (use assms area_prefixes [OF area_parent [OF assms(1)]] in auto)

lemma area_rmtree: "{q. is_prefix p q} \<subseteq> store_area st \<Longrightarrow> touches (store_area st) (rmtree p)"
  by (rule touches_mono [OF touches_rmtree])

section \<open>Acquiring the store lock\<close>

text \<open>What acquiring the lock may make: the directories on the way to the lock file, and that file.\<close>

definition lock_area :: "capability_store \<Rightarrow> path set" where
  "lock_area st = {q. is_prefix q (lock_path st)}"

lemma lock_path_not_Nil [simp]: "lock_path st \<noteq> []" "store_lock R \<noteq> []"
  by (simp_all add: lock_path_def store_lock_def)

lemma lock_area_in_area: "lock_area st \<subseteq> store_area st"
proof -
  have "lock_path st \<in> store_area st"
    by (rule area_below [of "''locks''"]) (simp_all add: lock_path_def locks_dir_def is_prefix_iff)
  then show ?thesis using area_prefix by (auto simp: lock_area_def)
qed

lemma local_off_lock: "\<not> is_prefix (local_catalog st) (lock_path st)"
  by (auto simp: local_catalog_def lock_path_def locks_dir_def is_prefix_iff)

lemma touches_lock: "lock_area st \<subseteq> X \<Longrightarrow> touches X (take_lock (lock_path st))"
  by (rule touches_mono [OF touches_take_lock]) (auto simp: lock_area_def)

lemma touches_locked:
  "lock_area (r_store R) \<subseteq> X \<Longrightarrow> touches X m \<Longrightarrow> touches X (with_lock (store_lock R) m)"
  by (rule touches_with_lock) (auto simp: lock_area_def store_lock_def)

lemma area_locked: "touches (store_area (r_store R)) m \<Longrightarrow> touches (store_area (r_store R)) (with_lock (store_lock R) m)"
  by (rule touches_locked [OF lock_area_in_area])

section \<open>Frames of installing and removing\<close>

lemma area_promote:
  "{q. is_prefix a q \<or> is_prefix b q} \<subseteq> store_area st \<Longrightarrow> touches (store_area st) (promote a b)"
  unfolding promote_def
  by (intro touches_rules touches_replace_dir touches_raise_cases) (auto intro: touches_rules)

lemma area_stage_and_promote:
  assumes f: "is_prefix (base_dir st @ [''manifests'']) final"
    and g: "is_prefix (base_dir st @ [''tmp'']) stage" "is_prefix stage staged"
  shows "touches (store_area st) (stage_and_promote token stage staged final r m meta)"
proof -
  have staged: "is_prefix (base_dir st @ [''tmp'']) staged" using g is_prefix_trans by blast
  then have in_staged: "is_prefix staged q \<Longrightarrow> q \<in> store_area st" for q
    using is_prefix_trans area_below [of "''tmp''" st q] by blast
  have in_final: "is_prefix final q \<Longrightarrow> q \<in> store_area st" for q
    using f is_prefix_trans area_below [of "''manifests''" st q] by blast
  have files: "staged @ [x] \<in> store_area st" for x by (rule in_staged) (simp add: is_prefix_iff)
  have places: "stage \<in> store_area st" "staged \<in> store_area st" "parent final \<in> store_area st"
    using area_below [of "''tmp''" st stage] g(1) in_staged [OF is_prefix_refl] in_final [OF is_prefix_refl]
      area_parent by simp_all
  have "{q. is_prefix staged q \<or> is_prefix final q} \<subseteq> store_area st" using in_staged in_final by blast
  note steps = area_mkdir_new [OF places(1)] area_mkdir_p [OF places(2)] area_mkdir_p [OF places(3)]
    area_promote [OF this]
  have files_written: "touches (store_area st) (atomic_write_json token (staged @ [x]) j)" for x j
    by (rule area_write) (simp_all add: tmp_for_snoc files)
  show ?thesis
    unfolding stage_and_promote_def
    by (intro touches_rules steps files_written)
qed

lemma area_install: "touches (store_area st) (install_manifest_atomic token st m meta)"
proof (cases "install_dir st (ref_of m)")
  case (Inl e)
  then show ?thesis by (simp add: install_manifest_atomic_def Let_def touches_raise)
next
  case (Inr final)
  let ?r = "ref_of m"
  let ?stage = "stage_dir st ?r token" and ?staged = "staged_dir st ?r token"
  have pre: "is_prefix ?stage ?staged" using staged_area [of st ?r token] by (auto simp: is_prefix_iff)
  have root: "stage_root st \<in> store_area st"
    by (rule area_below [of "''tmp''"]) (auto simp: stage_root_def is_prefix_iff)
  have tree: "{q. is_prefix ?stage q} \<subseteq> store_area st"
    using is_prefix_trans [OF stage_area] area_below [of "''tmp''" st] by blast
  note body = area_stage_and_promote [OF final_area [OF Inr] stage_area pre]
  show ?thesis
    unfolding install_manifest_atomic_def Let_def
    by (simp only: Inr io_lift_Inr io_bind_return staged_dir_def [symmetric])
       (intro touches_rules touches_exists area_mkdir_p [OF root] body area_rmtree [OF tree])
qed

lemma touches_remove_tree_entry: "p \<in> X \<Longrightarrow> touches X (remove_tree_entry p)"
  unfolding remove_tree_entry_def
  by (intro touches_bind touches_get) (auto intro!: touches_rules touches_unlink_missing touches_ignore_os touches_rmdir)

lemma below_prefix: "q \<in> set (below p s) \<Longrightarrow> is_prefix p q"
  by (auto simp: below_def)

lemma area_store_remove: "touches (store_area st) (store_remove st r)"
proof (cases "install_dir st r")
  case (Inl e)
  then show ?thesis by (simp add: store_remove_def touches_raise)
next
  case (Inr dir)
  then obtain payload where pl: "payload_dir st r = Inr payload"
    by (auto simp: install_dir_def payload_dir_def dir_for_def result_simps)
  note d = install_dir_area [OF Inr] and p = payload_dir_area [OF pl]
  have dir: "is_prefix dir q \<Longrightarrow> q \<in> store_area st" for q
    using d is_prefix_trans area_below [of "''manifests''" st q] by blast
  have pay: "is_prefix payload q \<Longrightarrow> q \<in> store_area st" for q
    using p is_prefix_trans area_below [of "''payloads''" st q] by blast
  have entries: "touches (store_area st) (io_bind (io_get (\<lambda>w. rev (sort (below dir (w_fs w)))))
      (\<lambda>ps. io_bind (io_foreach remove_tree_entry ps) (\<lambda>_. io_bind (ignore_os (rmdir dir))
        (\<lambda>_. io_bind (ignore_os (rmdir (parent dir))) (\<lambda>_. io_return True)))))"
    by (intro touches_get_bind touches_rules touches_foreach touches_remove_tree_entry touches_ignore_os touches_rmdir
          dir area_parent is_prefix_refl) (simp add: below_prefix)
  have tree: "{q. is_prefix payload q} \<subseteq> store_area st" using pay by blast
  show ?thesis
    unfolding store_remove_def Inr pl io_lift_Inr io_bind_return
    by (intro touches_bind touches_exists touches_if touches_return entries area_rmtree [OF tree] touches_ignore_os
          touches_rmdir area_parent pay is_prefix_refl)
qed

lemma area_rmtree_strict: "{q. is_prefix p q} \<subseteq> X \<Longrightarrow> touches X (rmtree_strict p)"
  unfolding rmtree_strict_def
  by (intro touches_get_bind touches_if touches_raise touches_foreach touches_bind touches_get touches_rmdir touches_unlink)
     (auto dest: tree_entries_below)

lemma touches_copy_entries:
  assumes "\<And>x. dst @ x \<in> X" and "\<And>x. touches X (mkdir_new (dst @ x))"
  shows "touches X (copy_entries src dst qs)"
  by (induction qs) (auto simp: Let_def intro!: touches_rules touches_copy_file assms)

lemma area_put_payload: "touches (store_area st) (put_payload_from_path resolve st r src)"
proof (cases "payload_dir st r")
  case (Inl e)
  then show ?thesis
    unfolding put_payload_from_path_def Let_def
    by (simp only: Inl io_lift_Inl io_bind_raise) (intro touches_rules touches_exists)
next
  case (Inr target)
  have pay: "is_prefix target q \<Longrightarrow> q \<in> store_area st" for q
    using payload_dir_area [OF Inr] is_prefix_trans area_below [of "''payloads''" st q] by blast
  have ext: "target @ x \<in> store_area st" for x by (rule pay) (simp add: is_prefix_iff)
  have target: "target \<in> store_area st" by (rule pay) simp
  have copy: "touches (store_area st) (copytree s target)" for s
    unfolding copytree_def
    by (intro touches_rules touches_copy_entries area_mkdir_new ext target)
  have tree: "{q. is_prefix target q} \<subseteq> store_area st" using pay by blast
  show ?thesis
    unfolding put_payload_from_path_def Let_def Inr io_lift_Inr io_bind_return
    by (intro touches_rules touches_exists area_rmtree_strict [OF tree] copy area_mkdir_p area_parent target touches_copy_file ext)
qed

lemma area_copy_payload: "touches (store_area (r_store R)) (copy_payload R cand r)"
  unfolding copy_payload_def Let_def
  by (auto intro!: touches_rules touches_best_effort area_put_payload split: json.split)

section \<open>Which manifest an install stores\<close>

text \<open>
  \<open>installs_from R cand m\<close>: what the caller proposed is valid and allowed by the policy,
  and \<open>m\<close> is that manifest, or a valid one fetched for it over https that has the pinned
  digest.
\<close>

definition pin_of :: "json \<Rightarrow> string" where
  "pin_of m = normalize_digest (str_or_empty (jget (jget m ''origin'') ''digest''))"

definition pinned :: "resolver \<Rightarrow> json \<Rightarrow> json \<Rightarrow> bool" where
  "pinned R proposed m \<longleftrightarrow> pin_of proposed \<noteq> [] \<and> r_sha R (json_dumps True m) = pin_of proposed"

text \<open>A manifest that conforms to the schema always has a pin.\<close>

lemma strip_newline:
  assumes "\<And>c. c \<in> set t \<Longrightarrow> \<not> is_ws c" and "t \<noteq> []"
  shows "str_strip (t @ [CHR 0x0A]) = t"
proof -
  have nl: "is_ws (CHR 0x0A)" by (simp add: is_ws_def)
  obtain u z where t: "t = u @ [z]" using assms(2) by (cases t rule: rev_cases) auto
  have left: "dropWhile is_ws (t @ [CHR 0x0A]) = t @ [CHR 0x0A]"
    using assms by (cases t) auto
  have "\<not> is_ws z" using assms(1) t by simp
  then show ?thesis unfolding str_strip_def str_lstrip_def left by (simp add: str_rstrip_def t nl)
qed

lemma strip_chop:
  assumes "\<And>c. c \<in> set (chop_newline s) \<Longrightarrow> \<not> is_ws c" and "chop_newline s \<noteq> []"
  shows "str_strip s = chop_newline s"
proof (cases "s \<noteq> [] \<and> last s = CHR 0x0A")
  case True
  then have "s = chop_newline s @ [CHR 0x0A]" by (metis append_butlast_last_id chop_newline_def)
  with strip_newline [OF assms] show ?thesis by metis
next
  case False
  then have "chop_newline s = s" by (auto simp: chop_newline_def)
  with assms(1) show ?thesis using str_strip_ws_free [of s] by simp
qed

lemma digest_has_pin:
  assumes "digest_pattern s"
  shows "normalize_digest s \<noteq> []"
proof -
  let ?t = "chop_newline s"
  have hex: "\<not> is_ws c" if "is_hex c" for c using that by (auto simp: is_hex_def is_digit_def is_ws_def)
  have tag: "\<not> is_ws c" if "c \<in> set ''sha256:''" for c using that by (auto simp: is_ws_def)
  have "\<not> is_ws c" if "c \<in> set ?t" for c
  proof (cases "hex64 ?t")
    case True
    with that hex show ?thesis by (auto simp: hex64_def list_all_iff)
  next
    case False
    with assms have "starts_with ''sha256:'' ?t" "hex64 (drop 7 ?t)" by (simp_all add: digest_pattern_def Let_def)
    then obtain r where r: "?t = ''sha256:'' @ r" "hex64 r" unfolding starts_with_iff by fastforce
    then have "c \<in> set ''sha256:'' \<or> c \<in> set r" using that by (metis Un_iff set_append)
    moreover have "\<forall>x \<in> set r. is_hex x" using r(2) by (simp add: hex64_def list_all_iff)
    ultimately show ?thesis using hex tag by blast
  qed
  moreover have len: "64 \<le> length ?t" using assms by (auto simp: digest_pattern_def Let_def hex64_def)
  ultimately have "str_strip s = ?t" by (intro strip_chop) auto
  with len show ?thesis by (auto simp: normalize_digest_def Let_def)
qed

lemma conforming_has_pin:
  assumes "schema_conforms m"
  shows "pin_of m \<noteq> []"
proof -
  from assms have o: "has_key m ''origin''" "opt_key ''origin'' origin_conforms m"
    by (auto intro: conforms_required simp: manifest_required_def schema_conforms_def)
  then have "origin_conforms (jget m ''origin'')" using opt_keyD by blast
  then have "has_key (jget m ''origin'') ''digest''" "opt_key ''digest'' (str_matches digest_pattern) (jget m ''origin'')"
    by (auto simp: origin_conforms_def closed_obj_def req_keys_def)
  then have "str_matches digest_pattern (jget (jget m ''origin'') ''digest'')" using opt_keyD by blast
  then show ?thesis
    using digest_has_pin by (auto simp: pin_of_def str_matches_def split: json.splits)
qed

definition fetched_for :: "resolver \<Rightarrow> json \<Rightarrow> json \<Rightarrow> bool" where
  "fetched_for R cand m \<longleftrightarrow>
     (case jget cand ''manifest_url'' of
        JStr u \<Rightarrow> (case urlparse u of Inr p \<Rightarrow> scheme p = ''https'' | Inl e \<Rightarrow> False)
          \<and> is_dict m \<and> pinned R (jget cand ''manifest'') m
      | _ \<Rightarrow> False)"

definition installs_from :: "resolver \<Rightarrow> json \<Rightarrow> json \<Rightarrow> bool" where
  "installs_from R cand m \<longleftrightarrow>
     r_validator R (jget cand ''manifest'') = [] \<and> install_allowed (r_policy R) (jget cand ''manifest'')
     \<and> r_validator R m = [] \<and> (m = jget cand ''manifest'' \<or> fetched_for R cand m)"

text \<open>The bodies of responses are JSON documents with distinct keys.\<close>

definition replies_ok :: "transport \<Rightarrow> bool" where
  "replies_ok tr \<longleftrightarrow> (\<forall>rq r j. tr rq = Inr r \<longrightarrow> rs_json r = Inr j \<longrightarrow> json_ok j)"

lemma http_call_replies:
  "replies_ok tr \<Longrightarrow> returns (\<lambda>r. \<forall>j. rs_json r = Inr j \<longrightarrow> json_ok j) (http_call eg tr rq)"
  by (auto simp: returns_def http_call_def egress_request_def send_def io_defs replies_ok_def
      split: option.split sum.split)

lemma returns_try: "returns P m \<Longrightarrow> (\<And>e. returns P (h e)) \<Longrightarrow> returns P (io_try m h)"
  unfolding returns_def io_try_def by (auto split: sum.splits prod.splits) (metis fst_conv sum.simps(6))+

lemma returns_if: "(b \<Longrightarrow> returns P m) \<Longrightarrow> (\<not> b \<Longrightarrow> returns P n) \<Longrightarrow> returns P (if b then m else n)"
  by simp

lemma fetch_pinned_returns:
  assumes "replies_ok (r_transport R)" and "jget cand ''manifest_url'' = JStr u"
    and "pin_of (jget cand ''manifest'') \<noteq> []"
  shows "returns (\<lambda>m. fetched_for R cand m \<and> r_validator R m = [] \<and> json_ok m)
    (fetch_pinned R (jget cand ''manifest'') u)"
proof (cases "urlparse u")
  case (Inl e)
  then show ?thesis by (simp add: fetch_pinned_def returns_raise)
next
  case (Inr p)
  have reply: "returns json_ok (io_try (io_bind (http_call (r_egress R) (r_transport R) (get_request u (Dec 5 0)))
        (\<lambda>r. io_lift (response_json r))) (\<lambda>e. io_raise (CapabilityInstallError (t e))))" for t
    by (intro returns_try returns_raise returns_bind [OF http_call_replies [OF assms(1)]] returns_lift)
       (auto simp: response_json_def result_simps)
  show ?thesis
  proof (cases "scheme p = ''https''")
    case True
    have rest: "returns (\<lambda>m. fetched_for R cand m \<and> r_validator R m = [] \<and> json_ok m)
      (io_bind (io_lift (validate_manifest (r_validator R) remote)) (\<lambda>_.
         if d \<noteq> [] \<and> r_sha R (json_dumps True remote) \<noteq> d then io_raise e else io_return remote))"
      if "json_ok remote" "is_dict remote"
        "d = normalize_digest (str_or_empty (jget (jget (jget cand ''manifest'') ''origin'') ''digest''))" for remote d e
    proof (cases "r_validator R remote = []")
      case True
      with that show ?thesis
        by (auto simp: validate_manifest_valid fetched_for_def pinned_def pin_of_def Inr \<open>scheme p = ''https''\<close> assms(2,3) [unfolded pin_of_def]
            intro!: returns_raise returns_return)
    next
      case False
      then obtain e' where "validate_manifest (r_validator R) remote = Inl e'"
        by (cases "validate_manifest (r_validator R) remote") (auto simp: result_simps)
      then show ?thesis by (simp add: returns_raise)
    qed
    show ?thesis
      unfolding fetch_pinned_def Inr io_lift_Inr io_bind_return True
      by (simp, rule returns_bind [OF reply], unfold Let_def, rule returns_if, rule returns_raise, rule rest) simp_all
  qed (simp add: fetch_pinned_def Inr returns_raise)
qed

lemma manifest_to_install_returns:
  assumes "replies_ok (r_transport R)" and "json_ok cand" and v: "manifest_validator (r_validator R)"
  shows "returns (\<lambda>m. installs_from R cand m \<and> json_ok m) (manifest_to_install R cand)"
proof (cases "is_dict cand \<and> is_dict (jget cand ''manifest'')
    \<and> r_validator R (jget cand ''manifest'') = [] \<and> install_allowed (r_policy R) (jget cand ''manifest'')")
  case True
  let ?c = "jget cand ''manifest''"
  have c: "json_ok ?c" by (rule json_ok_jget [OF assms(2)])
  have early: "validate_manifest (r_validator R) ?c = Inr ?c" "enforce_install (r_policy R) ?c = Inr ()"
    using True by (simp_all add: result_simps enforce_install_allowed del: enforce_install_Inr)
  have keep: "returns (\<lambda>m. installs_from R cand m \<and> json_ok m) (io_return ?c)"
    using True c by (simp add: returns_return installs_from_def)
  have fetch: "returns (\<lambda>m. installs_from R cand m \<and> json_ok m) (fetch_pinned R ?c u)"
    if "jget cand ''manifest_url'' = JStr u" for u
    using fetch_pinned_returns [OF assms(1) that conforming_has_pin] True manifest_validator.exact [OF v]
    unfolding returns_def installs_from_def
    by (auto split: sum.splits)
  show ?thesis
    unfolding manifest_to_install_def Let_def
    using True
    by (simp only: early io_lift_Inr io_bind_return not_True_eq_False simp_thms if_False)
       (rule returns_bind [OF returns_any], auto split: json.split intro!: keep fetch)
next
  case False
  show ?thesis
  proof (cases "is_dict cand \<and> is_dict (jget cand ''manifest'') \<and> r_validator R (jget cand ''manifest'') = []")
    case True
    with False obtain e where "enforce_install (r_policy R) (jget cand ''manifest'') = Inl e"
      by (cases "enforce_install (r_policy R) (jget cand ''manifest'')")
         (auto simp: enforce_install_allowed simp del: enforce_install_Inr)
    with True show ?thesis
      by (simp add: manifest_to_install_def Let_def validate_manifest_valid returns_raise)
  next
    case invalid: False
    then show ?thesis
      by (cases "validate_manifest (r_validator R) (jget cand ''manifest'')")
         (auto simp: manifest_to_install_def Let_def returns_raise result_simps)
  qed
qed

text \<open>Choosing the manifest changes nothing on disk.\<close>

lemma touches_send [touches_rules]: "touches X (send tr rq)"
  by (auto simp: touches_def triple_def send_def intro: steps_ok_same_hist split: sum.split)

lemma touches_http_call [touches_rules]: "touches X (http_call eg tr rq)"
  unfolding http_call_def egress_request_def by (auto split: option.split intro!: touches_rules)

lemma touches_manifest_to_install: "touches X (manifest_to_install R cand)"
proof -
  have "touches X (fetch_pinned R m u)" for m u
    unfolding fetch_pinned_def Let_def by (intro touches_rules)
  then show ?thesis
    unfolding manifest_to_install_def Let_def by (intro touches_rules) (auto split: json.split intro!: touches_rules)
qed

section \<open>Installing\<close>

lemma install_reference: "returns (\<lambda>res. inst_ref res = ref_of m) (install_manifest_atomic token st m meta)"
proof -
  have *: "returns P (io_finally x c)" if "returns P x" for P :: "install_result \<Rightarrow> bool" and x c
    using that unfolding returns_def io_finally_def by (auto split: sum.splits prod.splits) (metis fst_conv sum.simps(6))+
  have "returns (\<lambda>res. inst_ref res = ref_of m) (stage_and_promote token a b c (ref_of m) m meta)" for a b c
    unfolding stage_and_promote_def
    by (intro returns_bind [OF returns_any] returns_if returns_return) simp_all
  then show ?thesis
    unfolding install_manifest_atomic_def Let_def
    by (intro returns_if returns_raise returns_bind [OF returns_any] returns_return * returns_try) simp_all
qed

lemma triple_returns: "triple I P m Q E \<Longrightarrow> returns R m \<Longrightarrow> triple I P m (\<lambda>a w. Q a w \<and> R a) E"
  unfolding triple_def by (auto split: sum.splits dest: returnsD)

text \<open>The states of the catalog an install passes through, and what it answers.\<close>

definition install_state :: "resolver \<Rightarrow> json \<Rightarrow> fs \<Rightarrow> fs \<Rightarrow> bool" where
  "install_state R cand s0 s \<longleftrightarrow>
     local_view (r_validator R) (r_store R) s = local_view (r_validator R) (r_store R) s0
     \<or> (\<exists>m. installs_from R cand m
          \<and> local_view (r_validator R) (r_store R) s = res_map (put_spec m) (local_view (r_validator R) (r_store R) s0))"

definition receipt :: "json \<Rightarrow> json" where
  "receipt m = JObj [(''installed'', JObj [(''id'', JStr (str_or_empty (jget m ''id''))),
     (''version'', JStr (str_or_empty (jget m ''version'')))])]"

definition install_done :: "resolver \<Rightarrow> json \<Rightarrow> fs \<Rightarrow> json \<Rightarrow> fs \<Rightarrow> bool" where
  "install_done R cand s0 out s \<longleftrightarrow>
     (\<exists>m. installs_from R cand m \<and> out = receipt m
        \<and> local_view (r_validator R) (r_store R) s = res_map (put_spec m) (local_view (r_validator R) (r_store R) s0))"

lemma view_local: "fs_get s (local_catalog st) = fs_get s0 (local_catalog st) \<Longrightarrow> local_view v st s = local_view v st s0"
  by (simp add: local_view_def catalog_at_def)

lemma view_off_area: "same_off (store_area st) s s' \<Longrightarrow> fs_get s' (local_catalog st) = fs_get s (local_catalog st)"
  using local_not_in_area same_offD by blast

abbreviation (input) same_local :: "resolver \<Rightarrow> fs \<Rightarrow> fs \<Rightarrow> bool" where
  "same_local R s0 s \<equiv> fs_get s (local_catalog (r_store R)) = fs_get s0 (local_catalog (r_store R))"

lemma install_state_old:
  assumes "same_local R s0 s"
  shows "install_state R cand s0 s"
  using view_local [OF assms] by (simp add: install_state_def)

lemma install_quiet:
  "touches (store_area (r_store R)) op \<Longrightarrow>
    triple (install_state R cand s0) (\<lambda>w. same_local R s0 (w_fs w)) op (\<lambda>_ w. same_local R s0 (w_fs w))
      (\<lambda>_ w. install_state R cand s0 (w_fs w))"
  by (rule triple_weaken [OF touches_keeps [where P = "same_local R s0"]]) (use view_off_area in \<open>auto intro: install_state_old\<close>)

lemma install_stored:
  assumes v: "manifest_validator (r_validator R)" and d: "doc_ok_at (local_catalog (r_store R)) s0"
    and m: "installs_from R cand m" "json_ok m"
  shows "triple (install_state R cand s0) (\<lambda>w. same_local R s0 (w_fs w)) (upsert_local (r_validator R) token (r_store R) m)
    (\<lambda>_ w. local_view (r_validator R) (r_store R) (w_fs w) = res_map (put_spec m) (local_view (r_validator R) (r_store R) s0))
    (\<lambda>_ w. install_state R cand s0 (w_fs w))"
proof (rule triple_pointwise)
  let ?st = "r_store R" and ?v = "r_validator R"
  fix s assume s: "same_local R s0 s"
  then have d: "doc_ok_at (local_catalog ?st) s" using d by (simp add: doc_ok_at_def)
  have I: "cat_atomic ?v ?st s (res_map (put_spec m) (local_view ?v ?st s)) u \<Longrightarrow> install_state R cand s0 u" for u
    using view_local [OF s] m(1) by (auto simp: cat_atomic_def install_state_def Let_def)
  show "triple (install_state R cand s0) (\<lambda>w. w_fs w = s) (upsert_local ?v token ?st m)
    (\<lambda>_ w. local_view ?v ?st (w_fs w) = res_map (put_spec m) (local_view ?v ?st s0)) (\<lambda>_ w. install_state R cand s0 (w_fs w))"
    by (rule triple_inv [OF triple_weaken [OF manifest_validator.triple_upsert [OF v d m(2) refl]]])
       (use view_local [OF s] I in auto)
qed

lemma install_kept:
  assumes m: "installs_from R cand m" and t: "touches (store_area (r_store R)) op"
  shows "triple (install_state R cand s0)
    (\<lambda>w. local_view (r_validator R) (r_store R) (w_fs w) = res_map (put_spec m) (local_view (r_validator R) (r_store R) s0)) op
    (\<lambda>_ w. local_view (r_validator R) (r_store R) (w_fs w) = res_map (put_spec m) (local_view (r_validator R) (r_store R) s0))
    (\<lambda>_ w. install_state R cand s0 (w_fs w))"
  by (rule triple_weaken [OF touches_keeps [OF t,
        where P = "\<lambda>s. local_view (r_validator R) (r_store R) s = res_map (put_spec m) (local_view (r_validator R) (r_store R) s0)"]])
     (use view_local [OF view_off_area] m in \<open>auto simp: install_state_def\<close>)

lemma triple_install_locked:
  assumes v: "manifest_validator (r_validator R)" and replies: "replies_ok (r_transport R)"
    and ok: "json_ok cand" "doc_ok_at (local_catalog (r_store R)) s0"
  shows "triple (install_state R cand s0) (\<lambda>w. same_local R s0 (w_fs w)) (install_locked R token cand)
    (\<lambda>out w. install_done R cand s0 out (w_fs w)) (\<lambda>_ w. install_state R cand s0 (w_fs w))"
proof -
  let ?st = "r_store R" and ?v = "r_validator R"
  let ?I = "install_state R cand s0" and ?E = "\<lambda>_ w. install_state R cand s0 (w_fs w)"
  let ?old = "\<lambda>w. same_local R s0 (w_fs w)" and ?done = "\<lambda>out w. install_done R cand s0 out (w_fs w)"
  have choose: "triple ?I ?old (manifest_to_install R cand)
      (\<lambda>m w. ?old w \<and> installs_from R cand m \<and> json_ok m) ?E"
    by (rule triple_weaken [OF triple_returns [OF install_quiet [OF touches_manifest_to_install]
          manifest_to_install_returns [OF replies ok(1) v]]]) simp_all
  show ?thesis
    unfolding install_locked_def
  proof (rule triple_bind [OF choose])
    fix m
    let ?meta = "JObj [(''installed_via'', jget cand ''source'')]"
    let ?answer = "\<lambda>res. JObj [(''installed'', JObj [(''id'', JStr (capability_id (inst_ref res))),
          (''version'', JStr (ref_version (inst_ref res)))])]"
    let ?rest = "\<lambda>res. io_bind (upsert_local ?v token ?st m) (\<lambda>_. io_bind (copy_payload R cand (inst_ref res))
        (\<lambda>_. io_return (?answer res)))"
    show "triple ?I (\<lambda>w. ?old w \<and> installs_from R cand m \<and> json_ok m)
        (io_bind (install_manifest_atomic token ?st m ?meta) ?rest) ?done ?E"
    proof (cases "installs_from R cand m \<and> json_ok m")
      case True
      then have m: "installs_from R cand m" "json_ok m" by simp_all
      have answer: "triple ?I (\<lambda>w. ?old w \<and> inst_ref res = ref_of m) (?rest res) ?done ?E" for res
      proof (cases "inst_ref res = ref_of m")
        case r: True
        have fin: "triple ?I (\<lambda>w. local_view ?v ?st (w_fs w) = res_map (put_spec m) (local_view ?v ?st s0))
           (io_return (?answer res)) ?done ?E"
          by (rule triple_return) (use True r in \<open>auto simp: install_done_def receipt_def ref_of_def\<close>)
        have "triple ?I ?old (?rest res) ?done ?E"
          by (rule triple_bind [OF install_stored [OF v ok(2) m] triple_bind [OF install_kept [OF m(1) area_copy_payload] fin]])
        then show ?thesis by (rule triple_weaken) simp_all
      qed (rule triple_vacuous, simp)
      show ?thesis
        by (rule triple_weaken [OF triple_bind [OF triple_returns [OF install_quiet [OF area_install] install_reference] answer]])
           simp_all
    qed (rule triple_vacuous, simp)
  qed
qed

lemma triple_install_request:
  assumes "manifest_validator (r_validator R)" and "replies_ok (r_transport R)"
    and "json_ok cand" "doc_ok_at (local_catalog (r_store R)) s0"
  shows "triple (install_state R cand s0) (\<lambda>w. w_fs w = s0) (resolver_install R token cand)
    (\<lambda>out w. install_done R cand s0 out (w_fs w)) (\<lambda>_ w. install_state R cand s0 (w_fs w))"
  unfolding resolver_install_def with_lock_def store_lock_def
  by (rule triple_weaken [OF triple_bind [OF install_quiet [OF touches_lock [OF lock_area_in_area]]
        triple_install_locked [OF assms]]]) simp_all

section \<open>Removing\<close>

text \<open>
  What removing makes of the local catalog: an entry of its own is dropped, and a shipped
  capability without one is disabled by a new entry.
\<close>

definition remove_spec :: "string \<Rightarrow> catalog \<Rightarrow> catalog \<Rightarrow> catalog" where
  "remove_spec k base l =
     (if dget (dupdate base l) k = None then l
      else if dget l k = None then enable_spec k False base l
      else del_spec k l)"

definition remove_view :: "resolver \<Rightarrow> string \<Rightarrow> fs \<Rightarrow> catalog res" where
  "remove_view R k s =
     rbind (base_view (r_validator R) (r_store R) s) (\<lambda>b.
     res_map (remove_spec k b) (local_view (r_validator R) (r_store R) s))"

definition known_before :: "resolver \<Rightarrow> string \<Rightarrow> fs \<Rightarrow> bool \<Rightarrow> bool" where
  "known_before R k s b \<longleftrightarrow>
     (case (base_view (r_validator R) (r_store R) s, local_view (r_validator R) (r_store R) s) of
        (Inr base, Inr l) \<Rightarrow> b = (dget (dupdate base l) k \<noteq> None)
      | _ \<Rightarrow> False)"

lemma triple_case_split: "(b \<Longrightarrow> triple I P m Q E) \<Longrightarrow> triple I (\<lambda>w. P w \<and> b) m Q E"
  by (cases b) (auto simp: triple_def)

text \<open>
  Removing a capability that the merged catalog has: dropping the local entry, then, when
  there was none, hiding the shipped one.
\<close>

lemma remove_drops:
  assumes v: "manifest_validator (r_validator R)" and ok: "doc_ok_at (local_catalog (r_store R)) s0"
    and bl: "base_view (r_validator R) (r_store R) s0 = Inr b" "local_view (r_validator R) (r_store R) s0 = Inr l"
    and known: "dget (dupdate b l) k \<noteq> None"
  shows "triple (cat_atomic (r_validator R) (r_store R) s0 (remove_view R k s0)) (\<lambda>w. w_fs w = s0)
    (delete_local (r_validator R) token (r_store R) k)
    (\<lambda>x w. if x then local_view (r_validator R) (r_store R) (w_fs w) = remove_view R k s0 else w_fs w = s0 \<and> dget l k = None)
    (\<lambda>_ w. cat_atomic (r_validator R) (r_store R) s0 (remove_view R k s0) (w_fs w))"
proof (cases "dget l k = None")
  case True
  then have n: "res_map (del_spec k) (local_view (r_validator R) (r_store R) s0) = Inr l" by (simp add: bl del_spec_def)
  show ?thesis
    by (rule triple_inv [OF triple_weaken [OF manifest_validator.triple_delete [OF v ok refl]]])
       (use True bl n in \<open>auto simp: cat_atomic_def\<close>)
next
  case False
  then have "res_map (del_spec k) (local_view (r_validator R) (r_store R) s0) = remove_view R k s0"
    using known by (auto simp: bl remove_view_def remove_spec_def)
  then show ?thesis
    by (intro triple_weaken [OF manifest_validator.triple_delete [OF v ok, of "remove_view R k s0"]])
       (use False bl in auto)
qed

lemma remove_hides:
  assumes v: "manifest_validator (r_validator R)" and base: "base_catalog (r_store R) \<noteq> []"
    and ok: "doc_ok_at (local_catalog (r_store R)) s0" "doc_ok_at (base_catalog (r_store R)) s0"
    and bl: "base_view (r_validator R) (r_store R) s0 = Inr b" "local_view (r_validator R) (r_store R) s0 = Inr l"
    and known: "dget (dupdate b l) k \<noteq> None"
  shows "triple (cat_atomic (r_validator R) (r_store R) s0 (remove_view R k s0))
    (\<lambda>w. if x then local_view (r_validator R) (r_store R) (w_fs w) = remove_view R k s0 else w_fs w = s0 \<and> dget l k = None)
    (if x then io_return () else set_local_enabled (r_validator R) token (r_store R) k False)
    (\<lambda>_ w. local_view (r_validator R) (r_store R) (w_fs w) = remove_view R k s0)
    (\<lambda>_ w. cat_atomic (r_validator R) (r_store R) s0 (remove_view R k s0) (w_fs w))"
proof (cases x)
  case False
  have n: "dget l k = None \<Longrightarrow> remove_view R k s0
      = rbind (base_view (r_validator R) (r_store R) s0) (\<lambda>b. res_map (enable_spec k False b) (local_view (r_validator R) (r_store R) s0))"
    using known by (auto simp: remove_view_def bl remove_spec_def)
  show ?thesis
    by (simp add: False, rule triple_case_split, rule triple_weaken [OF manifest_validator.triple_set_enabled [OF v ok base n]])
       simp_all
qed (simp add: triple_return)

lemma remove_cleans:
  "triple (cat_atomic (r_validator R) (r_store R) s0 (remove_view R k s0))
    (\<lambda>w. local_view (r_validator R) (r_store R) (w_fs w) = remove_view R k s0) (best_effort (store_remove (r_store R) r))
    (\<lambda>_ w. local_view (r_validator R) (r_store R) (w_fs w) = remove_view R k s0)
    (\<lambda>_ w. cat_atomic (r_validator R) (r_store R) s0 (remove_view R k s0) (w_fs w))"
  by (rule triple_weaken [OF touches_keeps [OF touches_best_effort [OF area_store_remove],
        where P = "\<lambda>s. local_view (r_validator R) (r_store R) s = remove_view R k s0"]])
     (use view_local [OF view_off_area] in \<open>auto simp: cat_atomic_def\<close>)

lemma triple_remove_locked:
  assumes v: "manifest_validator (r_validator R)" and base: "base_catalog (r_store R) \<noteq> []"
    and ok: "doc_ok_at (local_catalog (r_store R)) s0" "doc_ok_at (base_catalog (r_store R)) s0"
  shows "triple (cat_atomic (r_validator R) (r_store R) s0 (remove_view R k s0)) (\<lambda>w. w_fs w = s0)
    (remove_locked R token k version)
    (\<lambda>b w. local_view (r_validator R) (r_store R) (w_fs w) = remove_view R k s0 \<and> known_before R k s0 b)
    (\<lambda>_ w. cat_atomic (r_validator R) (r_store R) s0 (remove_view R k s0) (w_fs w))"
proof -
  let ?st = "r_store R" and ?v = "r_validator R" and ?new = "remove_view R k s0"
  let ?I = "cat_atomic ?v ?st s0 ?new"
  let ?E = "\<lambda>_ w. ?I (w_fs w)" and ?Q = "\<lambda>b w. local_view ?v ?st (w_fs w) = ?new \<and> known_before R k s0 b"
  let ?views = "\<lambda>d. \<exists>b l. base_view ?v ?st s0 = Inr b \<and> local_view ?v ?st s0 = Inr l \<and> d = dupdate b l"
  have start: "triple ?I (\<lambda>w. w_fs w = s0) (merged_catalog ?v ?st) (\<lambda>d w. w_fs w = s0 \<and> ?views d) ?E"
    by (rule triple_weaken [OF triple_merged]) (auto simp: cat_atomic_def base)
  show ?thesis
    unfolding remove_locked_def
  proof (rule triple_bind [OF start], rule triple_case_split)
    fix d assume "?views d"
    then obtain b l where bl: "base_view ?v ?st s0 = Inr b" "local_view ?v ?st s0 = Inr l" and d: "d = dupdate b l"
      by blast
    have known: "known_before R k s0 x \<longleftrightarrow> x = (dget d k \<noteq> None)" for x
      using bl d by (simp add: known_before_def)
    show "triple ?I (\<lambda>w. w_fs w = s0)
       (if dget d k = None then io_return False
        else io_bind (delete_local ?v token ?st k) (\<lambda>x.
          io_bind (if x then io_return () else set_local_enabled ?v token ?st k False) (\<lambda>_.
          io_bind (best_effort (store_remove ?st \<lparr>capability_id = k, ref_version = version\<rparr>)) (\<lambda>_. io_return True)))) ?Q ?E"
    proof (cases "dget d k = None")
      case True
      then have "?new = local_view ?v ?st s0" by (simp add: remove_view_def bl remove_spec_def d)
      with True show ?thesis by (simp, intro triple_return) (simp add: known)
    next
      case False
      have fin: "triple ?I (\<lambda>w. local_view ?v ?st (w_fs w) = ?new) (io_return True) ?Q ?E"
        by (rule triple_return) (use False known in simp)
      from False d have in_merged: "dget (dupdate b l) k \<noteq> None" by simp
      show ?thesis
        by (subst if_not_P [OF False], rule triple_bind [OF remove_drops [OF v ok(1) bl in_merged]],
            rule triple_bind [OF remove_hides [OF v base ok bl in_merged]], rule triple_bind [OF remove_cleans fin])
    qed
  qed
qed

text \<open>
  Acquiring the lock leaves the local catalog alone, and the shipped one too, unless that is
  missing and its path is on the way to the lock file: then it can no longer be read.
\<close>

lemma views_after_lock:
  assumes "lock_made (store_lock R) s s'"
  shows "local_view v (r_store R) s' = local_view v (r_store R) s"
    and "base_view v (r_store R) s' = base_view v (r_store R) s \<or> (\<exists>e. base_view v (r_store R) s' = Inl e)"
    and "fs_get s' (local_catalog (r_store R)) = fs_get s (local_catalog (r_store R))"
proof -
  let ?p = "lock_path (r_store R)" and ?b = "base_catalog (r_store R)"
  show same: "fs_get s' (local_catalog (r_store R)) = fs_get s (local_catalog (r_store R))"
    by (rule lock_made_same [OF assms]) (simp add: store_lock_def local_off_lock)
  then show "local_view v (r_store R) s' = local_view v (r_store R) s" by (rule view_local)
  from lock_madeD [OF assms, of ?b]
  show "base_view v (r_store R) s' = base_view v (r_store R) s \<or> (\<exists>e. base_view v (r_store R) s' = Inl e)"
    by (auto simp: base_view_def catalog_at_def parse_json_def split: if_splits)
qed

lemma docs_after_lock: "lock_made p s s' \<Longrightarrow> doc_ok_at q s \<Longrightarrow> doc_ok_at q s'"
  using lock_madeD [of p s s' q] by (auto simp: doc_ok_at_def split: if_splits)

lemma merged_unreadable:
  assumes "base_catalog st \<noteq> []" and "base_view v st s = Inl e" and "\<And>u. P u \<Longrightarrow> w_fs u = s" and "I s"
  shows "triple I P (io_bind (merged_catalog v st) f) Q (\<lambda>_ w. w_fs w = s)"
  by (rule triple_bind [OF triple_weaken [OF triple_merged [of I s, OF assms(4,1)], where Q' = "\<lambda>_ _. False"]])
     (use assms(2,3) in \<open>auto intro: triple_vacuous\<close>)

lemma triple_remove_request:
  assumes v: "manifest_validator (r_validator R)" and base: "base_catalog (r_store R) \<noteq> []"
    and ok: "doc_ok_at (local_catalog (r_store R)) s0" "doc_ok_at (base_catalog (r_store R)) s0"
  shows "triple (cat_atomic (r_validator R) (r_store R) s0 (remove_view R k s0)) (\<lambda>w. w_fs w = s0)
    (resolver_remove R token k version)
    (\<lambda>b w. local_view (r_validator R) (r_store R) (w_fs w) = remove_view R k s0 \<and> known_before R k s0 b)
    (\<lambda>_ w. cat_atomic (r_validator R) (r_store R) s0 (remove_view R k s0) (w_fs w))"
proof -
  let ?st = "r_store R" and ?v = "r_validator R"
  let ?I = "cat_atomic ?v ?st s0 (remove_view R k s0)"
  let ?Q = "\<lambda>b w. local_view ?v ?st (w_fs w) = remove_view R k s0 \<and> known_before R k s0 b"
  have inv: "?I s" if "lock_made (store_lock R) s0 s" for s
    using views_after_lock(1) [OF that] by (simp add: cat_atomic_def)
  have lock: "triple ?I (\<lambda>w. w_fs w = s0) (take_lock (store_lock R)) (\<lambda>_ w. lock_made (store_lock R) s0 (w_fs w)) (\<lambda>_ w. ?I (w_fs w))"
    by (rule triple_inv [OF triple_weaken [OF triple_take_lock]]) (auto intro: inv)
  have body: "triple ?I (\<lambda>w. lock_made (store_lock R) s0 (w_fs w)) (remove_locked R token k version) ?Q (\<lambda>_ w. ?I (w_fs w))"
  proof (rule triple_pointwise)
    fix s assume s: "lock_made (store_lock R) s0 s"
    show "triple ?I (\<lambda>w. w_fs w = s) (remove_locked R token k version) ?Q (\<lambda>_ w. ?I (w_fs w))"
    proof (cases "base_view ?v ?st s = base_view ?v ?st s0")
      case True
      with views_after_lock(1) [OF s] have views: "cat_atomic ?v ?st s = cat_atomic ?v ?st s0"
        "remove_view R k s = remove_view R k s0" "known_before R k s = known_before R k s0"
        by (simp_all add: fun_eq_iff cat_atomic_def remove_view_def known_before_def)
      from triple_remove_locked [OF v base docs_after_lock [OF s ok(1)] docs_after_lock [OF s ok(2)], of k token version]
      show ?thesis unfolding views .
    next
      case False
      with views_after_lock(2) [OF s] obtain e where e: "base_view ?v ?st s = Inl e" by blast
      show ?thesis
        unfolding remove_locked_def
        by (rule triple_weaken [OF merged_unreadable [of _ ?v s e "\<lambda>w. w_fs w = s" ?I, OF base e _ inv [OF s]]])
           (use inv [OF s] in auto)
    qed
  qed
  show ?thesis unfolding resolver_remove_def with_lock_def by (rule triple_bind [OF lock body])
qed

text \<open>Removing a shipped capability twice: disabled at first, and then back as shipped.\<close>

lemma dict_ok_reread: "dict_ok (reread d) = dict_ok d"
  by (simp add: dict_ok_def)

lemma remove_spec_twice:
  assumes "dget b k = Some m" and "dget l k = None" and "dict_ok l" and "str_or_empty (jget m ''id'') = k"
  shows "dget (dupdate b (remove_spec k b l)) k = Some (sort_json (jset ''enabled'' (JBool False) m))"
    and "dget (dupdate b (remove_spec k b (remove_spec k b l))) k = Some m"
proof -
  let ?off = "jset ''enabled'' (JBool False) m"
  have merged: "dget (dupdate b l) k = Some m" using assms by (simp add: dget_dupdate)
  have l1: "remove_spec k b l = reread (dset k ?off l)"
    using assms merged by (simp add: remove_spec_def enable_spec_def put_spec_def)
  have ok1: "dict_ok (reread (dset k ?off l))" using assms(3) by (simp add: dict_ok_reread)
  then show first: "dget (dupdate b (remove_spec k b l)) k = Some (sort_json ?off)"
    by (simp add: l1 dget_dupdate dget_reread)
  have drop: "remove_spec k b x = reread (dpop k x)" if "dget x k = Some y" "dict_ok x" for x y
    using that by (simp add: remove_spec_def del_spec_def dget_dupdate)
  have l2: "remove_spec k b (remove_spec k b l) = reread (dpop k (reread (dset k ?off l)))"
    unfolding l1 by (rule drop [OF _ ok1]) (simp add: dget_reread)
  have "dict_ok (reread (dpop k (reread (dset k ?off l))))" using ok1 by (simp add: dict_ok_reread)
  then show "dget (dupdate b (remove_spec k b (remove_spec k b l))) k = Some m"
    unfolding l2 by (simp add: dget_dupdate dget_reread assms(1))
qed

section \<open>Asking for candidates\<close>

text \<open>What may be offered without an installation check, or with one that passed.\<close>

definition may_offer :: "capability_policy \<Rightarrow> candidate \<Rightarrow> bool" where
  "may_offer pol c \<longleftrightarrow> cand_source c = ''catalog'' \<or> install_allowed pol (cand_manifest c)"

lemma first_allowed_find: "first_allowed pol cs = find (may_offer pol) cs"
  by (induction cs) (auto simp: may_offer_def is_ok_iff enforce_install_allowed simp del: enforce_install_Inr)

lemma search_ranked: "returns ranked (resolver_search R intent constraints)"
  unfolding resolver_search_def
  by (intro returns_bind [OF returns_any] returns_return ranked_by_score)

lemma resolve_finds:
  assumes "is_dict step" and "str_or_empty (jget step ''intent'') \<noteq> []"
  shows "resolver_resolve R step =
     io_bind (resolver_search R (str_or_empty (jget step ''intent'')) (dict_or_empty (jget step ''constraints''))) (\<lambda>cs.
     case find (may_offer (r_policy R)) cs of
       Some c \<Rightarrow> io_return c
     | None \<Rightarrow> io_raise (CapabilityNotFoundError
         ((if cs = [] then ''no candidates found for intent: '' else ''no policy-allowed candidates for intent: '')
           @ str_or_empty (jget step ''intent''))))"
  using assms
  by (auto simp: resolver_resolve_def Let_def first_allowed_find fun_eq_iff io_defs split: option.split sum.split prod.split)

lemma resolve_allowed: "returns (may_offer (r_policy R)) (resolver_resolve R step)"
proof (cases "is_dict step \<and> str_or_empty (jget step ''intent'') \<noteq> []")
  case True
  then show ?thesis
    by (subst resolve_finds)
       (auto intro!: returns_bind [OF returns_any] returns_return returns_raise simp: find_Some_iff split: option.split)
qed (auto simp: resolver_resolve_def Let_def returns_raise)

lemma resolve_step:
  "resolver_resolve R (JObj [(''intent'', JStr (c # i)), (''constraints'', JObj d)]) =
     io_bind (resolver_search R (c # i) (JObj d)) (\<lambda>cs.
     case find (may_offer (r_policy R)) cs of
       Some best \<Rightarrow> io_return best
     | None \<Rightarrow> io_raise (CapabilityNotFoundError
         ((if cs = [] then ''no candidates found for intent: '' else ''no policy-allowed candidates for intent: '')
           @ c # i)))"
proof -
  let ?step = "JObj [(''intent'', JStr (c # i)), (''constraints'', JObj d)]"
  have i: "str_or_empty (jget ?step ''intent'') = c # i" and o: "dict_or_empty (jget ?step ''constraints'') = JObj d"
    by (simp_all add: jget_def get_or_def dict_or_empty_def)
  show ?thesis using resolve_finds [of ?step R, unfolded i o] by simp
qed

lemma find_in: "find P xs = Some x \<Longrightarrow> x \<in> set xs \<and> P x"
  by (induction xs) (auto split: if_splits)

lemma find_ranked: "find P cs = Some c \<Longrightarrow> ranked cs \<Longrightarrow> other \<in> set cs \<Longrightarrow> P other \<Longrightarrow> cand_score other \<le> cand_score c"
  unfolding ranked_def by (induction cs) (auto split: if_splits dest: find_in)

lemma set_by_score: "set (by_score cs) = set cs"
  by (simp add: by_score_def)

lemma trust_rank_nonneg: "0 \<le> trust_rank level"
  by (simp add: trust_rank_def)

text \<open>Searching when the lock is free, the catalogs can be read and there is no registry.\<close>

lemma search_catalog_only:
  assumes "w_faults w = []" and "lock_open (w_fs w) (store_lock R)"
    and "base_catalog (r_store R) \<noteq> []" and off: "\<not> is_prefix (base_catalog (r_store R)) (store_lock R)"
    and b: "base_view (r_validator R) (r_store R) (w_fs w) = Inr b"
    and l: "local_view (r_validator R) (r_store R) (w_fs w) = Inr l" and "r_adapters R = []"
  shows "\<exists>w1. resolver_search R intent (JObj [])
      w = (Inr (by_score (map (\<lambda>(k, m). catalog_candidate (r_sha R) intent m) (dupdate b l))), w1)"
proof -
  let ?st = "r_store R" and ?v = "r_validator R"
  obtain w1 where lock: "take_lock (store_lock R) w = (Inr (), w1)" "w_faults w1 = []"
      "lock_made (store_lock R) (w_fs w) (w_fs w1)"
    using take_lock_granted [OF assms(1,2)] by blast
  have "base_view ?v ?st (w_fs w1) = Inr b"
    using b lock_made_same [OF lock(3) off] by (simp add: base_view_def catalog_at_def)
  then obtain w2 where w2: "load_base_catalog ?v ?st w1 = (Inr b, w2)" "w_faults w2 = []" "w_fs w2 = w_fs w1"
    using load_no_faults [OF lock(2) assms(3)] by (auto simp: load_base_catalog_def base_view_def)
  have "local_view ?v ?st (w_fs w2) = Inr l" using l views_after_lock(1) [OF lock(3)] w2(3) by simp
  then obtain w3 where "load_local_catalog ?v ?st w2 = (Inr l, w3)"
    unfolding load_local_catalog_def local_view_def using load_no_faults [OF w2(2) local_catalog_not_Nil] by blast
  with lock(1) w2(1) show ?thesis
    by (simp add: resolver_search_def with_lock_def merged_catalog_def io_bind_def io_return_def assms(7) trust_filter_def
        jget_def get_or_def case_prod_unfold)
qed

section \<open>What a run passes before the engine\<close>

text \<open>Operations that read: no request, no change on disk, no nonce used.\<close>

definition reads_only :: "'a io \<Rightarrow> bool" where
  "reads_only m \<longleftrightarrow> (\<forall>w. w_fs (snd (m w)) = w_fs w \<and> w_sent (snd (m w)) = w_sent w \<and> w_nonces (snd (m w)) = w_nonces w)"

named_theorems reads_rules

lemma reads_return [reads_rules]: "reads_only (io_return a)"
  by (simp add: reads_only_def io_defs)

lemma reads_raise [reads_rules]: "reads_only (io_raise e)"
  by (simp add: reads_only_def io_defs)

lemma reads_lift [reads_rules]: "reads_only (io_lift r)"
  by (simp add: reads_only_def io_defs)

lemma reads_get [reads_rules]: "reads_only (io_get f)"
  by (simp add: reads_only_def io_defs)

lemma reads_bind [reads_rules]: "reads_only m \<Longrightarrow> (\<And>a. reads_only (f a)) \<Longrightarrow> reads_only (io_bind m f)"
  unfolding reads_only_def io_bind_def
  by (auto split: prod.split sum.split) (metis snd_conv)+

lemma reads_try [reads_rules]: "reads_only m \<Longrightarrow> (\<And>e. reads_only (h e)) \<Longrightarrow> reads_only (io_try m h)"
  unfolding reads_only_def io_try_def
  by (auto split: prod.split sum.split) (metis snd_conv)+

lemma reads_if [reads_rules]: "reads_only m \<Longrightarrow> reads_only n \<Longrightarrow> reads_only (if b then m else n)"
  by simp

lemma reads_read_file [reads_rules]: "reads_only (read_file p)"
  by (auto simp: reads_only_def read_file_def prim_def Let_def split: option.split node.split)

lemma reads_exists [reads_rules]: "reads_only (exists_io p)"
  unfolding exists_io_def by (rule reads_get)

lemma reads_merged [reads_rules]: "reads_only (merged_catalog v st)"
  unfolding merged_catalog_def load_base_catalog_def load_local_catalog_def load_catalog_file_def read_json_def
  by (intro reads_rules)

lemma reads_get_locked [reads_rules]: "reads_only (get_locked R k version)"
  unfolding get_locked_def by (intro reads_rules) (auto intro!: reads_rules split: option.split)

lemma reads_onlyD:
  "reads_only m \<Longrightarrow> m w = (r, w') \<Longrightarrow> w_fs w' = w_fs w \<and> w_sent w' = w_sent w \<and> w_nonces w' = w_nonces w"
  unfolding reads_only_def by (metis snd_conv)

text \<open>Operations that do no more than make the lock file where it is missing.\<close>

definition locks_only :: "path \<Rightarrow> 'a io \<Rightarrow> bool" where
  "locks_only p m \<longleftrightarrow> (\<forall>w. lock_made p (w_fs w) (w_fs (snd (m w)))
     \<and> w_sent (snd (m w)) = w_sent w \<and> w_nonces (snd (m w)) = w_nonces w)"

lemma locks_onlyD:
  "locks_only p m \<Longrightarrow> m w = (r, w') \<Longrightarrow> lock_made p (w_fs w) (w_fs w') \<and> w_sent w' = w_sent w \<and> w_nonces w' = w_nonces w"
  unfolding locks_only_def by (metis snd_conv)

lemma locks_reads: "reads_only m \<Longrightarrow> locks_only p m"
  by (simp add: reads_only_def locks_only_def)

lemma locks_bind: "locks_only p m \<Longrightarrow> (\<And>a. locks_only p (f a)) \<Longrightarrow> locks_only p (io_bind m f)"
  unfolding locks_only_def io_bind_def
  by (auto split: prod.split sum.split) (metis lock_made_trans snd_conv)+

lemma locks_take: "p \<noteq> [] \<Longrightarrow> locks_only p (take_lock p)"
  unfolding locks_only_def
  using take_lock_run(1) [OF _ surjective_pairing] take_lock_rest [OF surjective_pairing] by blast

lemma locks_with_lock: "p \<noteq> [] \<Longrightarrow> locks_only p m \<Longrightarrow> locks_only p (with_lock p m)"
  unfolding with_lock_def by (intro locks_bind locks_take)

lemma locks_resolver_get: "locks_only (store_lock R) (resolver_get R k version)"
  unfolding resolver_get_def by (intro locks_with_lock locks_reads reads_get_locked) simp

text \<open>Everything in a merged catalog passed validation.\<close>

lemma collect_valid: "collect v out xs = Inr d \<Longrightarrow> \<forall>p \<in> set out. v (snd p) = [] \<Longrightarrow> \<forall>p \<in> set d. v (snd p) = []"
proof (induction v out xs rule: collect.induct)
  case (2 v out item rest)
  show ?case
  proof (cases "is_dict item \<and> str_or_empty (jget item ''id'') \<noteq> []")
    case True
    with "2.prems" have item: "v item = []"
      and rest: "collect v (dset (str_or_empty (jget item ''id'')) item out) rest = Inr d"
      by (auto simp: result_simps Let_def)
    have "\<forall>p \<in> set (dset (str_or_empty (jget item ''id'')) item out). v (snd p) = []"
      using set_dset_subset [of "str_or_empty (jget item ''id'')" item out] "2.prems"(2) item by fastforce
    with "2.IH"(3) [OF _ _ refl _ rest] True item show ?thesis by (auto simp: result_simps)
  next
    case False
    with "2.prems" "2.IH"(1,2) show ?thesis by (auto simp: result_simps Let_def split: if_splits)
  qed
qed simp

lemma load_valid: "returns (\<lambda>d. \<forall>p \<in> set d. v (snd p) = []) (load_catalog_file v path)"
  unfolding load_catalog_file_def
  by (intro returns_bind [OF returns_any] returns_if returns_return returns_lift)
     (auto simp: catalog_of_json_def Let_def dest!: collect_valid split: if_splits)

lemma set_dupdate: "set (dupdate d e) \<subseteq> set d \<union> set e"
proof (induction e arbitrary: d)
  case (Cons p e)
  then show ?case using Cons.IH [of "dset (fst p) (snd p) d"] set_dset_subset [of "fst p" "snd p" d]
    by (cases p) auto
qed simp

lemma merged_valid: "returns (\<lambda>d. \<forall>p \<in> set d. v (snd p) = []) (merged_catalog v st)"
  unfolding merged_catalog_def load_base_catalog_def load_local_catalog_def
  by (intro returns_bind [OF load_valid] returns_return) (use set_dupdate in blast)

lemma get_valid: "returns (\<lambda>m. r_validator R m = []) (resolver_get R k version)"
  unfolding resolver_get_def with_lock_def get_locked_def
  by (rule returns_bind [OF returns_any], rule returns_bind [OF merged_valid])
     (auto dest!: map_of_SomeD intro!: returns_raise returns_return split: option.split)

text \<open>How a run of a composed operation decomposes.\<close>

named_theorems io_inv

lemma io_bind_is_Inr [io_inv]: "io_bind m f w = (Inr b, w') \<longleftrightarrow> (\<exists>a w1. m w = (Inr a, w1) \<and> f a w1 = (Inr b, w'))"
  by (auto simp: io_bind_def split: prod.splits sum.splits)

lemma io_bind_is_Inl [io_inv]:
  "io_bind m f w = (Inl e, w') \<longleftrightarrow> m w = (Inl e, w') \<or> (\<exists>a w1. m w = (Inr a, w1) \<and> f a w1 = (Inl e, w'))"
  by (auto simp: io_bind_def split: prod.splits sum.splits)

lemma io_lift_is [io_inv]: "io_lift r w = (r', w') \<longleftrightarrow> r = r' \<and> w' = w"
  by (auto simp: io_lift_def)

lemma io_return_is [io_inv]: "io_return a w = (r', w') \<longleftrightarrow> r' = Inr a \<and> w' = w"
  by (auto simp: io_return_def)

lemma io_raise_is [io_inv]: "io_raise e w = (r', w') \<longleftrightarrow> r' = Inl e \<and> w' = w"
  by (auto simp: io_raise_def)

lemma consume_is [io_inv]:
  "consume_nonce n w = (Inr u, w') \<longleftrightarrow> n \<notin> set (w_nonces w) \<and> w' = w\<lparr>w_nonces := n # w_nonces w\<rparr>"
  "consume_nonce n w = (Inl e, w') \<longleftrightarrow> n \<in> set (w_nonces w) \<and> w' = w \<and> e = CapabilityPolicyError ''execution authority replayed''"
  by (auto simp: consume_nonce_def consume_def policy_error_def split: if_splits)

text \<open>What a lookup returns is what the catalogs on disk hold.\<close>

definition in_catalogs :: "resolver \<Rightarrow> string \<Rightarrow> json \<Rightarrow> fs \<Rightarrow> bool" where
  "in_catalogs R k m s \<longleftrightarrow>
     (case (base_view (r_validator R) (r_store R) s, local_view (r_validator R) (r_store R) s) of
        (Inr b, Inr l) \<Rightarrow> dget (dupdate b l) k = Some m
      | _ \<Rightarrow> False)"

lemma read_file_run: "read_file p w = (Inr d, w') \<Longrightarrow> fs_get (w_fs w) p = Some (FileN d) \<and> w_fs w' = w_fs w"
  by (auto simp: read_file_def prim_def Let_def split: option.splits if_splits node.splits)

lemma load_run: "load_catalog_file v p w = (Inr d, w') \<Longrightarrow> catalog_at v p (w_fs w) = Inr d \<and> w_fs w' = w_fs w"
  by (auto simp: load_catalog_file_def exists_io_def io_get_def read_json_def io_try_def io_inv catalog_at_def path_exists_def
      split: if_splits prod.splits sum.splits dest!: read_file_run)

lemma merged_run:
  "merged_catalog v st w = (Inr d, w') \<Longrightarrow>
     (\<exists>b l. base_view v st (w_fs w) = Inr b \<and> local_view v st (w_fs w) = Inr l \<and> d = dupdate b l) \<and> w_fs w' = w_fs w"
  unfolding merged_catalog_def load_base_catalog_def load_local_catalog_def base_view_def local_view_def io_inv
  by (elim exE conjE) (frule load_run, drule load_run, auto dest: load_run)

lemma get_run:
  assumes "resolver_get R k version w = (Inr m, w')"
  shows "in_catalogs R k m (w_fs w')"
proof -
  from assms obtain w1 where "get_locked R k version w1 = (Inr m, w')"
    unfolding resolver_get_def with_lock_def by (auto simp: io_inv)
  then obtain w2 d where d: "merged_catalog (r_validator R) (r_store R) w1 = (Inr d, w2)" and w': "w2 = w'"
    and "dget d k = Some m"
    unfolding get_locked_def io_bind_is_Inr
    by (elim exE conjE, rename_tac d w2, case_tac "dget d k"; cases version) (auto simp: io_inv split: if_splits)
  with merged_run [OF d] show ?thesis by (auto simp: in_catalogs_def)
qed

definition clearance :: "resolver \<Rightarrow> json \<Rightarrow> json \<Rightarrow> json io" where
  "clearance R args m =
     (if must_authorize R m then
        (let authority = dict_or_empty (jget args ''authority'') in
         io_bind (io_lift (authorize_execution (r_clock R) m authority None)) (\<lambda>_.
         io_bind (consume_nonce (py_str (jget authority ''nonce''))) (\<lambda>_. io_return m)))
      else io_return m)"

text \<open>The gate: acquiring the lock and all checks that follow.\<close>

definition run_gate :: "resolver \<Rightarrow> string \<Rightarrow> json \<Rightarrow> json io" where
  "run_gate R k args = with_lock (store_lock R) (run_checks R k args)"

lemma run_checks_parts:
  "run_checks R k args =
     (if \<not> is_dict args then io_raise (CapabilityManifestError ''args must be an object'')
      else
        io_bind (io_lift (requested_channel args)) (\<lambda>channel.
        io_bind (resolver_get R k (opt_text (jget args ''version''))) (\<lambda>m.
        io_bind (io_lift (enforce_run m (opt_text channel))) (\<lambda>_. clearance R args m))))"
  by (simp only: run_checks_def clearance_def)

lemma run_is_gate_then_engine:
  "resolver_run R k args = io_bind (run_gate R k args) (\<lambda>m. exec_run (r_runtime R) (r_egress R) (r_transport R) m args)"
  by (simp add: resolver_run_def run_gate_def with_lock_def io_bind_assoc)

text \<open>What a run request has passed when the engine is called with \<open>m\<close>.\<close>

definition cleared :: "resolver \<Rightarrow> json \<Rightarrow> json \<Rightarrow> world \<Rightarrow> world \<Rightarrow> bool" where
  "cleared R args m w w' \<longleftrightarrow>
     jget m ''enabled'' \<noteq> JBool False \<and> (if jget m ''requires_oauth'' = JBool True then has_oauth_secret m else True)
     \<and> (if must_authorize R m then
          (let a = dict_or_empty (jget args ''authority''); nonce = py_str (jget a ''nonce'') in
           authorized (r_clock R) m a None \<and> nonce \<notin> set (w_nonces w) \<and> w_nonces w' = nonce # w_nonces w)
        else w_nonces w' = w_nonces w)"

lemma clearance_Inr:
  assumes "clearance R args m0 w1 = (Inr m, w')" and "enforce_run m0 c = Inr u" and "w_nonces w1 = w_nonces w"
  shows "m = m0 \<and> cleared R args m w w' \<and> w_fs w' = w_fs w1 \<and> w_sent w' = w_sent w1"
  using assms enforce_run_ok [OF assms(2)]
    authorize_execution_Inr [of "r_clock R" m0 "dict_or_empty (jget args ''authority'')" None "()"]
  by (auto simp: clearance_def cleared_def Let_def io_inv split: if_splits)

lemma clearance_Inl:
  assumes "clearance R args m0 w1 = (Inl e, w')"
  shows "w' = w1"
  using assms by (auto simp: clearance_def Let_def io_inv split: if_splits)

lemma checks_cleared:
  assumes "run_checks R k args w = (Inr m, w')"
  shows "cleared R args m w w' \<and> lock_made (store_lock R) (w_fs w) (w_fs w') \<and> w_sent w' = w_sent w \<and> r_validator R m = []
    \<and> in_catalogs R k m (w_fs w')"
proof -
  from assms obtain version channel m0 w1 u where get: "resolver_get R k version w = (Inr m0, w1)"
    and run: "enforce_run m0 channel = Inr u" and rest: "clearance R args m0 w1 = (Inr m, w')"
    unfolding run_checks_parts by (auto simp: io_inv split: if_splits)
  note same = locks_onlyD [OF locks_resolver_get get]
  with clearance_Inr [OF rest run, of w] returnsD [OF get_valid get] get_run [OF get] show ?thesis by auto
qed

lemma checks_raise:
  assumes "run_checks R k args w = (Inl e, w')"
  shows "lock_made (store_lock R) (w_fs w) (w_fs w') \<and> w_sent w' = w_sent w \<and> w_nonces w' = w_nonces w"
  using assms locks_onlyD [OF locks_resolver_get] clearance_Inl
  unfolding run_checks_parts
  by (auto simp: io_inv split: if_splits) (metis locks_onlyD [OF locks_resolver_get])+

lemma gate_cleared:
  assumes "run_gate R k args w = (Inr m, w')"
  shows "cleared R args m w w' \<and> lock_made (store_lock R) (w_fs w) (w_fs w') \<and> w_sent w' = w_sent w \<and> r_validator R m = []
    \<and> in_catalogs R k m (w_fs w')"
  using assms unfolding run_gate_def
proof (cases rule: with_lock_cases [OF lock_path_not_Nil(2), consumes 1, case_names refused held])
  case (held w1)
  from checks_cleared [OF held(2)] held lock_made_trans [OF held(3)] show ?thesis by (auto simp: cleared_def Let_def)
qed simp

lemma gate_raises:
  assumes "run_gate R k args w = (Inl e, w')"
  shows "lock_made (store_lock R) (w_fs w) (w_fs w') \<and> w_sent w' = w_sent w \<and> w_nonces w' = w_nonces w"
  using assms unfolding run_gate_def
proof (cases rule: with_lock_cases [OF lock_path_not_Nil(2), consumes 1, case_names refused held])
  case (held w1)
  from checks_raise [OF held(2)] held lock_made_trans [OF held(3)] show ?thesis by auto
qed simp

lemma run_after_gate:
  "run_gate R k args w = (Inl e, w') \<Longrightarrow> resolver_run R k args w = (Inl e, w')"
  "run_gate R k args w = (Inr m, w') \<Longrightarrow>
     resolver_run R k args w = exec_run (r_runtime R) (r_egress R) (r_transport R) m args w'"
  by (simp_all add: run_is_gate_then_engine io_bind_def)

text \<open>Without the legacy switch nothing from a catalog can clear the gate.\<close>

lemma gate_closed:
  assumes v: "manifest_validator (r_validator R)"
    and legacy: "str_lower (getenv (r_env R) ''UNISON_CAPABILITY_ALLOW_LEGACY'' ''false'') \<noteq> ''true''"
  shows "run_gate R k args w \<noteq> (Inr m, w')"
proof
  assume gate: "run_gate R k args w = (Inr m, w')"
  then have "schema_conforms m" using gate_cleared [OF gate] manifest_validator.exact [OF v] by blast
  then have no: "jget m ''governance_version'' = JNull" by (rule governance_not_in_schema)
  from gate_cleared [OF gate] legacy have "authorized (r_clock R) m (dict_or_empty (jget args ''authority'')) None"
    by (auto simp: cleared_def must_authorize_def Let_def)
  with no show False
    using authorize_execution_Inr [of "r_clock R" m "dict_or_empty (jget args ''authority'')" None "()"]
    by (simp add: authorize_execution_def validate_governance_manifest_def py_eq_def)
qed

section \<open>Sending\<close>

lemma rmtree_sends [sends_rules]: "sends_only P (rmtree p)"
  unfolding rmtree_def remove_entry_def rmdir_def unlink_def by (intro sends_rules)

lemma atomic_write_sends [sends_rules]: "sends_only P (atomic_write_json token p j)"
  unfolding atomic_write_json_def atomic_write_text_def Let_def mkdir_p_def create_file_def write_file_def
    replace_file_def unlink_missing_ok_def unlink_def fsync_def
  by (intro sends_rules) (auto intro!: sends_rules split: exc.split pykind.split)

lemma install_sends: "sends_only P (install_manifest_atomic token st m meta)"
proof -
  have "sends_only P (promote a b)" for a b
    unfolding promote_def replace_dir_def
    by (intro sends_rules) (auto intro!: sends_rules split: exc.split pykind.split)
  then show ?thesis
    unfolding install_manifest_atomic_def stage_and_promote_def Let_def exists_io_def mkdir_p_def mkdir_new_def
      fsync_dir_def fsync_def
    by (intro sends_rules)
qed

lemma reads_sends: "reads_only m \<Longrightarrow> sends_only P m"
  by (rule sends_only_silent) (simp add: reads_only_def)

lemma reads_load [reads_rules]: "reads_only (load_catalog_file v p)"
  unfolding load_catalog_file_def read_json_def by (intro reads_rules)

lemma upsert_sends: "sends_only P (upsert_local v token st m)"
  unfolding upsert_local_def write_local_catalog_def load_local_catalog_def Let_def
  by (intro sends_rules reads_sends [OF reads_load])

lemma ignore_os_sends: "sends_only P m \<Longrightarrow> sends_only P (ignore_os m)"
  unfolding ignore_os_def by (intro sends_rules) (auto intro!: sends_rules split: exc.split pykind.split)

lemma copy_payload_sends: "sends_only P (copy_payload R cand r)"
proof -
  have read: "sends_only P (read_file p)" for p by (intro reads_sends reads_rules)
  have entries: "sends_only P (copy_entries a b qs)" for a b qs
    by (induction qs)
       (auto simp: Let_def mkdir_new_def copy_file_def intro!: sends_rules read)
  have "sends_only P (put_payload_from_path f st r' p)" for f st r' p
    unfolding put_payload_from_path_def copytree_def rmtree_strict_def copy_file_def exists_io_def mkdir_p_def
      mkdir_new_def rmdir_def unlink_def Let_def
    by (intro sends_rules read entries)
  then show ?thesis
    unfolding copy_payload_def best_effort_def Let_def
    by (intro sends_rules) (auto intro!: sends_rules split: json.split)
qed

lemma remove_sends: "sends_only P (resolver_remove R token k version)"
proof -
  have entry: "sends_only P (remove_tree_entry p)" for p
    unfolding remove_tree_entry_def unlink_missing_ok_def unlink_def rmdir_def
    by (intro sends_rules) (auto intro!: sends_rules ignore_os_sends split: prod.split exc.split pykind.split)
  have "sends_only P (store_remove st r)" for st r
    unfolding store_remove_def exists_io_def rmdir_def
    by (intro sends_rules entry ignore_os_sends)
  then show ?thesis
    unfolding resolver_remove_def remove_locked_def delete_local_def set_local_enabled_def best_effort_def write_local_catalog_def
      load_local_catalog_def
    by (intro sends_rules reads_sends [OF reads_merged] reads_sends [OF reads_load])
       (auto intro!: sends_rules upsert_sends split: option.split)
qed

lemma resolver_fetch_sends:
  assumes "r_egress R = Some cfg"
  shows "sends_only (egress_allowed cfg) (manifest_to_install R cand)"
proof -
  have "sends_only (egress_allowed cfg) (http_call (r_egress R) tr rq)" for tr rq
    by (simp add: http_call_def assms egress_request_sends)
  then have "sends_only (egress_allowed cfg) (fetch_pinned R m u)" for m u
    unfolding fetch_pinned_def Let_def by (intro sends_rules)
  then show ?thesis
    unfolding manifest_to_install_def Let_def by (intro sends_rules) (auto intro!: sends_rules split: json.split)
qed

lemma search_sends:
  assumes "\<forall>a \<in> set (r_adapters R). \<forall>q. sends_only P (a q)"
  shows "sends_only P (resolver_search R intent constraints)"
proof -
  have "sends_only P (ask_adapters as q)" if "\<forall>a \<in> set as. \<forall>q. sends_only P (a q)" for as q
    using that by (induction as) (auto intro!: sends_rules)
  then show ?thesis
    unfolding resolver_search_def by (intro sends_rules reads_sends [OF reads_merged]) (use assms in blast)
qed

lemma run_sends:
  assumes "r_egress R = Some cfg" and "callables_send (egress_allowed cfg) (r_runtime R)"
  shows "sends_only (egress_allowed cfg) (resolver_run R k args)"
proof -
  have "sends_only (egress_allowed cfg) (run_gate R k args)"
    using gate_cleared gate_raises by (intro sends_only_silent) (metis prod.collapse sum.exhaust)
  moreover have "sends_only (egress_allowed cfg) (exec_run (r_runtime R) (r_egress R) tr m args)" for tr m
    by (rule exec_run_sends [OF assms(2)]) (simp add: may_call_def assms(1))
  ultimately show ?thesis unfolding run_is_gate_then_engine by (intro sends_rules)
qed

section \<open>Properties\<close>

text \<open>
  C1: an install request, under every schedule of file errors and a crash at any point,
  leaves the local catalog as it was or with one manifest put in; it answers only when that
  is done, with the identifier and version of that manifest. The manifest is the proposed
  one, valid and allowed by the policy, or a valid one fetched over https whose canonical
  form has exactly the digest the proposed one pins.
\<close>

theorem install_stores_what_was_checked:
  assumes "manifest_validator (r_validator R)" and "replies_ok (r_transport R)" and "json_ok cand" and "docs_ok (w_fs w)"
  shows "case resolver_install R token cand w of (r, w') \<Rightarrow>
     steps_ok (install_state R cand (w_fs w)) w w'
     \<and> (case r of Inl e \<Rightarrow> install_state R cand (w_fs w) (w_fs w')
        | Inr out \<Rightarrow> install_done R cand (w_fs w) out (w_fs w'))"
  using tripleD [OF triple_install_request [OF assms(1-3) docs_ok_at [OF assms(4)], of token] refl]
  by (auto split: prod.split)

text \<open>
  C7: a remove request implements its specification on the catalogs, under every
  schedule of file errors and a crash at any point: it reports whether the capability was
  known, an entry of the local catalog is dropped, and a shipped capability without one is
  disabled by a new local entry. So removing a shipped capability twice brings it back as it
  was shipped, and removing a local override does so at once.
\<close>

theorem remove_refines:
  assumes "manifest_validator (r_validator R)" and "base_catalog (r_store R) \<noteq> []" and "docs_ok (w_fs w)"
    and "dget b k = Some m" and "dget l k = None" and "dict_ok l" and "str_or_empty (jget m ''id'') = k"
  shows "(case resolver_remove R token k version w of (r, w') \<Rightarrow>
      steps_ok (cat_atomic (r_validator R) (r_store R) (w_fs w) (remove_view R k (w_fs w))) w w'
      \<and> (case r of Inl e \<Rightarrow> cat_atomic (r_validator R) (r_store R) (w_fs w) (remove_view R k (w_fs w)) (w_fs w')
         | Inr known \<Rightarrow> local_view (r_validator R) (r_store R) (w_fs w') = remove_view R k (w_fs w)
             \<and> known_before R k (w_fs w) known))
    \<and> dget (dupdate b (remove_spec k b l)) k = Some (sort_json (jset ''enabled'' (JBool False) m))
    \<and> dget (dupdate b (remove_spec k b (remove_spec k b l))) k = Some m"
  using tripleD [OF triple_remove_request [OF assms(1,2) docs_ok_at [OF assms(3)] docs_ok_at [OF assms(3)],
        where k = k and token = token and version = version] refl]
    remove_spec_twice [OF assms(4-7)]
  by (auto split: prod.split)

text \<open>
  C26: whatever the registries answer, resolving a step returns one of the candidates that
  searching gives in the same world, one that is of the catalog or that the policy lets in,
  and none of these has a higher score, wherever it comes from; it raises when there is no
  such candidate.
\<close>

theorem resolve_returns_best_allowed:
  "let step = JObj [(''intent'', JStr (c # i)), (''constraints'', JObj d)] in
   case resolver_search R (c # i) (JObj d) w of
     (Inl e, w1) \<Rightarrow> resolver_resolve R step w = (Inl e, w1)
   | (Inr cs, w1) \<Rightarrow>
      (case resolver_resolve R step w of
         (Inr best, w2) \<Rightarrow> w2 = w1 \<and> best \<in> set cs \<and> may_offer (r_policy R) best
           \<and> list_all (\<lambda>other. if may_offer (r_policy R) other then cand_score other \<le> cand_score best else True) cs
       | (Inl e, w2) \<Rightarrow> w2 = w1 \<and> list_all (\<lambda>other. \<not> may_offer (r_policy R) other) cs
           \<and> e = CapabilityNotFoundError ((if cs = [] then ''no candidates found for intent: ''
                else ''no policy-allowed candidates for intent: '') @ c # i))"
proof -
  let ?step = "JObj [(''intent'', JStr (c # i)), (''constraints'', JObj d)]"
  obtain r w1 where run: "resolver_search R (c # i) (JObj d) w = (r, w1)" by fastforce
  show ?thesis
  proof (cases r)
    case (Inl e)
    with run show ?thesis by (simp add: Let_def resolve_step io_bind_def)
  next
    case (Inr cs)
    with run have "ranked cs" using returnsD [OF search_ranked] by blast
    show ?thesis
    proof (cases "find (may_offer (r_policy R)) cs")
      case None
      then have "list_all (\<lambda>other. \<not> may_offer (r_policy R) other) cs" by (simp add: find_None_iff list_all_iff)
      with None run Inr show ?thesis by (simp add: Let_def resolve_step io_bind_def io_raise_def)
    next
      case (Some best)
      with \<open>ranked cs\<close> have "list_all (\<lambda>other. if may_offer (r_policy R) other then cand_score other \<le> cand_score best else True) cs"
        by (auto simp: list_all_iff intro: find_ranked)
      with Some find_in [OF Some] run Inr show ?thesis by (simp add: Let_def resolve_step io_bind_def io_return_def)
    qed
  qed
qed

text \<open>
  C27: a capability is offered for every intent: without registries, resolving an intent that
  no capability mentions returns a capability of the catalogs all the same, whatever the
  policy says, the one with the highest score.
\<close>

theorem resolve_ignores_relevance:
  assumes "w_faults w = []" and "lock_open (w_fs w) (store_lock R)"
    and "base_catalog (r_store R) \<noteq> []" and "\<not> is_prefix (base_catalog (r_store R)) (store_lock R)"
    and "base_view (r_validator R) (r_store R) (w_fs w) = Inr b" and "local_view (r_validator R) (r_store R) (w_fs w) = Inr l"
    and "dupdate b l \<noteq> []" and "r_adapters R = []"
    and "list_all (\<lambda>(k, m). \<not> str_contains (str_lower (c # i)) (str_lower (str_or_empty (jget m ''id'')))
           \<and> \<not> str_contains (str_lower (c # i)) (str_lower (str_or_empty (jget m ''description'')))) (dupdate b l)"
  shows "\<exists>k m w1. resolver_resolve R (JObj [(''intent'', JStr (c # i)), (''constraints'', JObj [])]) w
       = (Inr (catalog_candidate (r_sha R) (c # i) m), w1)
     \<and> (k, m) \<in> set (dupdate b l)
     \<and> list_all (\<lambda>(k', m'). trust_rank (str_or_empty (jget m ''trust_level'')) \<le> trust_rank (str_or_empty (jget m' ''trust_level'')))
         (dupdate b l)"
proof -
  let ?cands = "map (\<lambda>(k, m). catalog_candidate (r_sha R) (c # i) m) (dupdate b l)"
  obtain w1 where search: "resolver_search R (c # i) (JObj []) w = (Inr (by_score ?cands), w1)"
    using search_catalog_only [OF assms(1-6,8)] by blast
  from assms(7) obtain x xs where sorted: "by_score ?cands = x # xs"
    by (cases "by_score ?cands") (auto simp: by_score_def dest!: arg_cong [of _ "[]" length])
  then have "x \<in> set (by_score ?cands)" by simp
  then obtain k m where x: "x = catalog_candidate (r_sha R) (c # i) m" and m: "(k, m) \<in> set (dupdate b l)"
    by (auto simp: by_score_def)
  have score: "cand_score (catalog_candidate (r_sha R) (c # i) m') = - trust_rank (str_or_empty (jget m' ''trust_level''))"
    if "(k', m') \<in> set (dupdate b l)" for k' m'
    using that assms(9) trust_rank_nonneg [of "str_or_empty (jget m' ''trust_level'')"]
    by (auto simp: catalog_candidate_def make_candidate_def score_manifest_def Let_def list_all_iff)
  have "cand_score y \<le> cand_score x" if "y \<in> set ?cands" for y
    using ranked_by_score [of ?cands] that unfolding sorted ranked_def
    by (metis list.set_cases set_ConsD order_refl set_by_score sorted sorted_wrt.simps(2))
  then have "list_all (\<lambda>(k', m'). trust_rank (str_or_empty (jget m ''trust_level'')) \<le> trust_rank (str_or_empty (jget m' ''trust_level'')))
         (dupdate b l)"
    using score m by (fastforce simp: x list_all_iff)
  moreover have "may_offer (r_policy R) x" by (simp add: x may_offer_def catalog_candidate_def make_candidate_def Let_def)
  ultimately show ?thesis
    using search m by (auto simp: resolve_step sorted x io_bind_def io_return_def)
qed

text \<open>
  C2: the execution engine is called for a run request only after the gate, and with the
  manifest that the catalogs hold for the capability: it is valid, enabled and onboarded; unless legacy execution is switched on for a
  manifest without governance, the authority in the arguments authorizes it and its nonce was
  never used and is recorded now. A request that does not clear the gate raises, sends
  nothing and uses up no nonce; all it can leave on disk is an empty lock file, where there was
  none, and the directories on the way to it.
\<close>

theorem run_gated:
  "case run_gate R k args w of
     (Inl e, w1) \<Rightarrow> resolver_run R k args w = (Inl e, w1)
       \<and> lock_made (store_lock R) (w_fs w) (w_fs w1) \<and> w_sent w1 = w_sent w \<and> w_nonces w1 = w_nonces w
   | (Inr m, w1) \<Rightarrow> resolver_run R k args w = exec_run (r_runtime R) (r_egress R) (r_transport R) m args w1
       \<and> r_validator R m = [] \<and> in_catalogs R k m (w_fs w1) \<and> cleared R args m w w1
       \<and> lock_made (store_lock R) (w_fs w) (w_fs w1) \<and> w_sent w1 = w_sent w"
  by (auto split: prod.split sum.split dest: run_after_gate gate_cleared gate_raises)

text \<open>
  C25: with the validator of the schema and legacy execution off, which is the default,
  every run request fails closed before the engine is reached: it raises, sends nothing and
  uses up no nonce; all it can leave on disk is an empty lock file, where there was none, and
  the directories on the way to it. So no capability of the catalogs, shipped or
  installed, can be run in the default configuration.
\<close>

theorem default_run_fails_closed:
  assumes "manifest_validator (r_validator R)"
    and "str_lower (getenv (r_env R) ''UNISON_CAPABILITY_ALLOW_LEGACY'' ''false'') \<noteq> ''true''"
  shows "\<exists>e w1. resolver_run R k args w = (Inl e, w1)
    \<and> lock_made (store_lock R) (w_fs w) (w_fs w1) \<and> w_sent w1 = w_sent w \<and> w_nonces w1 = w_nonces w"
proof -
  obtain r w1 where gate: "run_gate R k args w = (r, w1)" by fastforce
  then obtain e where "r = Inl e" using gate_closed [OF assms, of k args w] by (cases r) auto
  with gate gate_raises run_after_gate(1) show ?thesis by blast
qed

text \<open>
  With an egress policy that the registries and the Python callables respect, every request that listing,
  looking up, searching, resolving, installing, removing or running a capability sends goes
  to a URL the policy admits.
\<close>

theorem resolver_network_confined:
  assumes "r_egress R = Some cfg" and "\<forall>a \<in> set (r_adapters R). \<forall>q. sends_only (egress_allowed cfg) (a q)"
    and "callables_send (egress_allowed cfg) (r_runtime R)"
  shows "sends_only (egress_allowed cfg) (resolver_list R)
    \<and> sends_only (egress_allowed cfg) (resolver_get R k version)
    \<and> sends_only (egress_allowed cfg) (resolver_search R intent constraints)
    \<and> sends_only (egress_allowed cfg) (resolver_resolve R step)
    \<and> sends_only (egress_allowed cfg) (resolver_install R token cand)
    \<and> sends_only (egress_allowed cfg) (resolver_remove R token k v)
    \<and> sends_only (egress_allowed cfg) (resolver_run R k args)"
proof (intro conjI)
  show "sends_only (egress_allowed cfg) (resolver_list R)"
    unfolding resolver_list_def list_locked_def by (intro sends_rules reads_sends [OF reads_merged])
  show "sends_only (egress_allowed cfg) (resolver_get R k version)"
    unfolding resolver_get_def by (intro with_lock_sends reads_sends reads_get_locked)
  show "sends_only (egress_allowed cfg) (resolver_search R intent constraints)" by (rule search_sends [OF assms(2)])
  show "sends_only (egress_allowed cfg) (resolver_resolve R step)"
    unfolding resolver_resolve_def Let_def
    by (intro sends_rules search_sends [OF assms(2)]) (auto intro!: sends_rules split: option.split)
  show "sends_only (egress_allowed cfg) (resolver_install R token cand)"
    unfolding resolver_install_def install_locked_def
    by (intro sends_rules resolver_fetch_sends [OF assms(1)] install_sends upsert_sends copy_payload_sends)
  show "sends_only (egress_allowed cfg) (resolver_remove R token k v)" by (rule remove_sends)
  show "sends_only (egress_allowed cfg) (resolver_run R k args)" by (rule run_sends [OF assms(1,3)])
qed

text \<open>
  C39: the policy is asked about the proposed manifest only: when that one passes, a
  manifest fetched for it is taken over even if the policy refuses it, so long as it is valid
  and has the pinned digest.
\<close>

theorem fetched_manifest_escapes_policy:
  assumes "is_dict cand" and "r_validator R (jget cand ''manifest'') = []"
    and "is_dict (jget cand ''manifest'')" and "install_allowed (r_policy R) (jget cand ''manifest'')"
    and "jget (jget cand ''manifest'') ''origin'' = JObj og" and "dget og ''source'' = Some (JStr ''url'')"
    and "jget cand ''manifest_url'' = JStr (c # u)" and "urlparse (c # u) = Inr p" and "scheme p = ''https''"
    and "r_egress R = Some cfg" and "egress_allowed cfg (c # u)"
    and "r_transport R (get_request (c # u) (Dec 5 0)) = Inr \<lparr>rs_status = 200, rs_raise = None, rs_json = Inr remote\<rparr>"
    and "is_dict remote" and "r_validator R remote = []" and "pinned R (jget cand ''manifest'') remote"
    and "enforce_install (r_policy R) remote = Inl refused"
  shows "fst (manifest_to_install R cand w) = Inr remote"
proof -
  let ?c = "jget cand ''manifest''"
  have ok: "validate_manifest (r_validator R) ?c = Inr ?c" "enforce_install (r_policy R) ?c = Inr ()"
    "validate_manifest (r_validator R) remote = Inr remote"
    using assms(2,4,14) by (simp_all add: validate_manifest_valid enforce_install_allowed del: enforce_install_Inr)
  have origin: "py_get (py_or (jget ?c ''origin'') (JObj [])) ''source'' = Inr (JStr ''url'')"
    using assms(5,6) by (auto simp: py_or_def py_get_def jget_def get_or_def)
  have "check_url cfg (c # u) = Inr ()" using assms(11) by (simp add: check_url_Inr)
  then have reply: "fst (fetch_pinned R ?c (c # u) v) = Inr remote" for v
    using assms(8-15) ok(3)
    by (simp add: fetch_pinned_def http_call_def egress_request_def get_request_def send_def io_defs response_json_def
        raise_for_status_def Let_def pinned_def pin_of_def)
  show ?thesis
    unfolding manifest_to_install_def Let_def
    using assms(1,3,7) reply by (simp add: ok origin)
qed

section \<open>Instances\<close>

text \<open>
  A resolver with the default policy and one allowed host, on which any URL answers with a
  manifest nobody trusts, and a request that proposes a local-looking manifest for it.
\<close>

definition url_manifest :: json where
  "url_manifest = jset ''origin'' (JObj [(''source'', JStr ''url''), (''digest'', JStr (replicate 64 (CHR ''0'')))]) demo_manifest"

definition stranger_manifest :: json where
  "stranger_manifest = jset ''trust_level'' (JStr ''untrusted'') url_manifest"

definition sample_egress :: egress_config where
  "sample_egress = \<lparr>allowlist = [''catalog.example''], denylist = [], allow_private_networks = False\<rparr>"

definition stranger_transport :: transport where
  "stranger_transport rq = Inr \<lparr>rs_status = 200, rs_raise = None, rs_json = Inr stranger_manifest\<rparr>"

definition sample_resolver :: resolver where
  "sample_resolver = \<lparr>r_store = sample_store, r_policy = policy_from_env (\<lambda>_. None),
     r_runtime = quiet_runtime [], r_egress = Some sample_egress, r_transport = stranger_transport,
     r_adapters = [http_list (\<lambda>_. replicate 64 (CHR ''0'')) reference_errors
        (egress_request sample_egress stranger_transport) ''http_catalog'' [''https://catalog.example/c'']],
     r_validator = reference_errors, r_sha = (\<lambda>_. replicate 64 (CHR ''0'')),
     r_clock = \<lparr>iso_parse = (\<lambda>_. None), now_us = 0\<rparr>, r_env = (\<lambda>_. None), r_resolve_path = (\<lambda>_. [])\<rparr>"

definition sample_request :: json where
  "sample_request = JObj [(''manifest'', url_manifest), (''manifest_url'', JStr ''https://catalog.example/m'')]"

lemmas sample_defs = sample_resolver_def sample_request_def jget_def get_or_def

lemma sample_manifests:
  "schema_conforms url_manifest" "schema_conforms stranger_manifest" "json_ok url_manifest" "json_ok stranger_manifest"
  "install_allowed (policy_from_env (\<lambda>_. None)) url_manifest"
  "enforce_install (policy_from_env (\<lambda>_. None)) stranger_manifest
     = Inl (CapabilityPolicyError ''trust_level not allowed by policy: untrusted'')"
  by code_simp+

lemma sample_network:
  "egress_allowed sample_egress ''https://catalog.example/m''"
  "urlparse ''https://catalog.example/m'' = Inr \<lparr>scheme = ''https'', netloc = ''catalog.example''\<rparr>"
  by code_simp+

lemma sample_replies: "replies_ok stranger_transport"
  by (auto simp: replies_ok_def stranger_transport_def sample_manifests(4))

lemma sample_valid: "manifest_validator (r_validator sample_resolver)"
  using reference.manifest_validator_axioms by (simp add: sample_resolver_def)

lemma sample_docs: "json_ok sample_request" "docs_ok (w_fs sample_world)"
proof -
  show "json_ok sample_request" by (simp add: sample_request_def sample_manifests(3))
  show "docs_ok (w_fs sample_world)" by code_simp
qed

lemma install_stores_what_was_checked_witness:
  "case resolver_install sample_resolver ''x'' sample_request sample_world of (r, w') \<Rightarrow>
     steps_ok (install_state sample_resolver sample_request (w_fs sample_world)) sample_world w'
     \<and> (case r of Inl e \<Rightarrow> install_state sample_resolver sample_request (w_fs sample_world) (w_fs w')
        | Inr out \<Rightarrow> install_done sample_resolver sample_request (w_fs sample_world) out (w_fs w'))"
  by (rule install_stores_what_was_checked)
     (use sample_valid sample_replies sample_docs in \<open>simp_all add: sample_resolver_def\<close>)

lemma remove_refines_witness:
  "dget (dupdate [(''demo.echo'', demo_manifest)] (remove_spec ''demo.echo'' [(''demo.echo'', demo_manifest)]
      (remove_spec ''demo.echo'' [(''demo.echo'', demo_manifest)] []))) ''demo.echo'' = Some demo_manifest"
  by (rule remove_refines [where R = sample_resolver and w = sample_world and l = "[]" and token = "''x''" and version = "''1''",
        THEN conjunct2, THEN conjunct2])
     (use sample_valid sample_docs sample_docs_ok(3) in
       \<open>simp_all add: sample_resolver_def demo_manifest_def jget_def get_or_def str_or_empty_def\<close>)

lemma resolve_ignores_relevance_witness:
  "\<exists>k m w1. resolver_resolve (sample_resolver\<lparr>r_adapters := []\<rparr>)
       (JObj [(''intent'', JStr ''order a pizza''), (''constraints'', JObj [])]) sample_world
       = (Inr (catalog_candidate (r_sha sample_resolver) ''order a pizza'' m), w1)
     \<and> (k, m) \<in> set [(''demo.echo'', demo_manifest)]"
proof -
  have views: "base_view reference_errors sample_store (w_fs sample_world) = Inr [(''demo.echo'', demo_manifest)]"
    "local_view reference_errors sample_store (w_fs sample_world) = Inr []"
    "lock_open (w_fs sample_world) (lock_path sample_store)" "w_faults sample_world = []"
    "\<not> is_prefix (base_catalog sample_store) (lock_path sample_store)"
    "list_all (\<lambda>(k, m). \<not> str_contains (str_lower ''order a pizza'') (str_lower (str_or_empty (jget m ''id'')))
           \<and> \<not> str_contains (str_lower ''order a pizza'') (str_lower (str_or_empty (jget m ''description''))))
         (dupdate [(''demo.echo'', demo_manifest)] [])"
    by code_simp+
  have "dupdate [(''demo.echo'', demo_manifest)] [] = [(''demo.echo'', demo_manifest)]" by simp
  then show ?thesis
    using resolve_ignores_relevance [of sample_world "sample_resolver\<lparr>r_adapters := []\<rparr>" "[(''demo.echo'', demo_manifest)]" "[]"
        "CHR ''o''" "''rder a pizza''"] views sample_docs_ok(3)
    by (simp add: sample_resolver_def store_lock_def)
qed

lemma default_run_fails_closed_witness:
  "\<exists>e w1. resolver_run sample_resolver ''demo.echo'' (JObj []) sample_world = (Inl e, w1)
    \<and> lock_made (store_lock sample_resolver) (w_fs sample_world) (w_fs w1) \<and> w_sent w1 = w_sent sample_world \<and> w_nonces w1 = w_nonces sample_world"
proof (rule default_run_fails_closed [OF sample_valid])
  have "getenv (r_env sample_resolver) ''UNISON_CAPABILITY_ALLOW_LEGACY'' ''false'' = ''false''"
    by (simp add: sample_resolver_def getenv_def)
  moreover have "str_lower ''false'' \<noteq> ''true''" by code_simp
  ultimately show "str_lower (getenv (r_env sample_resolver) ''UNISON_CAPABILITY_ALLOW_LEGACY'' ''false'') \<noteq> ''true''"
    by simp
qed

lemma resolver_network_confined_witness:
  "sends_only (egress_allowed sample_egress) (resolver_search sample_resolver ''echo'' (JObj []))
   \<and> sends_only (egress_allowed sample_egress) (resolver_install sample_resolver ''x'' sample_request)"
  using resolver_network_confined [of sample_resolver sample_egress] http_catalog.sends
  by (simp add: sample_resolver_def callables_send_def quiet_runtime_def)

lemma fetched_manifest_escapes_policy_witness:
  "fst (manifest_to_install sample_resolver sample_request sample_world) = Inr stranger_manifest
   \<and> enforce_install (r_policy sample_resolver) stranger_manifest
       = Inl (CapabilityPolicyError ''trust_level not allowed by policy: untrusted'')"
proof
  have u: "''https://catalog.example/m'' = CHR ''h'' # ''ttps://catalog.example/m''" by simp
  have pin: "pinned sample_resolver url_manifest stranger_manifest"
    by (simp add: pinned_def sample_resolver_def) code_simp
  show refused: "enforce_install (r_policy sample_resolver) stranger_manifest
       = Inl (CapabilityPolicyError ''trust_level not allowed by policy: untrusted'')"
    using sample_manifests(6) by (simp add: sample_resolver_def)
  show "fst (manifest_to_install sample_resolver sample_request sample_world) = Inr stranger_manifest"
    using sample_manifests sample_network pin refused conforms_dict
    by (intro fetched_manifest_escapes_policy [where c = "CHR ''h''" and u = "''ttps://catalog.example/m''"
          and p = "\<lparr>scheme = ''https'', netloc = ''catalog.example''\<rparr>" and cfg = sample_egress
          and og = "[(''source'', JStr ''url''), (''digest'', JStr (replicate 64 (CHR ''0'')))]"])
       (simp_all add: sample_defs stranger_transport_def reference_errors_def url_manifest_def)
qed

end
