(* ===== verification/Secrets.thy ===== *)
theory Secrets
  imports File_Lock "HOL-Library.Countable"
begin

text \<open>
  src/credential_secrets.py: the interface of a secrets backend and its file
  implementation. Fernet of the package cryptography is two parameters: \<open>enc\<close> from a plain
  text to a token and \<open>dec\<close> back, None for InvalidToken. As for files, a plain text that
  is a JSON document is represented by the document.
\<close>

section \<open>The interface\<close>

definition valid_handle :: "string \<Rightarrow> bool" where
  "valid_handle h = starts_with ''secret://'' h"

definition ensure_handle :: "string \<Rightarrow> unit res" where
  "ensure_handle h = (if valid_handle h then Inr () else policy_error ''invalid secret handle'')"

text \<open>
  What clients rely on: in a world where the backend can be used, \<open>contents\<close> maps handles
  to values (up to the order of keys), and the three operations act on that map.
\<close>

locale secrets_backend =
  fixes put :: "string \<Rightarrow> json \<Rightarrow> unit io"
    and get :: "string \<Rightarrow> json io"
    and delete :: "string \<Rightarrow> bool io"
    and contents :: "world \<Rightarrow> (string \<Rightarrow> json option) option"
  assumes put_stores: "contents w = Some c \<Longrightarrow> valid_handle h \<Longrightarrow> is_dict x \<Longrightarrow>
      \<exists>w'. put h x w = (Inr (), w') \<and> contents w' = Some (\<lambda>k. map_option sort_json ((c(h \<mapsto> x)) k))"
    and get_reads: "contents w = Some c \<Longrightarrow> valid_handle h \<Longrightarrow>
      \<exists>w'. get h w = (case c h of None \<Rightarrow> (Inl (CapabilityPolicyError ''secret handle not found''), w')
          | Some x \<Rightarrow> (Inr x, w')) \<and> contents w' = Some c"
    and delete_removes: "contents w = Some c \<Longrightarrow> valid_handle h \<Longrightarrow>
      \<exists>w'. delete h w = (Inr (c h \<noteq> None), w')
        \<and> contents w' = Some (if c h = None then c else (\<lambda>k. map_option sort_json ((c(h := None)) k)))"
begin

text \<open>A stored secret is read back, also when another one is stored in between.\<close>

lemma put_put_get:
  assumes "contents w = Some c" "valid_handle h" "valid_handle k" "h \<noteq> k" "is_dict x" "is_dict y"
  shows "\<exists>w1 w2 w3. put h x w = (Inr (), w1) \<and> put k y w1 = (Inr (), w2) \<and> get h w2 = (Inr (sort_json x), w3)"
proof -
  obtain w1 where 1: "put h x w = (Inr (), w1)" "contents w1 = Some (\<lambda>k. map_option sort_json ((c(h \<mapsto> x)) k))"
    using put_stores [OF assms(1,2,5)] by blast
  obtain w2 c2 where 2: "put k y w1 = (Inr (), w2)" "contents w2 = Some c2" "c2 h = Some (sort_json x)"
    using put_stores [OF 1(2) assms(3,6)] assms(4) by (auto simp: sort_json_idem)
  from get_reads [OF 2(2) assms(2)] 1 2 show ?thesis by auto
qed

text \<open>A deleted secret is gone.\<close>

lemma delete_get:
  assumes "contents w = Some c" "valid_handle h"
  shows "\<exists>w1 w2 b. delete h w = (Inr b, w1)
     \<and> get h w1 = (Inl (CapabilityPolicyError ''secret handle not found''), w2)"
proof -
  obtain w1 c1 where 1: "delete h w = (Inr (c h \<noteq> None), w1)" "contents w1 = Some c1" "c1 h = None"
    using delete_removes [OF assms] by (cases "c h") auto
  from get_reads [OF 1(2) assms(2)] 1 show ?thesis by auto
qed

end

section \<open>The file backend\<close>

text \<open>
  The key: from the environment, from a key file (\<open>key_file\<close> gives its stripped text when
  it exists), or generated when development mode asks for it.
\<close>

definition load_fernet_key :: "env \<Rightarrow> (string \<Rightarrow> string option) \<Rightarrow> string \<Rightarrow> string res" where
  "load_fernet_key env key_file generated =
     (case env_set env ''UNISON_CAPABILITY_SECRETS_KEY'' of
        Some k \<Rightarrow> Inr k
      | None \<Rightarrow>
         (case Option.bind (env_set env ''UNISON_CAPABILITY_SECRETS_KEY_FILE'') key_file of
            Some k \<Rightarrow> Inr k
          | None \<Rightarrow> if env_truthy (env ''UNISON_CAPABILITY_SECRETS_DEV_AUTOGEN'') then Inr generated
              else policy_error ''secrets backend not configured (missing UNISON_CAPABILITY_SECRETS_KEY)''))"

definition secrets_path :: "path \<Rightarrow> path" where
  "secrets_path base = base @ [''secrets.enc.json'']"

definition secrets_lock :: "path \<Rightarrow> path" where
  "secrets_lock base = base @ [''locks'', ''secrets.lock'']"

definition secrets_of_plain :: "json \<Rightarrow> json dict res" where
  "secrets_of_plain data =
     (if \<not> is_dict data then policy_error ''invalid secrets store plaintext''
      else Inr (dupdate [] (filter (\<lambda>(k, x). is_dict x) (entries data))))"

definition secrets_of_raw :: "(string \<Rightarrow> fdata option) \<Rightarrow> json \<Rightarrow> json dict res" where
  "secrets_of_raw dec raw =
     (if \<not> is_dict raw \<or> \<not> has_key raw ''data'' then policy_error ''invalid secrets store''
      else (case dec (str_or_empty (jget raw ''data'')) of
          None \<Rightarrow> policy_error ''unable to decrypt secrets store''
        | Some pt \<Rightarrow> rbind (parse_json pt) secrets_of_plain))"

definition secrets_read_all :: "(string \<Rightarrow> fdata option) \<Rightarrow> path \<Rightarrow> json dict io" where
  "secrets_read_all dec p =
     io_bind (exists_io p) (\<lambda>e.
     if \<not> e then io_return []
     else io_bind (read_json p) (\<lambda>raw. io_lift (secrets_of_raw dec raw)))"

definition secrets_doc :: "(fdata \<Rightarrow> string) \<Rightarrow> json dict \<Rightarrow> json" where
  "secrets_doc enc data = JObj [(''v'', JInt 1), (''data'', JStr (enc (Doc (sort_json (JObj data)))))]"

definition secrets_write_all :: "(fdata \<Rightarrow> string) \<Rightarrow> string \<Rightarrow> path \<Rightarrow> json dict \<Rightarrow> unit io" where
  "secrets_write_all enc token p data = atomic_write_json token p (secrets_doc enc data)"

text \<open>The three operations, on the store of the directory \<open>base\<close>, each under its lock.\<close>

definition secrets_put ::
    "(fdata \<Rightarrow> string) \<Rightarrow> (string \<Rightarrow> fdata option) \<Rightarrow> string \<Rightarrow> path \<Rightarrow> string \<Rightarrow> json \<Rightarrow> unit io" where
  "secrets_put enc dec token base handle value =
     io_bind (io_lift (ensure_handle handle)) (\<lambda>_.
     if \<not> is_dict value then io_raise (CapabilityPolicyError ''secret value must be an object'')
     else
       with_lock (secrets_lock base)
         (io_bind (secrets_read_all dec (secrets_path base)) (\<lambda>data.
          secrets_write_all enc token (secrets_path base) (dset handle value data))))"

definition secrets_get :: "(string \<Rightarrow> fdata option) \<Rightarrow> path \<Rightarrow> string \<Rightarrow> json io" where
  "secrets_get dec base handle =
     io_bind (io_lift (ensure_handle handle)) (\<lambda>_.
     with_lock (secrets_lock base)
       (io_bind (secrets_read_all dec (secrets_path base)) (\<lambda>data.
        case dget data handle of
          None \<Rightarrow> io_raise (CapabilityPolicyError ''secret handle not found'')
        | Some x \<Rightarrow> io_return x)))"

definition secrets_delete ::
    "(fdata \<Rightarrow> string) \<Rightarrow> (string \<Rightarrow> fdata option) \<Rightarrow> string \<Rightarrow> path \<Rightarrow> string \<Rightarrow> bool io" where
  "secrets_delete enc dec token base handle =
     io_bind (io_lift (ensure_handle handle)) (\<lambda>_.
     with_lock (secrets_lock base)
       (io_bind (secrets_read_all dec (secrets_path base)) (\<lambda>data.
        if dget data handle = None then io_return False
        else io_bind (secrets_write_all enc token (secrets_path base) (dpop handle data)) (\<lambda>_. io_return True))))"

section \<open>What the file holds\<close>

definition secrets_at :: "(string \<Rightarrow> fdata option) \<Rightarrow> path \<Rightarrow> fs \<Rightarrow> json dict res" where
  "secrets_at dec p s =
     (case fs_get s p of
        None \<Rightarrow> Inr []
      | Some DirN \<Rightarrow> Inl (os_error 21)
      | Some (FileN d) \<Rightarrow> rbind (parse_json d) (secrets_of_raw dec))"

definition secrets_good :: "json dict \<Rightarrow> bool" where
  "secrets_good d \<longleftrightarrow> dict_ok d \<and> (\<forall>(k, x) \<in> set d. is_dict x)"

lemma secrets_good_simps:
  "secrets_good []" "secrets_good d \<Longrightarrow> is_dict x \<Longrightarrow> secrets_good (dset h x d)"
  "secrets_good d \<Longrightarrow> secrets_good (dpop h d)"
  using set_dset_subset [of h x d] set_dpop_subset [of h d] by (auto simp: secrets_good_def)

text \<open>Reading back what was written gives the same map, with the keys of every dict sorted.\<close>

lemma dupdate_Nil_distinct: "dict_ok d \<Longrightarrow> dget (dupdate [] d) = dget d"
  by (auto simp: dget_dupdate fun_eq_iff split: option.splits)

lemma secrets_of_written:
  assumes "secrets_good d" and "dec (enc (Doc (sort_json (JObj d)))) = Some (Doc (sort_json (JObj d)))"
  obtains d' where "secrets_of_raw dec (sort_json (secrets_doc enc d)) = Inr d'"
    and "\<And>k. dget d' k = map_option sort_json (dget d k)"
proof
  let ?e = "sort_key fst (map (map_prod id sort_json) d)"
  have ok: "distinct (map fst d)" using assms(1) by (simp add: secrets_good_def dict_ok_def)
  have keep: "filter (\<lambda>(k, x). is_dict x) ?e = ?e"
    using assms(1) by (auto simp: filter_id_conv secrets_good_def)
  have doc: "sort_json (secrets_doc enc d)
      = JObj [(''data'', JStr (enc (Doc (sort_json (JObj d))))), (''v'', JInt 1)]"
    by (simp add: secrets_doc_def)
  show "secrets_of_raw dec (sort_json (secrets_doc enc d)) = Inr (dupdate [] ?e)"
    using assms(2) keep unfolding doc
    by (simp add: secrets_of_raw_def has_key_def jget_def get_or_def parse_json_def secrets_of_plain_def)
  have "dict_ok ?e" using ok by (simp add: dict_ok_def del: map_map)
  then show "dget (dupdate [] ?e) k = map_option sort_json (dget d k)" for k
    by (simp add: dupdate_Nil_distinct dget_sorted [OF ok])
qed

lemma secrets_of_raw_good: "secrets_of_raw dec raw = Inr d \<Longrightarrow> secrets_good d"
proof -
  have sub: "set (dupdate d e) \<subseteq> set d \<union> set e" for d e :: "json dict"
  proof (induction e arbitrary: d)
    case (Cons p e)
    obtain k x where "p = (k, x)" by (cases p)
    with Cons [of "dset k x d"] set_dset_subset [of k x d] show ?case by auto
  qed simp
  have "secrets_good (dupdate [] (filter (\<lambda>(k, x). is_dict x) e))" for e :: "json dict"
    using sub [of "[]" "filter (\<lambda>(k, x). is_dict x) e"] by (auto simp: secrets_good_def)
  then show "secrets_of_raw dec raw = Inr d \<Longrightarrow> secrets_good d"
    by (auto simp: secrets_of_raw_def secrets_of_plain_def result_simps split: if_splits option.splits)
qed

lemma secrets_at_good: "secrets_at dec p s = Inr d \<Longrightarrow> secrets_good d"
  by (auto simp: secrets_at_def result_simps secrets_good_simps dest: secrets_of_raw_good
      split: option.splits node.splits)

lemma secrets_read_returns:
  assumes "w_faults w = []" and "p \<noteq> []" and "secrets_at dec p (w_fs w) = Inr d"
  shows "\<exists>w'. secrets_read_all dec p w = (Inr d, w') \<and> w_fs w' = w_fs w \<and> w_faults w' = []"
  using assms
  by (auto simp: secrets_read_all_def exists_io_def read_json_def read_file_def prim_def io_defs path_exists_def
      secrets_at_def parse_json_def split: option.splits node.splits fdata.splits sum.splits)

section \<open>The backend meets the interface\<close>

definition secrets_ready :: "string \<Rightarrow> path \<Rightarrow> world \<Rightarrow> bool" where
  "secrets_ready token base w \<longleftrightarrow> w_faults w = [] \<and> dir_ready (w_fs w) base \<and> lock_open (w_fs w) (secrets_lock base)
     \<and> fs_get (w_fs w) (tmp_for (secrets_path base) token) = None"

definition secrets_contents ::
    "(string \<Rightarrow> fdata option) \<Rightarrow> string \<Rightarrow> path \<Rightarrow> world \<Rightarrow> (string \<Rightarrow> json option) option" where
  "secrets_contents dec token base w =
     (if secrets_ready token base w then
        (case secrets_at dec (secrets_path base) (w_fs w) of Inl e \<Rightarrow> None | Inr d \<Rightarrow> Some (dget d))
      else None)"

lemma secrets_contents_Some:
  "secrets_contents dec token base w = Some c \<longleftrightarrow>
     secrets_ready token base w \<and> (\<exists>d. secrets_at dec (secrets_path base) (w_fs w) = Inr d \<and> c = dget d)"
  by (auto simp: secrets_contents_def split: sum.splits)

lemma secrets_path_not_Nil [simp]: "secrets_path base \<noteq> []" "secrets_lock base \<noteq> []"
  by (simp_all add: secrets_path_def secrets_lock_def)

lemma parent_secrets [simp]: "parent (secrets_path base) = base"
  by (simp add: parent_def secrets_path_def)

text \<open>Neither the secrets file nor its temporary file is on the way to the lock.\<close>

lemma secrets_off_lock:
  "\<not> is_prefix (secrets_path base) (secrets_lock base)" "\<not> is_prefix (tmp_for (secrets_path base) token) (secrets_lock base)"
  "secrets_path base \<notin> set (prefixes_of (parent (secrets_lock base)))" "secrets_path base \<noteq> secrets_lock base"
proof -
  show no: "\<not> is_prefix (secrets_path base) (secrets_lock base)"
    by (auto simp: secrets_path_def secrets_lock_def is_prefix_iff)
  show "\<not> is_prefix (tmp_for (secrets_path base) token) (secrets_lock base)"
    by (auto simp: secrets_path_def secrets_lock_def tmp_for_def parent_def is_prefix_iff)
  show "secrets_path base \<notin> set (prefixes_of (parent (secrets_lock base)))" using no prefixes_parent_prefix by blast
  show "secrets_path base \<noteq> secrets_lock base" using no is_prefix_refl by metis
qed

lemma secrets_lock_granted:
  assumes "secrets_ready token base w" and "secrets_at dec (secrets_path base) (w_fs w) = Inr d"
  shows "\<exists>w1. take_lock (secrets_lock base) w = (Inr (), w1) \<and> secrets_ready token base w1
     \<and> secrets_at dec (secrets_path base) (w_fs w1) = Inr d"
proof -
  obtain w1 where w1: "take_lock (secrets_lock base) w = (Inr (), w1)" "w_faults w1 = []"
    and made: "lock_made (secrets_lock base) (w_fs w) (w_fs w1)"
    using take_lock_granted assms(1) unfolding secrets_ready_def by blast
  have "dir_ready (w_fs w1) base"
    using assms(1) lock_made_keeps [OF made] by (auto simp: secrets_ready_def dir_ready_def list_all_iff)
  then have "secrets_ready token base w1"
    using assms(1) w1(2) lock_open_after [OF _ made] lock_made_same [OF made secrets_off_lock(2)] by (simp add: secrets_ready_def)
  moreover have "secrets_at dec (secrets_path base) (w_fs w1) = Inr d"
    using assms(2) lock_made_same [OF made secrets_off_lock(1)] by (simp add: secrets_at_def)
  ultimately show ?thesis using w1(1) by blast
qed

lemma secrets_read_ready:
  assumes "secrets_ready token base w" and "secrets_at dec (secrets_path base) (w_fs w) = Inr d"
  shows "\<exists>w'. secrets_read_all dec (secrets_path base) w = (Inr d, w') \<and> secrets_ready token base w'
     \<and> secrets_at dec (secrets_path base) (w_fs w') = Inr d"
  using secrets_read_returns [OF _ secrets_path_not_Nil(1) assms(2)] assms by (auto simp: secrets_ready_def)

lemma secrets_write_returns:
  assumes "secrets_ready token base w" and "secrets_at dec (secrets_path base) (w_fs w) = Inr old"
    and "secrets_good d" and "dec (enc (Doc (sort_json (JObj d)))) = Some (Doc (sort_json (JObj d)))"
  shows "\<exists>w'. secrets_write_all enc token (secrets_path base) d w = (Inr (), w')
     \<and> secrets_contents dec token base w' = Some (\<lambda>k. map_option sort_json (dget d k))"
proof -
  let ?p = "secrets_path base"
  have "fs_get (w_fs w) ?p \<noteq> Some DirN" using assms(2) by (auto simp: secrets_at_def)
  with assms(1) obtain w' where run: "secrets_write_all enc token ?p d w = (Inr (), w')" and f: "w_faults w' = []"
    and s: "\<And>q. fs_get (w_fs w') q
        = (if q = ?p then Some (FileN (Doc (sort_json (secrets_doc enc d)))) else fs_get (w_fs w) q)"
    using atomic_write_text_returns [of w ?p token "Doc (sort_json (secrets_doc enc d))"]
    by (auto simp: secrets_ready_def secrets_write_all_def atomic_write_json_def)
  have "dir_ready (w_fs w') base"
    using assms(1) not_in_prefixes_parent [OF secrets_path_not_Nil(1), of base]
    by (auto simp: secrets_ready_def dir_ready_def list_all_iff s)
  moreover have "lock_open (w_fs w') (secrets_lock base)"
    using assms(1) secrets_off_lock(3) [of base] secrets_off_lock(4) [of base]
    unfolding secrets_ready_def lock_open_def list_all_iff s by metis
  ultimately have ready: "secrets_ready token base w'"
    using assms(1) f tmp_for_neq [OF secrets_path_not_Nil(1), of base token] by (simp add: secrets_ready_def s)
  obtain d' where "secrets_of_raw dec (sort_json (secrets_doc enc d)) = Inr d'"
    and d': "\<And>k. dget d' k = map_option sort_json (dget d k)"
    using secrets_of_written [where dec = dec and enc = enc, OF assms(3,4)] by blast
  then have "secrets_at dec ?p (w_fs w') = Inr d'" by (simp add: secrets_at_def s parse_json_def)
  with ready run d' show ?thesis by (auto simp: secrets_contents_Some fun_eq_iff)
qed

text \<open>Fernet: decrypting what was encrypted under the same key gives the plain text.\<close>

locale fernet =
  fixes enc :: "fdata \<Rightarrow> string" and dec :: "string \<Rightarrow> fdata option"
  assumes dec_enc: "dec (enc pt) = Some pt"

lemma secrets_held:
  assumes "secrets_contents dec token base w = Some c"
  obtains w1 w2 d where "take_lock (secrets_lock base) w = (Inr (), w1)" "secrets_read_all dec (secrets_path base) w1 = (Inr d, w2)"
    "secrets_ready token base w2" "secrets_at dec (secrets_path base) (w_fs w2) = Inr d" "c = dget d" "secrets_good d"
    "secrets_contents dec token base w2 = Some c"
proof -
  from assms obtain d where r: "secrets_ready token base w" "secrets_at dec (secrets_path base) (w_fs w) = Inr d" "c = dget d"
    by (auto simp: secrets_contents_Some)
  from secrets_lock_granted [OF r(1,2)] obtain w1 where 1: "take_lock (secrets_lock base) w = (Inr (), w1)"
    "secrets_ready token base w1" "secrets_at dec (secrets_path base) (w_fs w1) = Inr d" by blast
  from secrets_read_ready [OF 1(2,3)] obtain w2 where "secrets_read_all dec (secrets_path base) w1 = (Inr d, w2)"
    "secrets_ready token base w2" "secrets_at dec (secrets_path base) (w_fs w2) = Inr d" by blast
  with 1 r(3) secrets_at_good show thesis by (auto intro!: that [of w1 d w2] simp: secrets_contents_Some)
qed

sublocale fernet \<subseteq> store: secrets_backend
  "secrets_put enc dec token base" "secrets_get dec base" "secrets_delete enc dec token base" "secrets_contents dec token base"
  for token base
proof (unfold_locales, goal_cases)
  case (1 w c h x)
  then obtain w1 w2 d where held: "take_lock (secrets_lock base) w = (Inr (), w1)"
    "secrets_read_all dec (secrets_path base) w1 = (Inr d, w2)"
    and r: "secrets_ready token base w2" "secrets_at dec (secrets_path base) (w_fs w2) = Inr d" "c = dget d" "secrets_good d"
    by (blast elim: secrets_held)
  have "secrets_good (dset h x d)" using r(4) \<open>is_dict x\<close> by (simp add: secrets_good_simps)
  from secrets_write_returns [where dec = dec and enc = enc and d = "dset h x d", OF r(1,2) this dec_enc]
  obtain w3 where "secrets_write_all enc token (secrets_path base) (dset h x d) w2 = (Inr (), w3)"
    "secrets_contents dec token base w3 = Some (\<lambda>k. map_option sort_json (dget (dset h x d) k))" by auto
  with held r(3) \<open>valid_handle h\<close> \<open>is_dict x\<close> show ?case
    by (auto simp: secrets_put_def with_lock_def ensure_handle_def io_bind_def io_return_def fun_eq_iff)
next
  case (2 w c h)
  then obtain w1 w2 d where "take_lock (secrets_lock base) w = (Inr (), w1)"
    "secrets_read_all dec (secrets_path base) w1 = (Inr d, w2)" "c = dget d" "secrets_contents dec token base w2 = Some c"
    by (blast elim: secrets_held)
  with \<open>valid_handle h\<close> show ?case
    by (auto simp: secrets_get_def with_lock_def ensure_handle_def io_bind_def io_return_def io_raise_def split: option.splits)
next
  case (3 w c h)
  then obtain w1 w2 d where held: "take_lock (secrets_lock base) w = (Inr (), w1)"
    "secrets_read_all dec (secrets_path base) w1 = (Inr d, w2)"
    and r: "secrets_ready token base w2" "secrets_at dec (secrets_path base) (w_fs w2) = Inr d" "c = dget d" "secrets_good d"
      "secrets_contents dec token base w2 = Some c"
    by (blast elim: secrets_held)
  show ?case
  proof (cases "dget d h = None")
    case True
    with held r \<open>valid_handle h\<close> show ?thesis
      by (auto simp: secrets_delete_def with_lock_def ensure_handle_def io_bind_def io_return_def)
  next
    case False
    have "secrets_good (dpop h d)" using r(4) by (simp add: secrets_good_simps)
    from secrets_write_returns [where dec = dec and enc = enc and d = "dpop h d", OF r(1,2) this dec_enc]
    obtain w3 where "secrets_write_all enc token (secrets_path base) (dpop h d) w2 = (Inr (), w3)"
      "secrets_contents dec token base w3 = Some (\<lambda>k. map_option sort_json (dget (dpop h d) k))" by auto
    with False held r(3) \<open>valid_handle h\<close> show ?thesis
      by (auto simp: secrets_delete_def with_lock_def ensure_handle_def io_bind_def io_return_def fun_eq_iff)
  qed
qed

context fernet
begin

lemmas file_put_put_get = store.put_put_get
lemmas file_delete_get = store.delete_get

end

text \<open>An instance: tokens that number the plain texts.\<close>

instance flt :: countable by countable_datatype

instance json :: countable by countable_datatype

instance fdata :: countable by countable_datatype

definition number_enc :: "fdata \<Rightarrow> string" where
  "number_enc pt = nat_digits (to_nat pt)"

definition number_dec :: "string \<Rightarrow> fdata option" where
  "number_dec t = Some (from_nat (digits_val t))"

interpretation number: fernet number_enc number_dec
  by unfold_locales (simp add: number_enc_def number_dec_def)


section \<open>Storing a secret, step by step\<close>

lemma triple_secrets_read:
  assumes "I s0" and "p \<noteq> []"
  shows "triple I (\<lambda>u. w_fs u = s0) (secrets_read_all dec p)
      (\<lambda>d u. w_fs u = s0 \<and> secrets_at dec p s0 = Inr d) (\<lambda>_ u. w_fs u = s0)"
  unfolding secrets_read_all_def
proof (rule triple_bind)
  show "triple I (\<lambda>u. w_fs u = s0) (exists_io p) (\<lambda>e u. w_fs u = s0 \<and> e = path_exists s0 p) (\<lambda>_ u. w_fs u = s0)"
    unfolding exists_io_def by (rule triple_get) simp
next
  fix e
  have body: "triple I (\<lambda>u. w_fs u = s0) (io_bind (read_json p) (\<lambda>raw. io_lift (secrets_of_raw dec raw)))
      (\<lambda>d u. w_fs u = s0 \<and> secrets_at dec p s0 = Inr d) (\<lambda>_ u. w_fs u = s0)"
    by (rule triple_bind [OF triple_read_json [of I s0, OF assms(1)]], rule triple_lift)
       (auto simp: secrets_at_def parse_json_def)
  show "triple I (\<lambda>u. w_fs u = s0 \<and> e = path_exists s0 p)
      (if \<not> e then io_return [] else io_bind (read_json p) (\<lambda>raw. io_lift (secrets_of_raw dec raw)))
      (\<lambda>d u. w_fs u = s0 \<and> secrets_at dec p s0 = Inr d) (\<lambda>_ u. w_fs u = s0)"
  proof (cases e)
    case True
    then show ?thesis by (simp, intro triple_weaken [OF body]) auto
  next
    case False
    then show ?thesis using assms(2) by (auto intro!: triple_return simp: path_exists_def secrets_at_def)
  qed
qed

text \<open>What is on disk after storing: the version and a token, nothing else.\<close>

definition sealed :: "(fdata \<Rightarrow> string) \<Rightarrow> json dict \<Rightarrow> node" where
  "sealed enc data = FileN (Doc (JObj [(''data'', JStr (enc (Doc (sort_json (JObj data))))), (''v'', JInt 1)]))"

lemma sealed_doc: "FileN (Doc (sort_json (secrets_doc enc data))) = sealed enc data"
  by (simp add: secrets_doc_def sealed_def)

definition old_or_sealed ::
    "(fdata \<Rightarrow> string) \<Rightarrow> (string \<Rightarrow> fdata option) \<Rightarrow> path \<Rightarrow> string \<Rightarrow> json \<Rightarrow> fs \<Rightarrow> fs \<Rightarrow> bool" where
  "old_or_sealed enc dec p h x s0 s \<longleftrightarrow> fs_get s p = fs_get s0 p
     \<or> (case secrets_at dec p s0 of Inl e \<Rightarrow> False | Inr data \<Rightarrow> fs_get s p = Some (sealed enc (dset h x data)))"

lemma triple_secrets_write:
  assumes "p \<noteq> []" and "secrets_at dec p s0 = Inr d"
  shows "triple (old_or_sealed enc dec p h x s0) (\<lambda>u. w_fs u = s0) (secrets_write_all enc token p (dset h x d))
      (\<lambda>_ u. fs_get (w_fs u) p = Some (sealed enc (dset h x d))) (\<lambda>_ u. old_or_sealed enc dec p h x s0 (w_fs u))"
proof -
  let ?doc = "Doc (sort_json (secrets_doc enc (dset h x d)))"
  have inv: "old_or_sealed enc dec p h x s0 s" if "old_or_new p (fs_get s0 p) ?doc s" for s
    using that assms(2) by (auto simp: old_or_new_def old_or_sealed_def sealed_doc)
  have "triple (old_or_sealed enc dec p h x s0) (\<lambda>u. w_fs u = s0) (atomic_write_text token p ?doc)
      (\<lambda>_ u. aw_stage p (tmp_for p token) ?doc s0 2 (w_fs u)) (\<lambda>_ u. aw_stage p (tmp_for p token) ?doc s0 3 (w_fs u))"
    using atomic_write_text_triple [OF assms(1), of s0 ?doc token] inv
    unfolding triple_def steps_ok_def by blast
  then show ?thesis
    unfolding secrets_write_all_def atomic_write_json_def
    by (rule triple_weaken) (auto simp: aw_stage_def sealed_doc intro: inv)
qed

lemma old_or_sealed_after_lock:
  assumes "lock_made (secrets_lock base) s0 s"
  shows "fs_get s (secrets_path base) = fs_get s0 (secrets_path base)"
    and "secrets_at dec (secrets_path base) s = secrets_at dec (secrets_path base) s0"
    and "old_or_sealed enc dec (secrets_path base) h x s = old_or_sealed enc dec (secrets_path base) h x s0"
proof -
  show same: "fs_get s (secrets_path base) = fs_get s0 (secrets_path base)"
    by (rule lock_made_same [OF assms secrets_off_lock(1)])
  then show "secrets_at dec (secrets_path base) s = secrets_at dec (secrets_path base) s0" by (simp add: secrets_at_def)
  with same show "old_or_sealed enc dec (secrets_path base) h x s = old_or_sealed enc dec (secrets_path base) h x s0"
    by (simp add: fun_eq_iff old_or_sealed_def)
qed

lemma triple_secrets_put:
  "triple (old_or_sealed enc dec (secrets_path base) h x s0) (\<lambda>u. w_fs u = s0) (secrets_put enc dec token base h x)
      (\<lambda>_ u. valid_handle h \<and> is_dict x \<and> (\<exists>d. secrets_at dec (secrets_path base) s0 = Inr d
          \<and> fs_get (w_fs u) (secrets_path base) = Some (sealed enc (dset h x d))))
      (\<lambda>_ u. old_or_sealed enc dec (secrets_path base) h x s0 (w_fs u))"
proof (cases "valid_handle h \<and> is_dict x")
  case True
  let ?p = "secrets_path base"
  let ?I = "old_or_sealed enc dec ?p h x s0"
  let ?Q = "\<lambda>_ u. valid_handle h \<and> is_dict x \<and> (\<exists>d. secrets_at dec ?p s0 = Inr d \<and> fs_get (w_fs u) ?p = Some (sealed enc (dset h x d)))"
  have same: "?I s" if "lock_made (secrets_lock base) s0 s" for s
    using old_or_sealed_after_lock(1) [OF that] by (simp add: old_or_sealed_def)
  have lock: "triple ?I (\<lambda>u. w_fs u = s0) (take_lock (secrets_lock base)) (\<lambda>_ u. lock_made (secrets_lock base) s0 (w_fs u))
      (\<lambda>_ u. ?I (w_fs u))"
    by (rule triple_inv [OF triple_weaken [OF triple_take_lock]]) (auto intro: same)
  have body: "triple ?I (\<lambda>u. lock_made (secrets_lock base) s0 (w_fs u))
      (io_bind (secrets_read_all dec ?p) (\<lambda>d. secrets_write_all enc token ?p (dset h x d))) ?Q (\<lambda>_ u. ?I (w_fs u))"
  proof (rule triple_pointwise)
    fix s assume s: "lock_made (secrets_lock base) s0 s"
    note views = old_or_sealed_after_lock(2,3) [OF s]
    have rd: "triple ?I (\<lambda>u. w_fs u = s) (secrets_read_all dec ?p)
        (\<lambda>d u. w_fs u = s \<and> secrets_at dec ?p s = Inr d) (\<lambda>_ u. ?I (w_fs u))"
      by (rule triple_weaken [OF triple_secrets_read [of ?I s, OF same [OF s] secrets_path_not_Nil(1)]]) (use same [OF s] in auto)
    have wr: "triple ?I (\<lambda>u. w_fs u = s \<and> secrets_at dec ?p s = Inr d) (secrets_write_all enc token ?p (dset h x d)) ?Q (\<lambda>_ u. ?I (w_fs u))"
      for d
    proof (cases "secrets_at dec ?p s = Inr d")
      case at: True
      from triple_secrets_write [OF secrets_path_not_Nil(1) at, of enc h x token] True at views show ?thesis
        unfolding views by (elim triple_weaken) auto
    qed (rule triple_vacuous, simp)
    show "triple ?I (\<lambda>u. w_fs u = s)
        (io_bind (secrets_read_all dec ?p) (\<lambda>d. secrets_write_all enc token ?p (dset h x d))) ?Q (\<lambda>_ u. ?I (w_fs u))"
      by (rule triple_bind [OF rd wr])
  qed
  from True have "secrets_put enc dec token base h x = io_bind (take_lock (secrets_lock base))
      (\<lambda>_. io_bind (secrets_read_all dec ?p) (\<lambda>d. secrets_write_all enc token ?p (dset h x d)))"
    by (simp add: secrets_put_def with_lock_def ensure_handle_def)
  with triple_bind [OF lock body] show ?thesis by simp
next
  case False
  then have "\<exists>e. secrets_put enc dec token base h x = io_raise e"
    by (auto simp: secrets_put_def ensure_handle_def policy_error_def)
  then show ?thesis by (auto intro!: triple_raise simp: old_or_sealed_def)
qed

section \<open>Properties\<close>

text \<open>A world with an empty store.\<close>

definition secrets_world :: world where
  "secrets_world = \<lparr>w_fs = [([''v''], DirN)], w_faults = [], w_hist = [], w_sent = [], w_nonces = [], w_log = []\<rparr>"

text \<open>
  C32: a secret that was stored is read back (up to the order of keys), also after another
  one was stored, in every world where the store can be read and written.
\<close>

theorem secret_roundtrip:
  assumes "fernet enc dec" and "secrets_contents dec token base w = Some c"
    and "valid_handle h" "valid_handle k" "h \<noteq> k" "is_dict x" "is_dict y"
  shows "\<exists>w1 w2 w3. secrets_put enc dec token base h x w = (Inr (), w1)
     \<and> secrets_put enc dec token base k y w1 = (Inr (), w2)
     \<and> secrets_get dec base h w2 = (Inr (sort_json x), w3)"
  by (rule fernet.file_put_put_get [OF assms])

lemma secret_roundtrip_witness:
  "\<exists>w1 w2 w3. secrets_put number_enc number_dec ''x'' [''v''] ''secret://a'' (JObj []) secrets_world = (Inr (), w1)
     \<and> secrets_put number_enc number_dec ''x'' [''v''] ''secret://b'' (JObj []) w1 = (Inr (), w2)
     \<and> secrets_get number_dec [''v''] ''secret://a'' w2 = (Inr (sort_json (JObj [])), w3)"
proof (rule secret_roundtrip [OF number.fernet_axioms])
  show "secrets_contents number_dec ''x'' [''v''] secrets_world = Some (\<lambda>k. None)"
    by (simp add: secrets_contents_def secrets_ready_def secrets_world_def dir_ready_def lock_open_def prefixes_of_def
        secrets_path_def secrets_lock_def parent_def tmp_for_def fs_get_def secrets_at_def fun_eq_iff)
qed (simp_all add: valid_handle_def)

text \<open>
  Storing a secret writes only ciphertext: at every intermediate file system the
  secrets file is as before or holds exactly the version and the encryption of the old
  secrets with the new one added, under every schedule of file errors and any crash; and the
  new content is there when the call returns.
\<close>

theorem secret_put_ciphertext_only:
  "case secrets_put enc dec token base h x w of (r, w') \<Rightarrow>
     steps_ok (old_or_sealed enc dec (secrets_path base) h x (w_fs w)) w w'
     \<and> (if is_ok r then
          (case secrets_at dec (secrets_path base) (w_fs w) of Inl e \<Rightarrow> False
           | Inr data \<Rightarrow> valid_handle h \<and> is_dict x
               \<and> fs_get (w_fs w') (secrets_path base) = Some (sealed enc (dset h x data)))
        else old_or_sealed enc dec (secrets_path base) h x (w_fs w) (w_fs w'))"
proof -
  obtain r w' where run: "secrets_put enc dec token base h x w = (r, w')" by fastforce
  from tripleD [OF triple_secrets_put refl run] run show ?thesis
    by (cases r) auto
qed

end
