(* ===== verification/Audit_Log.thy ===== *)
theory Audit_Log
  imports World
begin

text \<open>
  src/audit.py: the audit event. The clock (\<open>ts\<close>) and SHA-256 (\<open>sha\<close>, from the encoded
  text to the hexadecimal digest) are parameters; emitting appends to the log.
\<close>

definition hash_id :: "(string \<Rightarrow> string) \<Rightarrow> string \<Rightarrow> string" where
  "hash_id sha v = (if v = [] then [] else take 16 (sha v))"

definition opt_str :: "string option \<Rightarrow> json" where
  "opt_str s = (case s of None \<Rightarrow> JNull | Some t \<Rightarrow> JStr t)"

record audit_event =
  ae_event :: string
  ae_principal :: json
  ae_request_id :: "string option"
  ae_resource_type :: "string option"
  ae_resource_id :: "string option"
  ae_classification :: string
  ae_outcome :: string
  ae_reason :: "string option"
  ae_extra :: "json dict"
  ae_severity :: string

text \<open>The defaults of \<open>emit\<close>.\<close>

definition event :: "string \<Rightarrow> audit_event" where
  "event name = \<lparr>ae_event = name, ae_principal = JNull, ae_request_id = None, ae_resource_type = None,
     ae_resource_id = None, ae_classification = ''internal'', ae_outcome = ''allow'', ae_reason = None,
     ae_extra = [], ae_severity = ''INFO''\<rparr>"

definition audit_payload :: "(string \<Rightarrow> string) \<Rightarrow> string \<Rightarrow> string \<Rightarrow> audit_event \<Rightarrow> json" where
  "audit_payload sha ts service e =
     JObj (dupdate
       [(''ts'', JStr ts), (''service'', JStr service), (''severity'', JStr (ae_severity e)),
        (''request_id'', opt_str (ae_request_id e)),
        (''principal'', JObj [(''user_id'', jget (ae_principal e) ''username''),
            (''role'', jget (ae_principal e) ''roles''), (''spiffe_id'', JNull)]),
        (''resource'', JObj [(''type'', opt_str (ae_resource_type e)),
            (''id'', JStr (hash_id sha (case ae_resource_id e of None \<Rightarrow> [] | Some i \<Rightarrow> i))),
            (''classification'', JStr (ae_classification e))]),
        (''decision'', JObj [(''outcome'', JStr (ae_outcome e)), (''policy'', JNull),
            (''reason'', opt_str (ae_reason e))])]
       (ae_extra e))"

definition audit_emit :: "(string \<Rightarrow> string) \<Rightarrow> string \<Rightarrow> string \<Rightarrow> audit_event \<Rightarrow> unit io" where
  "audit_emit sha ts service e =
     io_modify (\<lambda>w. w\<lparr>w_log := w_log w @ [(ae_event e, audit_payload sha ts service e)]\<rparr>)"

section \<open>Properties\<close>

text \<open>
  An audit event appends exactly one entry to the log and changes nothing else; unless
  an extra field overrides it, the resource appears in it only as the first sixteen digits
  of its hash.
\<close>

theorem audit_logs_hashed_resource:
  "fst (audit_emit sha ts service e w) = Inr ()
   \<and> snd (audit_emit sha ts service e w)
       = w\<lparr>w_log := w_log w @ [(ae_event e, audit_payload sha ts service e)]\<rparr>
   \<and> (if dict_ok (ae_extra e) \<and> dget (ae_extra e) ''resource'' = None
      then jget (jget (audit_payload sha ts service e) ''resource'') ''id''
        = JStr (hash_id sha (case ae_resource_id e of None \<Rightarrow> [] | Some i \<Rightarrow> i))
      else True)"
  by (simp add: audit_emit_def io_defs audit_payload_def jget_def get_or_def dget_dupdate)

end
