(* ===== verification/Oauth.thy ===== *)
theory Oauth
  imports Resolver_Laws Secrets Audit_Log
begin

text \<open>
  src/oauth.py: onboarding a connector with the OAuth device flow. \<open>start\<close> asks the provider
  for a device code, keeps it as a secret and opens a session; \<open>complete\<close> exchanges it for a
  refresh token, keeps that as a secret and enables the connector with a reference to it.
  Sessions are a JSON file of the store. The secrets backend, the audit emitter, the
  transport and the clock (\<open>time.time()\<close> in microseconds) are fields of the manager; \<open>token\<close> and
  \<open>session_id\<close> stand for the random names.
\<close>

section \<open>The manager\<close>

record secrets_ops =
  sec_put :: "string \<Rightarrow> json \<Rightarrow> unit io"
  sec_get :: "string \<Rightarrow> json io"
  sec_delete :: "string \<Rightarrow> bool io"

record oauth_manager =
  o_store :: capability_store
  o_secrets :: secrets_ops
  o_egress :: egress_config
  o_transport :: transport
  o_validator :: validator
  o_env :: env
  o_now :: int
  o_audit :: "audit_event \<Rightarrow> unit io"

text \<open>\<open>default_oauth_manager\<close> uses the file backend in the store's directory.\<close>

definition file_secrets :: "(fdata \<Rightarrow> string) \<Rightarrow> (string \<Rightarrow> fdata option) \<Rightarrow> string \<Rightarrow> path \<Rightarrow> secrets_ops" where
  "file_secrets enc dec token base =
     \<lparr>sec_put = secrets_put enc dec token base, sec_get = secrets_get dec base,
      sec_delete = secrets_delete enc dec token base\<rparr>"

definition manager_with ::
    "(fdata \<Rightarrow> string) \<Rightarrow> (string \<Rightarrow> fdata option) \<Rightarrow> string \<Rightarrow> capability_store \<Rightarrow> egress_config \<Rightarrow> transport
      \<Rightarrow> validator \<Rightarrow> env \<Rightarrow> int \<Rightarrow> (audit_event \<Rightarrow> unit io) \<Rightarrow> oauth_manager" where
  "manager_with enc dec token st eg tr v env now audit =
     \<lparr>o_store = st, o_secrets = file_secrets enc dec token (base_dir st), o_egress = eg, o_transport = tr,
      o_validator = v, o_env = env, o_now = now, o_audit = audit\<rparr>"

definition default_oauth_manager ::
    "(string \<Rightarrow> fdata \<Rightarrow> string) \<Rightarrow> (string \<Rightarrow> string \<Rightarrow> fdata option) \<Rightarrow> (string \<Rightarrow> string option) \<Rightarrow> string \<Rightarrow> string
      \<Rightarrow> capability_store \<Rightarrow> egress_config \<Rightarrow> transport \<Rightarrow> validator \<Rightarrow> env \<Rightarrow> int \<Rightarrow> (audit_event \<Rightarrow> unit io)
      \<Rightarrow> oauth_manager res" where
  "default_oauth_manager encrypt decrypt key_file generated token st eg tr v env now audit =
     rbind (load_fernet_key env key_file generated) (\<lambda>key.
     Inr (manager_with (encrypt key) (decrypt key) token st eg tr v env now audit))"

section \<open>Providers\<close>

definition provider_for_capability :: "string \<Rightarrow> string res" where
  "provider_for_capability cid =
     (if starts_with ''connector.google.'' cid then Inr ''google''
      else if starts_with ''connector.microsoft.'' cid then Inr ''microsoft''
      else policy_error ''capability is not an OAuth connector'')"

definition scopes_for_capability :: "string \<Rightarrow> string \<Rightarrow> string res" where
  "scopes_for_capability cid provider =
     (if provider = ''google'' then
        Inr (if ends_with ''.calendar'' cid then ''https://www.googleapis.com/auth/calendar.readonly''
             else if ends_with ''.email'' cid then ''https://www.googleapis.com/auth/gmail.readonly''
             else ''openid email'')
      else if provider = ''microsoft'' then
        Inr (if ends_with ''.calendar'' cid then ''offline_access Calendars.Read''
             else if ends_with ''.email'' cid then ''offline_access Mail.Read''
             else ''offline_access User.Read'')
      else policy_error ''unknown oauth provider'')"

definition client_id :: "env \<Rightarrow> string \<Rightarrow> string res" where
  "client_id env provider =
     (case env_set env (if provider = ''google'' then ''UNISON_OAUTH_GOOGLE_CLIENT_ID''
          else ''UNISON_OAUTH_MICROSOFT_CLIENT_ID'') of
        Some v \<Rightarrow> Inr v
      | None \<Rightarrow> policy_error (''missing oauth client id for provider: '' @ provider))"

definition client_secret :: "env \<Rightarrow> string \<Rightarrow> string option" where
  "client_secret env provider =
     (if provider = ''google'' then env ''UNISON_OAUTH_GOOGLE_CLIENT_SECRET''
      else env ''UNISON_OAUTH_MICROSOFT_CLIENT_SECRET'')"

definition device_code_endpoint :: "string \<Rightarrow> string res" where
  "device_code_endpoint provider =
     (if provider = ''google'' then Inr ''https://oauth2.googleapis.com/device/code''
      else if provider = ''microsoft'' then
        Inr ''https://login.microsoftonline.com/common/oauth2/v2.0/devicecode''
      else policy_error ''unknown oauth provider'')"

definition token_endpoint :: "string \<Rightarrow> string res" where
  "token_endpoint provider =
     (if provider = ''google'' then Inr ''https://oauth2.googleapis.com/token''
      else if provider = ''microsoft'' then Inr ''https://login.microsoftonline.com/common/oauth2/v2.0/token''
      else policy_error ''unknown oauth provider'')"

definition require_https :: "string \<Rightarrow> unit res" where
  "require_https u = rbind (urlparse u) (\<lambda>p.
     if scheme p \<noteq> ''https'' then policy_error ''oauth endpoints must be https'' else Inr ())"

definition form_request :: "string \<Rightarrow> json \<Rightarrow> http_request" where
  "form_request u data = \<lparr>rq_method = ''POST'', rq_url = u, rq_json = None, rq_data = Some data,
     rq_headers = [(''Content-Type'', ''application/x-www-form-urlencoded'')], rq_timeout = Dec 1 1\<rparr>"

section \<open>Sessions\<close>

definition sessions_path :: "capability_store \<Rightarrow> path" where
  "sessions_path st = base_dir st @ [''tmp'', ''oauth.sessions.json'']"

definition load_sessions :: "capability_store \<Rightarrow> json dict io" where
  "load_sessions st =
     io_bind (mkdir_p (parent (sessions_path st))) (\<lambda>_.
     io_bind (exists_io (sessions_path st)) (\<lambda>e.
     if \<not> e then io_return []
     else io_bind (read_json (sessions_path st)) (\<lambda>raw.
       io_return (if is_dict raw then entries raw else []))))"

definition write_sessions :: "string \<Rightarrow> capability_store \<Rightarrow> json dict \<Rightarrow> unit io" where
  "write_sessions token st sessions =
     io_bind (mkdir_p (parent (sessions_path st))) (\<lambda>_.
     atomic_write_json token (sessions_path st) (JObj sessions))"

definition flt_of_us :: "int \<Rightarrow> flt" where
  "flt_of_us t = dec_norm t (- 6)"

definition session_entry :: "string \<Rightarrow> string \<Rightarrow> string \<Rightarrow> int \<Rightarrow> int \<Rightarrow> int \<Rightarrow> json" where
  "session_entry cid provider device_handle now expires_in interval = JObj
     [(''capability_id'', JStr cid), (''provider'', JStr provider), (''device_code_handle'', JStr device_handle),
      (''expires_at'', JFloat (flt_of_us (now + expires_in * 1000000))), (''interval'', JInt interval)]"

definition oauth_event :: "string \<Rightarrow> json \<Rightarrow> string \<Rightarrow> audit_event" where
  "oauth_event name princ cid = (event name)\<lparr>ae_principal := princ,
     ae_resource_type := Some ''capability'', ae_resource_id := Some cid\<rparr>"

section \<open>Starting\<close>

text \<open>The checks before a request leaves: the provider's device URL and the form to send.\<close>

definition start_checks :: "oauth_manager \<Rightarrow> string \<Rightarrow> json option \<Rightarrow> (string \<times> string \<times> json) res" where
  "start_checks O1 cid manifest =
     (case manifest of
        None \<Rightarrow> policy_error ''capability not found''
      | Some m \<Rightarrow>
         if \<not> truthy m then policy_error ''capability not found''
         else if jget m ''requires_oauth'' \<noteq> JBool True then policy_error ''capability does not require oauth''
         else if jget m ''enabled'' = JBool True then policy_error ''capability already enabled''
         else
           rbind (provider_for_capability cid) (\<lambda>provider.
           rbind (client_id (o_env O1) provider) (\<lambda>client.
           rbind (scopes_for_capability cid provider) (\<lambda>scopes.
           rbind (device_code_endpoint provider) (\<lambda>device_url.
           rbind (token_endpoint provider) (\<lambda>token_url.
           rbind (require_https device_url) (\<lambda>_.
           rbind (require_https token_url) (\<lambda>_.
           Inr (provider, device_url, JObj [(''client_id'', JStr client), (''scope'', JStr scopes)])))))))))"

record device_grant =
  g_device_code :: json
  g_user_code :: json
  g_verification_uri :: json
  g_expires_in :: int
  g_interval :: int
  g_message :: json

definition device_grant_of :: "json \<Rightarrow> device_grant res" where
  "device_grant_of data =
     rbind (py_get data ''device_code'') (\<lambda>device_code.
     let user_code = jget data ''user_code'';
         uri = py_or (jget data ''verification_uri'') (jget data ''verification_url'') in
     rbind (py_int (py_or (jget data ''expires_in'') (JInt 600))) (\<lambda>expires_in.
     rbind (py_int (py_or (jget data ''interval'') (JInt 5))) (\<lambda>interval.
     if \<not> truthy device_code \<or> \<not> truthy user_code \<or> \<not> truthy uri then
       Inl (CapabilityRunError ''oauth device flow response missing required fields'')
     else Inr \<lparr>g_device_code = device_code, g_user_code = user_code, g_verification_uri = uri,
       g_expires_in = expires_in, g_interval = interval, g_message = jget data ''message''\<rparr>)))"

definition device_handle :: "string \<Rightarrow> string" where
  "device_handle session_id = ''secret://oauth/session/'' @ session_id @ ''/device_code''"

definition open_session :: "oauth_manager \<Rightarrow> string \<Rightarrow> string \<Rightarrow> string \<Rightarrow> string \<Rightarrow> device_grant \<Rightarrow> json io" where
  "open_session O1 token session_id cid provider g =
     io_bind (sec_put (o_secrets O1) (device_handle session_id)
        (JObj [(''device_code'', JStr (py_str (g_device_code g)))])) (\<lambda>_.
     io_bind (load_sessions (o_store O1)) (\<lambda>sessions.
     io_bind (write_sessions token (o_store O1) (dset session_id
        (session_entry cid provider (device_handle session_id) (o_now O1) (g_expires_in g) (g_interval g)) sessions)) (\<lambda>_.
     io_return (JObj [(''session_id'', JStr session_id), (''provider'', JStr provider),
        (''user_code'', g_user_code g), (''verification_uri'', g_verification_uri g),
        (''expires_in'', JInt (g_expires_in g)), (''interval'', JInt (g_interval g)), (''message'', g_message g)]))))"

definition oauth_start :: "oauth_manager \<Rightarrow> string \<Rightarrow> string \<Rightarrow> string \<Rightarrow> json \<Rightarrow> json io" where
  "oauth_start O1 token session_id cid princ =
     io_bind (merged_catalog (o_validator O1) (o_store O1)) (\<lambda>merged.
     io_bind (io_lift (start_checks O1 cid (dget merged cid))) (\<lambda>(provider, device_url, form).
     io_bind (o_audit O1 (oauth_event ''oauth.start'' princ cid)) (\<lambda>_.
     io_bind (egress_request (o_egress O1) (o_transport O1) (form_request device_url form)) (\<lambda>resp.
     io_bind (io_lift (response_json resp)) (\<lambda>data.
     io_bind (io_lift (device_grant_of data)) (\<lambda>g.
     open_session O1 token session_id cid provider g))))))"

section \<open>Completing\<close>

definition live_session :: "oauth_manager \<Rightarrow> json dict \<Rightarrow> string \<Rightarrow> json res" where
  "live_session O1 sessions session_id =
     (case dget sessions session_id of
        None \<Rightarrow> policy_error ''unknown oauth session''
      | Some s \<Rightarrow>
         if \<not> is_dict s then policy_error ''unknown oauth session''
         else
           rbind (py_float (py_or (jget s ''expires_at'') (JInt 0))) (\<lambda>expires.
           if flt_lt expires (flt_of_us (o_now O1)) then policy_error ''oauth session expired'' else Inr s))"

definition token_form :: "string \<Rightarrow> json \<Rightarrow> string option \<Rightarrow> json" where
  "token_form client device_code secret = JObj
     ([(''client_id'', JStr client), (''device_code'', device_code),
       (''grant_type'', JStr ''urn:ietf:params:oauth:grant-type:device_code'')]
      @ (case secret of Some s \<Rightarrow> if s = [] then [] else [(''client_secret'', JStr s)] | None \<Rightarrow> []))"

text \<open>What the token endpoint answers: still pending, or the refresh token.\<close>

datatype exchange = Pending string | Granted json

definition exchange_of :: "http_response \<Rightarrow> exchange res" where
  "exchange_of resp =
     rbind (if rs_status resp < 500 then rs_json resp else Inr (JObj [])) (\<lambda>data.
     if 400 \<le> rs_status resp then
       rbind (py_get data ''error'') (\<lambda>e.
       let err = py_str (py_or e (JStr ''oauth_error'')) in
       if err \<in> set [''authorization_pending'', ''slow_down''] then Inr (Pending err)
       else Inl (CapabilityRunError (''oauth token exchange failed: '' @ err)))
     else
       rbind (py_get data ''refresh_token'') (\<lambda>t.
       if \<not> truthy t then Inl (CapabilityRunError ''oauth token response missing refresh_token'')
       else Inr (Granted t)))"

definition token_handle :: "string \<Rightarrow> string \<Rightarrow> string \<Rightarrow> string" where
  "token_handle provider username cid =
     ''secret://oauth/'' @ provider @ ''/'' @ username @ ''/'' @ cid @ ''/refresh_token''"

text \<open>The enabled manifest, its token by reference.\<close>

definition bind_token :: "string \<Rightarrow> json \<Rightarrow> json res" where
  "bind_token handle m =
     rbind (py_iter (py_or (jget m ''secrets'') (JArr []))) (\<lambda>ss.
     Inr (jset ''secrets'' (JArr (filter (\<lambda>s. str_or_empty (jget s ''name'') \<noteq> ''OAUTH_REFRESH_TOKEN'') (filter is_dict ss)
          @ [JObj [(''name'', JStr ''OAUTH_REFRESH_TOKEN''), (''ref'', JStr handle)]]))
       (jset ''enabled'' (JBool True) m)))"

definition enable_connector :: "oauth_manager \<Rightarrow> string \<Rightarrow> string \<Rightarrow> string \<Rightarrow> unit io" where
  "enable_connector O1 token cid handle =
     io_bind (merged_catalog (o_validator O1) (o_store O1)) (\<lambda>merged.
     let m = (case dget merged cid of Some m \<Rightarrow> py_or m (JObj []) | None \<Rightarrow> JObj []) in
     if \<not> truthy m then io_raise (CapabilityPolicyError ''capability not found'')
     else
       io_bind (io_lift (bind_token handle m)) (\<lambda>enabled. upsert_local (o_validator O1) token (o_store O1) enabled))"

definition close_session :: "oauth_manager \<Rightarrow> string \<Rightarrow> string \<Rightarrow> json dict \<Rightarrow> string \<Rightarrow> unit io" where
  "close_session O1 token session_id sessions handle =
     io_bind (sec_delete (o_secrets O1) handle) (\<lambda>_.
     write_sessions token (o_store O1) (dpop session_id sessions))"

text \<open>From the open session to the answer of the provider.\<close>

definition exchange_code :: "oauth_manager \<Rightarrow> json \<Rightarrow> json \<Rightarrow> exchange io" where
  "exchange_code O1 s princ =
     (let provider = str_or_empty (jget s ''provider''); cid = str_or_empty (jget s ''capability_id'');
          handle = str_or_empty (jget s ''device_code_handle'') in
      io_bind (sec_get (o_secrets O1) handle) (\<lambda>secret.
      io_bind (io_lift (py_get secret ''device_code'')) (\<lambda>device_code.
      if \<not> truthy device_code then io_raise (CapabilityPolicyError ''missing device_code secret for session'')
      else
        io_bind (io_lift (client_id (o_env O1) provider)) (\<lambda>client.
        io_bind (io_lift (token_endpoint provider)) (\<lambda>token_url.
        io_bind (io_lift (require_https token_url)) (\<lambda>_.
        io_bind (o_audit O1 (oauth_event ''oauth.complete'' princ cid)) (\<lambda>_.
        io_bind (egress_request (o_egress O1) (o_transport O1)
           (form_request token_url (token_form client device_code (client_secret (o_env O1) provider)))) (\<lambda>resp.
        io_lift (exchange_of resp)))))))))"

definition oauth_complete :: "oauth_manager \<Rightarrow> string \<Rightarrow> string \<Rightarrow> json \<Rightarrow> json io" where
  "oauth_complete O1 token session_id princ =
     io_bind (load_sessions (o_store O1)) (\<lambda>sessions.
     io_bind (io_lift (live_session O1 sessions session_id)) (\<lambda>s.
     let provider = str_or_empty (jget s ''provider''); cid = str_or_empty (jget s ''capability_id'');
         handle = str_or_empty (jget s ''device_code_handle'') in
     io_bind (exchange_code O1 s princ) (\<lambda>outcome.
     case outcome of
       Pending err \<Rightarrow>
         io_bind (io_lift (py_int (py_or (jget s ''interval'') (JInt 5)))) (\<lambda>interval.
         io_return (JObj [(''status'', JStr ''pending''), (''error'', JStr err), (''interval'', JInt interval)]))
     | Granted refresh \<Rightarrow>
         (let username = py_str (py_or (jget princ ''username'') (JStr ''unknown''));
              tok = token_handle provider username cid in
          io_bind (sec_put (o_secrets O1) tok (JObj [(''refresh_token'', JStr (py_str refresh))])) (\<lambda>_.
          io_bind (enable_connector O1 token cid tok) (\<lambda>_.
          io_bind (close_session O1 token session_id sessions handle) (\<lambda>_.
          io_bind (o_audit O1 (oauth_event ''capability.enabled'' princ cid)) (\<lambda>_.
          io_return (JObj [(''status'', JStr ''enabled''), (''capability_id'', JStr cid)])))))))))"

end
