(* ===== verification/Oauth_Laws.thy ===== *)
theory Oauth_Laws
  imports Oauth
begin

text \<open>
  What the device flow of src/oauth.py promises: where it sends requests, what completing it
  makes of the catalog, and that a session is used up by a success.
\<close>

section \<open>Where the flow writes\<close>

definition oauth_area :: "capability_store \<Rightarrow> path set" where
  "oauth_area st = store_area st \<union> range (\<lambda>x. base_dir st @ [''secrets.enc.json'' @ x])"

lemma area_in_oauth: "store_area st \<subseteq> oauth_area st"
  by (simp add: oauth_area_def)

lemma local_not_in_oauth: "local_catalog st \<notin> oauth_area st"
  using local_not_in_area [of st] by (auto simp: oauth_area_def local_catalog_def)

lemma sessions_in_area: "sessions_path st \<in> store_area st" "parent (sessions_path st) \<in> store_area st"
  by (rule area_below [of "''tmp''"]; simp add: sessions_path_def parent_def butlast_append is_prefix_iff)+

lemma sessions_not_Nil [simp]: "sessions_path st \<noteq> []"
  by (simp add: sessions_path_def)

lemma area_secrets_write: "touches (oauth_area st) (secrets_write_all enc token (secrets_path (base_dir st)) d)"
proof -
  have "set (prefixes_of (base_dir st)) \<subseteq> store_area st"
    by (rule area_prefixes) (simp add: store_area_def)
  moreover have "secrets_path (base_dir st) \<in> oauth_area st"
    unfolding oauth_area_def secrets_path_def by (rule UnI2, rule image_eqI [where x = "[]"]) simp_all
  moreover have "tmp_for (secrets_path (base_dir st)) token \<in> oauth_area st"
    unfolding oauth_area_def secrets_path_def tmp_for_snoc
    by (rule UnI2, rule image_eqI [where x = "''.'' @ token"]) simp_all
  ultimately show ?thesis
    unfolding secrets_write_all_def atomic_write_json_def
    by (intro touches_mono [OF touches_aw]) (use area_in_oauth in \<open>auto simp: secrets_path_def\<close>)
qed

lemma area_secrets_lock: "touches (oauth_area st) m \<Longrightarrow> touches (oauth_area st) (with_lock (secrets_lock (base_dir st)) m)"
proof (rule touches_with_lock)
  have "secrets_lock (base_dir st) \<in> store_area st"
    by (rule area_below [of "''locks''"]) (simp_all add: secrets_lock_def is_prefix_iff)
  then show "{q. is_prefix q (secrets_lock (base_dir st))} \<subseteq> oauth_area st"
    using area_prefix area_in_oauth by fast
qed simp

lemma touches_secrets_read: "touches X (secrets_read_all dec p)"
  unfolding secrets_read_all_def read_json_def by (intro touches_rules area_rules)

lemma secrets_read_silent: "sends_only P (secrets_read_all dec p)"
  unfolding secrets_read_all_def read_json_def by (intro sends_rules reads_sends [OF reads_exists] reads_sends [OF reads_read_file])

lemma secrets_write_silent: "sends_only P (secrets_write_all enc token p d)"
  unfolding secrets_write_all_def by (rule atomic_write_sends)

section \<open>What the flow relies on\<close>

text \<open>
  The secrets backend keeps to its own files and to the areas of the store, emitting an
  audit event changes no file, and neither sends a request.
\<close>

locale onboarding =
  fixes M :: oauth_manager
  assumes put_area: "touches (oauth_area (o_store M)) (sec_put (o_secrets M) h x)"
    and get_area: "touches (oauth_area (o_store M)) (sec_get (o_secrets M) h)"
    and delete_area: "touches (oauth_area (o_store M)) (sec_delete (o_secrets M) h)"
    and put_silent: "sends_only P (sec_put (o_secrets M) h x)"
    and get_silent: "sends_only P (sec_get (o_secrets M) h)"
    and delete_silent: "sends_only P (sec_delete (o_secrets M) h)"
    and audit_frame: "touches {} (o_audit M e)"
    and audit_silent: "sends_only P (o_audit M e)"

lemma touches_modify: "(\<And>w. w_fs (f w) = w_fs w \<and> w_hist (f w) = w_hist w) \<Longrightarrow> touches X (io_modify f)"
  by (auto simp: touches_def triple_def io_defs intro: steps_ok_same_hist)

interpretation file_oauth: onboarding "manager_with enc dec token st eg tr v env now (audit_emit sha ts service)"
  for enc dec token st eg tr v env now sha ts service
proof (unfold_locales, goal_cases)
  case (7 e)
  show ?case by (simp add: manager_with_def audit_emit_def touches_modify)
next
  case (8 P e)
  show ?case by (simp add: manager_with_def audit_emit_def io_defs sends_only_silent)
qed (auto simp: manager_with_def file_secrets_def secrets_put_def secrets_get_def secrets_delete_def
  intro!: touches_rules sends_rules area_secrets_lock area_secrets_write touches_secrets_read secrets_read_silent secrets_write_silent
  split: option.split)

section \<open>Requests\<close>

definition oauth_endpoints :: "string list" where
  "oauth_endpoints =
     [''https://oauth2.googleapis.com/device/code'', ''https://oauth2.googleapis.com/token'',
      ''https://login.microsoftonline.com/common/oauth2/v2.0/devicecode'',
      ''https://login.microsoftonline.com/common/oauth2/v2.0/token'']"

lemma endpoints_known:
  "device_code_endpoint p = Inr u \<Longrightarrow> u \<in> set oauth_endpoints" "token_endpoint p = Inr u \<Longrightarrow> u \<in> set oauth_endpoints"
  by (auto simp: device_code_endpoint_def token_endpoint_def oauth_endpoints_def policy_error_def split: if_splits)

definition oauth_url :: "oauth_manager \<Rightarrow> string \<Rightarrow> bool" where
  "oauth_url M u \<longleftrightarrow> u \<in> set oauth_endpoints \<and> egress_allowed (o_egress M) u"

lemma sends_lift_bind: "(\<And>a. r = Inr a \<Longrightarrow> sends_only P (f a)) \<Longrightarrow> sends_only P (io_bind (io_lift r) f)"
  by (cases r) (auto intro: sends_rules)

lemma guarded_request_sends: "sends_only (\<lambda>u. u = rq_url rq \<and> egress_allowed cfg u) (egress_request cfg tr rq)"
  by (cases "check_url cfg (rq_url rq)")
     (simp_all add: egress_request_def sends_rules sends_only_send check_url_Inr)

lemma form_request_sends:
  "u \<in> set oauth_endpoints \<Longrightarrow> sends_only (oauth_url M) (egress_request (o_egress M) tr (form_request u data))"
  by (rule sends_only_mono [OF guarded_request_sends]) (simp add: oauth_url_def form_request_def)

lemma sessions_silent:
  "sends_only P (load_sessions st)" "sends_only P (write_sessions token st d)"
  unfolding load_sessions_def write_sessions_def mkdir_p_def read_json_def
  by (intro sends_rules atomic_write_sends reads_sends [OF reads_exists] reads_sends [OF reads_read_file])+

lemma sessions_area:
  "touches (oauth_area st) (load_sessions st)" "touches (oauth_area st) (write_sessions token st d)"
proof -
  have "tmp_for (sessions_path st) token \<in> store_area st"
    by (rule area_below [of "''tmp''"]) (simp_all add: sessions_path_def tmp_for_def parent_def butlast_append is_prefix_iff)
  then show "touches (oauth_area st) (write_sessions token st d)"
    unfolding write_sessions_def
    by (intro touches_mono [OF _ area_in_oauth] touches_rules area_mkdir_p area_write sessions_in_area)
  show "touches (oauth_area st) (load_sessions st)"
    unfolding load_sessions_def read_json_def
    by (intro touches_mono [OF _ area_in_oauth] touches_rules area_rules sessions_in_area)
qed

lemma start_checks_url: "start_checks M cid m = Inr (provider, u, form) \<Longrightarrow> u \<in> set oauth_endpoints"
  by (auto simp: start_checks_def result_simps dest: endpoints_known split: option.splits if_splits)

context onboarding
begin

lemma open_silent: "sends_only P (open_session M token sid cid provider g)"
  unfolding open_session_def by (intro sends_rules put_silent sessions_silent)

lemma start_sends: "sends_only (oauth_url M) (oauth_start M token sid cid princ)"
  unfolding oauth_start_def
  by (intro sends_only_bind sends_lift_bind sends_rules reads_sends [OF reads_merged])
     (auto intro!: sends_rules audit_silent form_request_sends open_silent dest: start_checks_url)

lemma exchange_sends: "sends_only (oauth_url M) (exchange_code M s princ)"
  unfolding exchange_code_def Let_def
  by (intro sends_only_bind sends_only_if sends_lift_bind get_silent audit_silent sends_only_raise sends_only_lift
        form_request_sends endpoints_known(2))

lemma enable_silent: "sends_only P (enable_connector M token cid handle)"
  unfolding enable_connector_def Let_def
  by (intro sends_rules upsert_sends reads_sends [OF reads_merged])

lemma complete_sends: "sends_only (oauth_url M) (oauth_complete M token sid princ)"
  unfolding oauth_complete_def close_session_def Let_def
  by (intro sends_only_bind sessions_silent sends_only_lift exchange_sends)
     (auto intro!: sends_rules put_silent delete_silent enable_silent sessions_silent audit_silent split: exchange.split)

lemma exchange_area: "touches (oauth_area (o_store M)) (exchange_code M s princ)"
  unfolding exchange_code_def Let_def egress_request_def
  by (intro touches_rules get_area touches_mono [OF audit_frame empty_subsetI])

end

section \<open>The enabled manifest\<close>

lemma conforms_secret_list:
  assumes "schema_conforms m"
  shows "\<exists>ss. py_iter (py_or (jget m ''secrets'') (JArr [])) = Inr ss \<and> list_all secret_conforms ss"
proof (cases "has_key m ''secrets''")
  case True
  from assms have "opt_key ''secrets'' secrets_conforms m" by (simp add: schema_conforms_def)
  from opt_keyD [OF this True] obtain xs where "jget m ''secrets'' = JArr xs" "list_all secret_conforms xs"
    by (auto simp: secrets_conforms_def is_list_iff)
  then show ?thesis by (auto simp: py_or_def)
next
  case False
  then show ?thesis by (auto simp: has_key_def jget_def get_or_def py_or_def)
qed

text \<open>The list of secrets of the enabled manifest.\<close>

definition token_secrets :: "string \<Rightarrow> json list \<Rightarrow> json list" where
  "token_secrets h ss = filter (\<lambda>s. str_or_empty (jget s ''name'') \<noteq> ''OAUTH_REFRESH_TOKEN'') (filter is_dict ss)
     @ [JObj [(''name'', JStr ''OAUTH_REFRESH_TOKEN''), (''ref'', JStr h)]]"

lemma bind_token_Inr:
  "bind_token h m = Inr m' \<longleftrightarrow> (\<exists>ss. py_iter (py_or (jget m ''secrets'') (JArr [])) = Inr ss
     \<and> m' = jset ''secrets'' (JArr (token_secrets h ss)) (jset ''enabled'' (JBool True) m))"
  by (auto simp: bind_token_def token_secrets_def result_simps)

lemma token_secret_conforms: "h \<noteq> [] \<Longrightarrow> secret_conforms (JObj [(''name'', JStr ''OAUTH_REFRESH_TOKEN''), (''ref'', JStr h)])"
  by (simp add: secret_conforms_def closed_obj_def req_keys_def only_keys_def opt_key_def nonempty_str_def has_key_def)

lemma bind_token_conforms:
  assumes "schema_conforms m" and "bind_token h m = Inr m'" and "h \<noteq> []"
  shows "schema_conforms m'"
proof -
  obtain ss where ss: "list_all secret_conforms ss"
    and m': "m' = jset ''secrets'' (JArr (token_secrets h ss)) (jset ''enabled'' (JBool True) m)"
    using conforms_secret_list [OF assms(1)] assms(2) by (auto simp: bind_token_Inr)
  have "secrets_conforms (JArr (token_secrets h ss))"
    using ss token_secret_conforms [OF assms(3)] by (auto simp: secrets_conforms_def token_secrets_def list_all_iff)
  with conforms_set_enabled [OF assms(1), of True] show ?thesis
    unfolding schema_conforms_def m' opt_key_jset
    by (auto intro!: closed_obj_jset simp: manifest_properties_def)
qed

lemma json_ok_iter: "json_ok j \<Longrightarrow> py_iter j = Inr xs \<Longrightarrow> \<forall>x \<in> set xs. json_ok x"
  by (cases j) (auto simp: list_all_iff)

lemma bind_token_ok:
  assumes "json_ok m" and "bind_token h m = Inr m'"
  shows "json_ok m'"
proof -
  have ok: "json_ok (py_or (jget m ''secrets'') (JArr []))" using json_ok_jget [OF assms(1)] by (simp add: py_or_def)
  from assms(2) obtain ss where ss: "py_iter (py_or (jget m ''secrets'') (JArr [])) = Inr ss"
    and m': "m' = jset ''secrets'' (JArr (token_secrets h ss)) (jset ''enabled'' (JBool True) m)"
    by (auto simp: bind_token_Inr)
  have "json_ok (JArr (token_secrets h ss))"
    using json_ok_iter [OF ok ss] by (auto simp: token_secrets_def list_all_iff)
  then show ?thesis unfolding m' using assms(1) by (intro json_ok_jset) simp_all
qed

section \<open>Completing, step by step\<close>

text \<open>The entry of a session in the file of sessions.\<close>

definition session_at :: "capability_store \<Rightarrow> fs \<Rightarrow> string \<Rightarrow> json option" where
  "session_at st s sid =
     (case fs_get s (sessions_path st) of
        Some (FileN (Doc (JObj d))) \<Rightarrow> dget d sid
      | _ \<Rightarrow> None)"

text \<open>
  \<open>connects M s0 e princ m'\<close>: for the session \<open>e\<close> and the caller \<open>princ\<close>, \<open>m'\<close> is the manifest
  that the merged catalog of \<open>s0\<close> has for the capability of the session, enabled and with a
  reference to the token of that provider, user and capability as its only secret of that name.
\<close>

definition connects :: "oauth_manager \<Rightarrow> fs \<Rightarrow> json \<Rightarrow> json \<Rightarrow> json \<Rightarrow> bool" where
  "connects M s0 e princ m' \<longleftrightarrow> (\<exists>b l m ss.
     base_view (o_validator M) (o_store M) s0 = Inr b \<and> local_view (o_validator M) (o_store M) s0 = Inr l
     \<and> dget (dupdate b l) (str_or_empty (jget e ''capability_id'')) = Some m
     \<and> py_iter (py_or (jget m ''secrets'') (JArr [])) = Inr ss
     \<and> m' = jset ''secrets'' (JArr (token_secrets
            (''secret://oauth/'' @ str_or_empty (jget e ''provider'') @ ''/''
              @ py_str (py_or (jget princ ''username'') (JStr ''unknown'')) @ ''/''
              @ str_or_empty (jget e ''capability_id'') @ ''/refresh_token'') ss))
          (jset ''enabled'' (JBool True) m))"

definition connected :: "oauth_manager \<Rightarrow> fs \<Rightarrow> json \<Rightarrow> json \<Rightarrow> fs \<Rightarrow> bool" where
  "connected M s0 e princ s \<longleftrightarrow> (\<exists>m'. connects M s0 e princ m'
     \<and> local_view (o_validator M) (o_store M) s = res_map (put_spec m') (local_view (o_validator M) (o_store M) s0))"

definition complete_state :: "oauth_manager \<Rightarrow> fs \<Rightarrow> string \<Rightarrow> json \<Rightarrow> fs \<Rightarrow> bool" where
  "complete_state M s0 sid princ s \<longleftrightarrow>
     local_view (o_validator M) (o_store M) s = local_view (o_validator M) (o_store M) s0
     \<or> (case session_at (o_store M) s0 sid of None \<Rightarrow> False | Some e \<Rightarrow> connected M s0 e princ s)"

definition enabled_answer :: "string \<Rightarrow> json" where
  "enabled_answer cid = JObj [(''status'', JStr ''enabled''), (''capability_id'', JStr cid)]"

definition complete_done :: "oauth_manager \<Rightarrow> fs \<Rightarrow> string \<Rightarrow> json \<Rightarrow> json \<Rightarrow> fs \<Rightarrow> bool" where
  "complete_done M s0 sid princ out s \<longleftrightarrow>
     (if jget out ''status'' = JStr ''pending''
      then local_view (o_validator M) (o_store M) s = local_view (o_validator M) (o_store M) s0
      else (case session_at (o_store M) s0 sid of
              None \<Rightarrow> False
            | Some e \<Rightarrow> out = enabled_answer (str_or_empty (jget e ''capability_id'')) \<and> connected M s0 e princ s))"

text \<open>What is loaded is what the file holds.\<close>

lemma mkdir_sessions: "mkdir_p (parent (sessions_path st)) w = (r, w') \<Longrightarrow>
    fs_get (w_fs w') (sessions_path st) = fs_get (w_fs w) (sessions_path st)"
  using tripleD [OF touchesD [OF touches_mkdir_p, of "parent (sessions_path st)" "w_fs w"] same_off_refl]
    same_offD [OF _ not_in_prefixes_parent [OF sessions_not_Nil]]
  by (fastforce split: sum.splits)

lemma read_json_run: "read_json p w = (Inr raw, w') \<Longrightarrow> fs_get (w_fs w) p = Some (FileN (Doc raw))"
  unfolding read_json_def io_bind_is_Inr io_lift_is
  by (elim exE conjE, drule read_file_run) (auto simp: parse_json_def split: fdata.splits)

lemma load_sessions_run:
  assumes "load_sessions st w = (Inr ss, w')"
  shows "dget ss sid = session_at st (w_fs w) sid"
proof -
  let ?p = "sessions_path st"
  from assms obtain w1 where mk: "mkdir_p (parent ?p) w = (Inr (), w1)"
    and rest: "io_bind (exists_io ?p) (\<lambda>e. if \<not> e then io_return []
     else io_bind (read_json ?p) (\<lambda>raw. io_return (if is_dict raw then entries raw else []))) w1 = (Inr ss, w')"
    by (auto simp: load_sessions_def io_inv)
  have same: "fs_get (w_fs w) ?p = fs_get (w_fs w1) ?p" using mkdir_sessions [OF mk] by simp
  show ?thesis
  proof (cases "path_exists (w_fs w1) ?p")
    case False
    with rest show ?thesis
      by (auto simp: io_inv exists_io_def io_get_def session_at_def same path_exists_def split: option.split)
  next
    case True
    with rest obtain raw w2 where "read_json ?p w1 = (Inr raw, w2)" "ss = (if is_dict raw then entries raw else [])"
      by (auto simp: io_inv exists_io_def io_get_def)
    with read_json_run [OF this(1)] show ?thesis by (cases raw) (simp_all add: session_at_def same)
  qed
qed

lemma live_session_Inr: "live_session M sessions sid = Inr e \<Longrightarrow> dget sessions sid = Some e"
  by (auto simp: live_session_def policy_error_def result_simps split: option.splits if_splits)

lemma token_handle_nonempty: "token_handle provider username cid \<noteq> []"
  by (simp add: token_handle_def)

context onboarding
begin

abbreviation (input) catalogs_same :: "fs \<Rightarrow> fs \<Rightarrow> bool" where
  "catalogs_same s0 s \<equiv> fs_get s (local_catalog (o_store M)) = fs_get s0 (local_catalog (o_store M))
     \<and> fs_get s (base_catalog (o_store M)) = fs_get s0 (base_catalog (o_store M))"

lemma catalogs_same_views:
  "catalogs_same s0 s \<Longrightarrow> local_view v (o_store M) s = local_view v (o_store M) s0
     \<and> base_view v (o_store M) s = base_view v (o_store M) s0"
  by (simp add: local_view_def base_view_def catalog_at_def)

lemma same_complete: "catalogs_same s0 s \<Longrightarrow> complete_state M s0 sid princ s"
  using catalogs_same_views [of s0 s] by (simp add: complete_state_def)

lemma quiet_step:
  assumes "touches (oauth_area (o_store M)) op" and "base_catalog (o_store M) \<notin> oauth_area (o_store M)"
  shows "triple (complete_state M s0 sid princ) (\<lambda>w. catalogs_same s0 (w_fs w)) op
     (\<lambda>_ w. catalogs_same s0 (w_fs w)) (\<lambda>_ w. complete_state M s0 sid princ (w_fs w))"
proof (rule triple_weaken [OF touches_keeps [OF assms(1), where P = "catalogs_same s0"]])
  fix s s' assume "same_off (oauth_area (o_store M)) s s'" and "catalogs_same s0 s"
  then show "catalogs_same s0 s'" using same_offD [OF _ local_not_in_oauth] same_offD [OF _ assms(2)] by metis
qed (simp_all add: same_complete)

lemma kept_step:
  assumes "touches (oauth_area (o_store M)) op" and "session_at (o_store M) s0 sid = Some e"
  shows "triple (complete_state M s0 sid princ) (\<lambda>w. connected M s0 e princ (w_fs w)) op
     (\<lambda>_ w. connected M s0 e princ (w_fs w)) (\<lambda>_ w. complete_state M s0 sid princ (w_fs w))"
proof (rule triple_weaken [OF touches_keeps [OF assms(1), where P = "connected M s0 e princ"]])
  fix s s' assume "same_off (oauth_area (o_store M)) s s'" and c: "connected M s0 e princ s"
  then have "fs_get s' (local_catalog (o_store M)) = fs_get s (local_catalog (o_store M))"
    using local_not_in_oauth same_offD by blast
  with view_local [OF this] c show "connected M s0 e princ s'" by (simp add: connected_def)
qed (use assms(2) in \<open>auto simp: complete_state_def\<close>)

text \<open>The parts of a session, and the token of the caller.\<close>

abbreviation (input) cid_of :: "json \<Rightarrow> string" where
  "cid_of e \<equiv> str_or_empty (jget e ''capability_id'')"

abbreviation (input) token_of :: "json \<Rightarrow> json \<Rightarrow> string" where
  "token_of e princ \<equiv> token_handle (str_or_empty (jget e ''provider''))
     (py_str (py_or (jget princ ''username'') (JStr ''unknown''))) (cid_of e)"

lemma bind_step:
  assumes v: "manifest_validator (o_validator M)"
    and ok: "doc_ok_at (local_catalog (o_store M)) s0" "json_ok m" and same: "catalogs_same s0 s"
    and bl: "base_view (o_validator M) (o_store M) s = Inr b" "local_view (o_validator M) (o_store M) s = Inr l"
    and m: "dget (dupdate b l) (cid_of e) = Some m" and e: "session_at (o_store M) s0 sid = Some e"
  shows "triple (complete_state M s0 sid princ) (\<lambda>w. w_fs w = s)
     (io_bind (io_lift (bind_token (token_of e princ) m))
        (\<lambda>enabled. upsert_local (o_validator M) token (o_store M) enabled))
     (\<lambda>_ w. connected M s0 e princ (w_fs w)) (\<lambda>_ w. complete_state M s0 sid princ (w_fs w))"
proof (cases "bind_token (token_of e princ) m")
  case (Inl x)
  have "complete_state M s0 sid princ s" using catalogs_same_views [OF same] by (simp add: complete_state_def)
  with Inl show ?thesis by (auto intro!: triple_raise)
next
  case (Inr m')
  let ?v = "o_validator M" and ?st = "o_store M"
  have views: "local_view ?v ?st s = local_view ?v ?st s0" "base_view ?v ?st s = base_view ?v ?st s0"
    using catalogs_same_views [OF same] by simp_all
  have "connects M s0 e princ m'"
    using Inr bl m views unfolding connects_def bind_token_Inr token_handle_def by auto
  then have fin: "local_view ?v ?st u = res_map (put_spec m') (local_view ?v ?st s) \<Longrightarrow> connected M s0 e princ u" for u
    unfolding connected_def views by blast
  have inv: "cat_atomic ?v ?st s (res_map (put_spec m') (local_view ?v ?st s)) u \<Longrightarrow> complete_state M s0 sid princ u" for u
    using fin [of u] unfolding cat_atomic_def complete_state_def views e by auto
  have d: "doc_ok_at (local_catalog ?st) s" using ok(1) same by (simp add: doc_ok_at_def)
  show ?thesis
    unfolding Inr io_lift_Inr io_bind_return
    by (rule triple_inv [OF triple_weaken [OF manifest_validator.triple_upsert [OF v d bind_token_ok [OF ok(2) Inr] refl]]])
       (use fin inv in auto)
qed

lemma enable_step:
  assumes v: "manifest_validator (o_validator M)" and base: "base_catalog (o_store M) \<noteq> []"
    and ok: "doc_ok_at (local_catalog (o_store M)) s0" "doc_ok_at (base_catalog (o_store M)) s0"
    and e: "session_at (o_store M) s0 sid = Some e"
  shows "triple (complete_state M s0 sid princ) (\<lambda>w. catalogs_same s0 (w_fs w))
     (enable_connector M token (cid_of e) (token_of e princ))
     (\<lambda>_ w. connected M s0 e princ (w_fs w)) (\<lambda>_ w. complete_state M s0 sid princ (w_fs w))"
proof (rule triple_pointwise)
  let ?v = "o_validator M" and ?st = "o_store M"
  let ?pick = "\<lambda>d. case dget d (cid_of e) of Some m \<Rightarrow> py_or m (JObj []) | None \<Rightarrow> JObj []"
  fix s assume same: "catalogs_same s0 s"
  then have inv: "complete_state M s0 sid princ s" using catalogs_same_views [OF same] by (simp add: complete_state_def)
  have good: "json_ok m" if "base_view ?v ?st s = Inr b" "local_view ?v ?st s = Inr l" "dget (dupdate b l) (cid_of e) = Some m" for b l m
  proof -
    have "doc_ok_at (local_catalog ?st) s" "doc_ok_at (base_catalog ?st) s"
      using ok same by (simp_all add: doc_ok_at_def)
    then have "cat_good ?v (dupdate b l)"
      using manifest_validator.good_merged [OF v manifest_validator.good_base [OF v _ that(1)]
          manifest_validator.good_local [OF v _ that(2)]] by blast
    from cat_good_get [OF this that(3)] show ?thesis by (simp add: entry_good_def)
  qed
  have start: "triple (complete_state M s0 sid princ) (\<lambda>w. w_fs w = s) (merged_catalog ?v ?st)
      (\<lambda>d w. w_fs w = s \<and> (\<exists>b l. base_view ?v ?st s = Inr b \<and> local_view ?v ?st s = Inr l \<and> d = dupdate b l))
      (\<lambda>_ w. complete_state M s0 sid princ (w_fs w))"
    by (rule triple_weaken [OF triple_merged [of "complete_state M s0 sid princ", OF inv base]]) (use inv in auto)
  show "triple (complete_state M s0 sid princ) (\<lambda>w. w_fs w = s) (enable_connector M token (cid_of e) (token_of e princ))
     (\<lambda>_ w. connected M s0 e princ (w_fs w)) (\<lambda>_ w. complete_state M s0 sid princ (w_fs w))"
    unfolding enable_connector_def Let_def
  proof (rule triple_bind [OF start])
    fix d
    show "triple (complete_state M s0 sid princ)
       (\<lambda>w. w_fs w = s \<and> (\<exists>b l. base_view ?v ?st s = Inr b \<and> local_view ?v ?st s = Inr l \<and> d = dupdate b l))
       (if \<not> truthy (?pick d) then io_raise (CapabilityPolicyError ''capability not found'')
        else io_bind (io_lift (bind_token (token_of e princ) (?pick d)))
          (\<lambda>enabled. upsert_local ?v token ?st enabled))
       (\<lambda>_ w. connected M s0 e princ (w_fs w)) (\<lambda>_ w. complete_state M s0 sid princ (w_fs w))"
    proof (rule triple_case_split)
      assume "\<exists>b l. base_view ?v ?st s = Inr b \<and> local_view ?v ?st s = Inr l \<and> d = dupdate b l"
      then obtain b l where bl: "base_view ?v ?st s = Inr b" "local_view ?v ?st s = Inr l" "d = dupdate b l" by blast
      show "triple (complete_state M s0 sid princ) (\<lambda>w. w_fs w = s)
       (if \<not> truthy (?pick d) then io_raise (CapabilityPolicyError ''capability not found'')
        else io_bind (io_lift (bind_token (token_of e princ) (?pick d)))
          (\<lambda>enabled. upsert_local ?v token ?st enabled))
       (\<lambda>_ w. connected M s0 e princ (w_fs w)) (\<lambda>_ w. complete_state M s0 sid princ (w_fs w))"
      proof (cases "truthy (?pick d)")
        case True
        then obtain m where m: "dget d (cid_of e) = Some m" "?pick d = m"
          by (auto simp: py_or_def split: option.splits if_splits)
        from bind_step [OF v ok(1) good [OF bl(1,2)] same bl(1,2) _ e] m bl(3) True show ?thesis by simp
      next
        case False
        then show ?thesis using inv by (simp, intro triple_raise) simp
      qed
    qed
  qed
qed

lemma triple_complete:
  assumes v: "manifest_validator (o_validator M)" and base: "base_catalog (o_store M) \<noteq> []"
    and apart: "base_catalog (o_store M) \<notin> oauth_area (o_store M)"
    and ok: "doc_ok_at (local_catalog (o_store M)) s0" "doc_ok_at (base_catalog (o_store M)) s0"
  shows "triple (complete_state M s0 sid princ) (\<lambda>w. w_fs w = s0) (oauth_complete M token sid princ)
     (\<lambda>out w. complete_done M s0 sid princ out (w_fs w)) (\<lambda>_ w. complete_state M s0 sid princ (w_fs w))"
proof -
  let ?I = "complete_state M s0 sid princ" and ?same = "\<lambda>w. catalogs_same s0 (w_fs w)"
  let ?E = "\<lambda>_ w. complete_state M s0 sid princ (w_fs w)" and ?Q = "\<lambda>out w. complete_done M s0 sid princ out (w_fs w)"
  note quiet = quiet_step [OF _ apart, of _ s0 sid princ]
  note lift_quiet = quiet [OF touches_lift]
  have close: "touches (oauth_area (o_store M)) (close_session M token sid sessions handle)" for sessions handle
    unfolding close_session_def by (intro touches_rules delete_area sessions_area)
  have audit: "touches (oauth_area (o_store M)) (o_audit M ev)" for ev
    by (rule touches_mono [OF audit_frame]) simp
  have granted: "triple ?I ?same
      (io_bind (sec_put (o_secrets M) (token_of e princ) x) (\<lambda>_.
       io_bind (enable_connector M token (cid_of e) (token_of e princ)) (\<lambda>_.
       io_bind (close_session M token sid sessions handle) (\<lambda>_.
       io_bind (o_audit M ev) (\<lambda>_. io_return (enabled_answer (cid_of e))))))) ?Q ?E"
    if e: "session_at (o_store M) s0 sid = Some e" for e x sessions handle ev
  proof -
    have answer: "triple ?I (\<lambda>w. connected M s0 e princ (w_fs w)) (io_return (enabled_answer (cid_of e))) ?Q ?E"
      by (rule triple_return) (auto simp: complete_done_def e enabled_answer_def jget_def get_or_def)
    show ?thesis
      by (rule triple_bind [OF quiet [OF put_area]], rule triple_bind [OF enable_step [OF v base ok e]],
          rule triple_bind [OF kept_step [OF close e]], rule triple_bind [OF kept_step [OF audit e] answer])
  qed
  have pending: "triple ?I ?same
      (io_return (JObj [(''status'', JStr ''pending''), (''error'', JStr err), (''interval'', JInt interval)])) ?Q ?E"
    for err interval
    by (rule triple_return) (simp add: complete_done_def jget_def get_or_def, metis catalogs_same_views)
  have load: "triple ?I (\<lambda>w. w_fs w = s0) (load_sessions (o_store M))
      (\<lambda>ss w. ?same w \<and> dget ss sid = session_at (o_store M) s0 sid) ?E"
  proof (rule tripleI)
    fix w r w'
    assume w: "w_fs w = s0" and run: "load_sessions (o_store M) w = (r, w')"
    have "?same w" using w by simp
    from tripleD [OF quiet [OF sessions_area(1)] this run] load_sessions_run [of "o_store M" w _ w' sid] run w
    show "steps_ok ?I w w' \<and> (case r of Inl x \<Rightarrow> ?E x w' | Inr ss \<Rightarrow> ?same w' \<and> dget ss sid = session_at (o_store M) s0 sid)"
      by (cases r) auto
  qed
  show ?thesis
    unfolding oauth_complete_def Let_def
  proof (rule triple_bind [OF load], rule triple_case_split)
    fix sessions assume at: "dget sessions sid = session_at (o_store M) s0 sid"
    let ?rest = "\<lambda>s. io_bind (exchange_code M s princ) (\<lambda>outcome. case outcome of
       Pending err \<Rightarrow>
         io_bind (io_lift (py_int (py_or (jget s ''interval'') (JInt 5)))) (\<lambda>interval.
         io_return (JObj [(''status'', JStr ''pending''), (''error'', JStr err), (''interval'', JInt interval)]))
     | Granted refresh \<Rightarrow>
          io_bind (sec_put (o_secrets M) (token_of s princ) (JObj [(''refresh_token'', JStr (py_str refresh))])) (\<lambda>_.
          io_bind (enable_connector M token (cid_of s) (token_of s princ)) (\<lambda>_.
          io_bind (close_session M token sid sessions (str_or_empty (jget s ''device_code_handle''))) (\<lambda>_.
          io_bind (o_audit M (oauth_event ''capability.enabled'' princ (cid_of s))) (\<lambda>_.
          io_return (JObj [(''status'', JStr ''enabled''), (''capability_id'', JStr (cid_of s))]))))))"
    show "triple ?I ?same (io_bind (io_lift (live_session M sessions sid)) ?rest) ?Q ?E"
    proof (cases "live_session M sessions sid")
      case (Inl x)
      then show ?thesis by (simp, intro triple_raise same_complete)
    next
      case (Inr e)
      then have e: "session_at (o_store M) s0 sid = Some e" using live_session_Inr at by metis
      have "triple ?I ?same (?rest e) ?Q ?E"
      proof (rule triple_bind [OF quiet [OF exchange_area]], goal_cases)
        case (1 outcome)
        show ?case
          by (cases outcome, simp, rule triple_bind [OF lift_quiet pending], simp,
              rule granted [OF e, unfolded enabled_answer_def])
      qed
      then show ?thesis by (simp add: Inr)
    qed
  qed
qed

text \<open>A success takes the session out of the file.\<close>

lemma completed_removes_session:
  assumes "oauth_complete M token sid princ w = (Inr out, w1)" and "jget out ''status'' \<noteq> JStr ''pending''"
  shows "\<exists>j. fs_get (w_fs w1) (sessions_path (o_store M)) = Some (FileN (Doc j)) \<and> dget (entries j) sid = None"
proof -
  let ?p = "sessions_path (o_store M)"
  have pending: "jget (JObj [(''status'', JStr ''pending''), (''error'', x), (''interval'', y)]) ''status'' = JStr ''pending''" for x y
    by (simp add: jget_def get_or_def)
  have "\<exists>sessions handle e a b. close_session M token sid sessions handle a = (Inr (), b) \<and> o_audit M e b = (Inr (), w1)"
    using assms(1) unfolding oauth_complete_def Let_def io_bind_is_Inr [of "load_sessions (o_store M)"]
      io_bind_is_Inr [of "io_lift r" for r] io_bind_is_Inr [of "exchange_code M s princ" for s]
  proof (elim exE conjE, goal_cases)
    case (1 sessions wa s wb outcome wc)
    show ?case
    proof (cases outcome)
      case (Pending err)
      with 1 assms(2) pending show ?thesis by (auto simp: io_inv)
    next
      case (Granted t)
      with 1(4) show ?thesis by (simp add: io_inv) blast
    qed
  qed
  then obtain sessions handle e a b where closed: "close_session M token sid sessions handle a = (Inr (), b)"
    and au: "o_audit M e b = (Inr (), w1)"
    by blast
  from closed obtain c where wr: "atomic_write_json token ?p (JObj (dpop sid sessions)) c = (Inr (), b)"
    by (auto simp: close_session_def write_sessions_def io_inv)
  have "fs_get (w_fs b) ?p = Some (FileN (Doc (sort_json (JObj (dpop sid sessions)))))"
    using atomic_write_text_run(2) [OF sessions_not_Nil wr [unfolded atomic_write_json_def]] by blast
  moreover have "fs_get (w_fs w1) ?p = fs_get (w_fs b) ?p"
    using tripleD [OF touchesD [OF audit_frame, of "w_fs b"] same_off_refl au] by (auto simp: same_off_def)
  moreover have "dget (entries (sort_json (JObj (dpop sid sessions)))) sid = None"
  proof -
    have "sid \<notin> fst ` set (dpop sid sessions)" 
      by (rule map_of_eq_None_iff [THEN iffD1]) simp
    then show ?thesis by (force simp: entries_sort_json map_of_eq_None_iff)
  qed
  ultimately show ?thesis by auto
qed

end

text \<open>A session that is not in the file cannot be completed.\<close>

lemma complete_needs_session:
  assumes "oauth_complete M token sid princ w = (Inr out, w')"
  shows "session_at (o_store M) (w_fs w) sid \<noteq> None"
proof -
  from assms obtain ss w1 e where load: "load_sessions (o_store M) w = (Inr ss, w1)" and live: "live_session M ss sid = Inr e"
    by (auto simp: oauth_complete_def io_inv)
  show ?thesis using load_sessions_run [OF load, of sid] live_session_Inr [OF live] by (metis option.distinct(1))
qed

lemma absent_session_raises:
  assumes "fs_get (w_fs w) (sessions_path (o_store M)) = Some (FileN (Doc j))" and "dget (entries j) sid = None"
  shows "\<exists>e w'. oauth_complete M token sid princ w = (Inl e, w') \<and> w_sent w' = w_sent w \<and> w_log w' = w_log w"
proof -
  let ?p = "sessions_path (o_store M)"
  obtain r1 w1 where mk: "mkdir_p (parent ?p) w = (r1, w1)" by fastforce
  have same: "w_sent w1 = w_sent w" "w_log w1 = w_log w"
    using mk by (auto simp: mkdir_p_def prim_def Let_def split: if_splits option.splits sum.splits)
  have "fs_get (w_fs w1) ?p = Some (FileN (Doc j))"
    using tripleD [OF touchesD [OF touches_mkdir_p, of "parent ?p" "w_fs w"] same_off_refl mk] assms(1)
      same_offD [OF _ not_in_prefixes_parent [OF sessions_not_Nil]]
    by (cases r1) auto
  then show ?thesis
    using mk same assms(2)
    by (cases r1)
       (auto simp: oauth_complete_def load_sessions_def exists_io_def path_exists_def read_json_def read_file_def prim_def
          parse_json_def live_session_def policy_error_def io_defs Let_def split: if_splits option.splits sum.splits)
qed


section \<open>Properties\<close>

text \<open>
  The device flow talks to four constant addresses only, the device-code and token
  endpoints of its two providers, and to each only if the egress policy admits it; the
  audit log and the secrets file make no difference to that.
\<close>

theorem oauth_requests_confined:
  "let M = manager_with enc dec token st eg tr v env now (audit_emit sha ts service) in
     sends_only (\<lambda>u. u \<in> set oauth_endpoints \<and> egress_allowed eg u) (oauth_start M token' sid cid princ)
     \<and> sends_only (\<lambda>u. u \<in> set oauth_endpoints \<and> egress_allowed eg u) (oauth_complete M token' sid princ)"
proof -
  have "oauth_url (manager_with enc dec token st eg tr v env now (audit_emit sha ts service))
      = (\<lambda>u. u \<in> set oauth_endpoints \<and> egress_allowed eg u)"
    by (simp add: fun_eq_iff oauth_url_def manager_with_def)
  then show ?thesis
    unfolding Let_def using file_oauth.start_sends file_oauth.complete_sends by metis
qed

text \<open>
  C24: under every schedule of file errors and a crash at any point, completing an OAuth
  session leaves the local catalog as it was or with one manifest put in: the one that the
  catalogs hold for the capability recorded in the session, enabled, and with a reference to
  the token of the provider of the session, the caller and that capability. It answers that a
  connector is enabled only when that is done, naming the capability of the session, and that
  the exchange is pending only when the catalog is unchanged; without such a session it does
  neither.
\<close>

theorem oauth_enables_atomically:
  assumes "manifest_validator v" and "base_catalog st \<noteq> []" and "base_catalog st \<notin> oauth_area st" and "docs_ok (w_fs w)"
  shows "let M = manager_with enc dec token st eg tr v env now (audit_emit sha ts service) in
    case oauth_complete M token' sid princ w of (r, w') \<Rightarrow>
     steps_ok (complete_state M (w_fs w) sid princ) w w'
     \<and> (case r of
          Inl e \<Rightarrow> complete_state M (w_fs w) sid princ (w_fs w')
        | Inr out \<Rightarrow> session_at st (w_fs w) sid \<noteq> None \<and> complete_done M (w_fs w) sid princ out (w_fs w'))"
proof -
  let ?M = "manager_with enc dec token st eg tr v env now (audit_emit sha ts service)"
  have "triple (complete_state ?M (w_fs w) sid princ) (\<lambda>u. w_fs u = w_fs w) (oauth_complete ?M token' sid princ)
      (\<lambda>out u. complete_done ?M (w_fs w) sid princ out (w_fs u)) (\<lambda>_ u. complete_state ?M (w_fs w) sid princ (w_fs u))"
    by (rule file_oauth.triple_complete) (use assms docs_ok_at [OF assms(4)] in \<open>simp_all add: manager_with_def\<close>)
  note all = tripleD [OF this refl]
  have some: "session_at st (w_fs w) sid \<noteq> None" if "oauth_complete ?M token' sid princ w = (Inr out, w')" for out w'
    using complete_needs_session [OF that] by (simp add: manager_with_def)
  obtain r w' where run: "oauth_complete ?M token' sid princ w = (r, w')" by fastforce
  show ?thesis
    using all [OF run] some run by (cases r) (simp_all add: Let_def)
qed

text \<open>
  The manifest that onboarding stores is valid whenever the connector's manifest is,
  it is enabled, the run policy finds its OAuth secret, its only secret of that name refers
  to the new token, and nothing but the two fields has changed.
\<close>

theorem onboarded_manifest_runs:
  assumes "schema_conforms m" and "bind_token (token_handle provider username cid) m = Inr m'"
  shows "schema_conforms m' \<and> jget m' ''enabled'' = JBool True \<and> has_oauth_secret m'
    \<and> filter (\<lambda>s. str_or_empty (jget s ''name'') = ''OAUTH_REFRESH_TOKEN'') (items (jget m' ''secrets''))
        = [JObj [(''name'', JStr ''OAUTH_REFRESH_TOKEN''), (''ref'', JStr (token_handle provider username cid))]]
    \<and> (if k \<in> {''enabled'', ''secrets''} then True else jget m' k = jget m k)
    \<and> run_allowed m' None"
proof -
  let ?h = "token_handle provider username cid"
  obtain ss where m': "m' = jset ''secrets'' (JArr (token_secrets ?h ss)) (jset ''enabled'' (JBool True) m)"
    using assms(2) by (auto simp: bind_token_Inr)
  have up: "starts_with ''OAUTH_'' (str_upper ''OAUTH_REFRESH_TOKEN'')" by code_simp
  have "has_oauth_secret m'"
    using up by (simp add: m' has_oauth_secret_def list_or_empty_def token_secrets_def list_ex_iff jget_def get_or_def)
  moreover have "schema_conforms m'" by (rule bind_token_conforms [OF assms token_handle_nonempty])
  ultimately show ?thesis
    by (simp add: m' token_secrets_def run_allowed_def jget_def get_or_def)
qed

text \<open>
  C29: a session is good for one success: when completing it has answered anything but
  pending, completing it again, by anyone and at any later time, raises before the audit log
  is written and before a request is sent.
\<close>

theorem oauth_session_single_use:
  "case oauth_complete (manager_with enc dec token st eg tr v env now (audit_emit sha ts service)) t sid princ w of
     (Inl e, w1) \<Rightarrow> True
   | (Inr out, w1) \<Rightarrow>
      (if jget out ''status'' = JStr ''pending'' then True
       else \<exists>e w2. oauth_complete (manager_with enc' dec' token2 st eg' tr' v' env' now' (audit_emit sha' ts' service')) t' sid princ' w1
           = (Inl e, w2) \<and> w_sent w2 = w_sent w1 \<and> w_log w2 = w_log w1)"
proof (cases "oauth_complete (manager_with enc dec token st eg tr v env now (audit_emit sha ts service)) t sid princ w")
  case (Pair r w1)
  show ?thesis
  proof (cases r)
    case (Inr out)
    with Pair file_oauth.completed_removes_session [of enc dec token st eg tr v env now sha ts service t sid princ w out w1]
      absent_session_raises [of w1 "manager_with enc' dec' token2 st eg' tr' v' env' now' (audit_emit sha' ts' service')" _ sid t' princ']
    show ?thesis by (auto simp: manager_with_def)
  qed (simp add: Pair)
qed

text \<open>A connector waiting for its token, in a world with an empty catalog.\<close>

definition connector_manifest :: json where
  "connector_manifest = jset ''requires_oauth'' (JBool True) (jset ''id'' (JStr ''connector.google.email'')
     (jset ''enabled'' (JBool False) demo_manifest))"

lemma onboarded_manifest_runs_witness:
  "run_allowed (jset ''secrets'' (JArr (token_secrets (token_handle ''google'' ''ada'' ''connector.google.email'') []))
     (jset ''enabled'' (JBool True) connector_manifest)) None"
proof -
  have "schema_conforms connector_manifest" by code_simp
  moreover have "bind_token (token_handle ''google'' ''ada'' ''connector.google.email'') connector_manifest
      = Inr (jset ''secrets'' (JArr (token_secrets (token_handle ''google'' ''ada'' ''connector.google.email'') []))
     (jset ''enabled'' (JBool True) connector_manifest))"
    by (simp add: bind_token_Inr connector_manifest_def demo_manifest_def jget_def get_or_def py_or_def)
  ultimately show ?thesis using onboarded_manifest_runs [of connector_manifest "''google''" "''ada''" "''connector.google.email''"] by simp
qed

text \<open>The same world with an open session.\<close>

definition session_world :: world where
  "session_world = sample_world\<lparr>w_fs := fs_put (sessions_path sample_store) (FileN (Doc (JObj
     [(''sid'', session_entry ''demo.echo'' ''google'' ''secret://h'' 0 600 5)]))) (w_fs sample_world)\<rparr>"

lemma session_world_open:
  "docs_ok (w_fs session_world)"
  "session_at sample_store (w_fs session_world) ''sid'' = Some (session_entry ''demo.echo'' ''google'' ''secret://h'' 0 600 5)"
  by code_simp+

lemma oauth_enables_atomically_witness:
  "let M = manager_with number_enc number_dec ''x'' sample_store sample_egress stranger_transport reference_errors
       (\<lambda>_. None) 0 (audit_emit id [] []) in
    case oauth_complete M ''x'' ''sid'' JNull session_world of (r, w') \<Rightarrow>
     steps_ok (complete_state M (w_fs session_world) ''sid'' JNull) session_world w'
     \<and> (case r of Inl e \<Rightarrow> complete_state M (w_fs session_world) ''sid'' JNull (w_fs w')
        | Inr out \<Rightarrow> session_at sample_store (w_fs session_world) ''sid'' \<noteq> None
            \<and> complete_done M (w_fs session_world) ''sid'' JNull out (w_fs w'))"
proof (rule oauth_enables_atomically)
  show "base_catalog sample_store \<notin> oauth_area sample_store"
    by (auto simp: base_catalog_def sample_store_def oauth_area_def store_area_def is_prefix_iff Cons_eq_append_conv)
qed (use reference.manifest_validator_axioms session_world_open(1) sample_docs_ok(3) in simp_all)

end
