(* ===== verification/Security.thy ===== *)
theory Security
  imports Config
begin

text \<open>
  src/security.py: the local-only middleware, authentication in its three modes, and the
  role checks of the four tiers. The functions of unison_common are a parameter record; a
  user is the dictionary the authentication returns.
\<close>

section \<open>The middleware\<close>

text \<open>\<open>client\<close> is the host of the peer, or None when the server does not know it.\<close>

definition local_hosts :: "string list" where
  "local_hosts = [''127.0.0.1'', ''::1'', ''testclient'', ''testserver'']"

definition local_only :: "bind_config \<Rightarrow> string option \<Rightarrow> unit res" where
  "local_only bind client =
     (if unsafe_allow_nonlocal bind then Inr ()
      else (case client of
          None \<Rightarrow> Inr ()
        | Some host \<Rightarrow> if host \<in> set local_hosts then Inr ()
            else Inl (HTTPException 403 ''non-local access denied'')))"

section \<open>Authentication\<close>

text \<open>Credentials of an Authorization header: the scheme and the rest.\<close>

record credentials =
  cred_scheme :: string
  cred_token :: string

definition service_user :: "string \<Rightarrow> json" where
  "service_user name = JObj [(''username'', JStr name), (''roles'', JArr [JStr ''service'']),
     (''token_type'', JStr ''service''), (''exp'', JNull)]"

definition static_bearer_auth :: "env \<Rightarrow> auth_config \<Rightarrow> credentials option \<Rightarrow> json res" where
  "static_bearer_auth env auth creds =
     (if str_lower (getenv env ''ENVIRONMENT'' ''development'') \<in> set [''prod'', ''production''] then
        Inl (HTTPException 500 ''static bearer authentication is forbidden in production'')
      else (case creds of
          None \<Rightarrow> Inl (HTTPException 401 ''authentication required'')
        | Some c \<Rightarrow>
            if str_lower (cred_scheme c) \<noteq> ''bearer'' then Inl (HTTPException 401 ''authentication required'')
            else (case static_bearer_token auth of
                None \<Rightarrow> Inl (HTTPException 500 ''static bearer token mode enabled but no token configured'')
              | Some t \<Rightarrow>
                  if t = [] then Inl (HTTPException 500 ''static bearer token mode enabled but no token configured'')
                  else if cred_token c \<noteq> t then Inl (HTTPException 401 ''invalid token'')
                  else Inr (service_user ''static-bearer''))))"

record principal_context =
  pc_login_handle :: json
  pc_principal_id :: json
  pc_person_id :: json
  pc_roles :: "json list"
  pc_expires_at :: json

text \<open>
  The functions of unison_common.auth and unison_common.principal, the last with the expected
  audience; None in \<open>jwt_functions\<close> is an import that failed.
\<close>

record jwt_functions =
  verify_token :: "credentials option \<Rightarrow> json res"
  verify_with_service :: "string \<Rightarrow> json res"
  principal_of_claims :: "json \<Rightarrow> string \<Rightarrow> principal_context res"

text \<open>\<open>dict(x)\<close> for the claims, which are an object.\<close>

definition as_dict :: "json \<Rightarrow> json res" where
  "as_dict j = (if is_dict j then Inr j else Inl (type_error ''object is not a mapping''))"

definition jwt_auth :: "jwt_functions option \<Rightarrow> credentials option \<Rightarrow> json res" where
  "jwt_auth jwt creds =
     (case jwt of
        None \<Rightarrow> Inl (HTTPException 500 ''unison-common not available for jwt verification'')
      | Some f \<Rightarrow>
          rbind (verify_token f creds) (\<lambda>claims.
          rbind (case creds of None \<Rightarrow> Inl (attribute_error JNull ''credentials'') | Some c \<Rightarrow> Inr (cred_token c)) (\<lambda>token.
          rbind (verify_with_service f token) (\<lambda>active.
          rbind (if truthy active then py_get active ''valid'' else Inr (JBool False)) (\<lambda>valid.
          if \<not> truthy valid then Inl (HTTPException 401 ''principal session is inactive'')
          else
            rbind (as_dict (py_or (jget active ''claims'') claims)) (\<lambda>claims.
            rbind (case principal_of_claims f claims ''capability'' of
                Inl (PyError ValueError t) \<Rightarrow> Inl (HTTPException 403 ''principal audience or binding is invalid'')
              | r \<Rightarrow> r) (\<lambda>context.
            Inr (JObj [(''username'', py_or (pc_login_handle context) (pc_principal_id context)),
                 (''principal_id'', pc_principal_id context), (''person_id'', pc_person_id context),
                 (''roles'', JArr (pc_roles context)), (''token_type'', jget claims ''type''),
                 (''exp'', pc_expires_at context)]))))))))"

definition authenticate :: "env \<Rightarrow> jwt_functions option \<Rightarrow> auth_config \<Rightarrow> credentials option \<Rightarrow> json res" where
  "authenticate env jwt auth creds =
     (if auth_mode auth = ''disabled'' then
        (if \<not> unsafe_allow_no_auth auth then
           Inl (HTTPException 500 ''auth disabled but unsafe flag not set'')
         else Inr (service_user ''unauthenticated''))
      else if auth_mode auth = ''static_bearer'' then static_bearer_auth env auth creds
      else if auth_mode auth = ''unison_jwt'' then jwt_auth jwt creds
      else Inl (HTTPException 500 (''unsupported auth mode: '' @ auth_mode auth)))"

section \<open>Authorization\<close>

datatype tier = Read | Run | AdminInstall | AdminRemove

definition tier_name :: "tier \<Rightarrow> string" where
  "tier_name t = (case t of Read \<Rightarrow> ''read'' | Run \<Rightarrow> ''run'' | AdminInstall \<Rightarrow> ''admin_install''
     | AdminRemove \<Rightarrow> ''admin_remove'')"

definition roles_required :: "authz_config \<Rightarrow> tier \<Rightarrow> json list" where
  "roles_required z t = (case t of Read \<Rightarrow> read_roles z | Run \<Rightarrow> run_roles z
     | AdminInstall \<Rightarrow> admin_roles z | AdminRemove \<Rightarrow> admin_roles z)"

definition allowed_services :: "authz_config \<Rightarrow> tier \<Rightarrow> json list" where
  "allowed_services z t = (case t of AdminInstall \<Rightarrow> install_allowed_services z
     | AdminRemove \<Rightarrow> remove_allowed_services z | _ \<Rightarrow> [])"

text \<open>\<open>username in set(services)\<close>: every service name is hashed.\<close>

definition in_service_set :: "string \<Rightarrow> json list \<Rightarrow> bool res" where
  "in_service_set name services =
     (case find (\<lambda>x. \<not> hashable x) services of
        Some x \<Rightarrow> Inl (unhashable x)
      | None \<Rightarrow> Inr (list_ex (py_eq (JStr name)) services))"

definition deny :: "string \<Rightarrow> exc" where
  "deny detail = HTTPException 403 detail"

definition require_tier :: "authz_config \<Rightarrow> tier \<Rightarrow> json \<Rightarrow> json res" where
  "require_tier z t user =
     rbind (py_iter (py_or (jget user ''roles'') (JArr []))) (\<lambda>roles.
     let user_roles = map py_str roles;
         username = str_or_empty (jget user ''username'');
         denied = Inl (deny (''insufficient permissions for '' @ tier_name t))
     in if list_ex (\<lambda>r. list_ex (\<lambda>s. py_eq r (JStr s)) user_roles) (roles_required z t) then Inr user
        else if allowed_services z t \<noteq> [] \<and> username \<noteq> [] then
          rbind (in_service_set username (allowed_services z t)) (\<lambda>hit. if hit then Inr user else denied)
        else denied)"

text \<open>
  What FastAPI injects into a route: the authenticated user, checked against the tier. The
  tier is named by a text; a name that is no tier is an error of the program.
\<close>

type_synonym dependency = "credentials option \<Rightarrow> json res"

definition authz_dependency :: "authz_config \<Rightarrow> tier \<Rightarrow> dependency \<Rightarrow> dependency" where
  "authz_dependency z t authn creds = rbind (authn creds) (require_tier z t)"

definition make_authz_dependency :: "authz_config \<Rightarrow> string \<Rightarrow> dependency \<Rightarrow> dependency res" where
  "make_authz_dependency z name authn =
     (case find (\<lambda>t. tier_name t = name) [Read, Run, AdminInstall, AdminRemove] of
        None \<Rightarrow> Inl (PyError ValueError (''unknown tier: '' @ name))
      | Some t \<Rightarrow> Inr (authz_dependency z t authn))"

record security_deps =
  sd_authn :: dependency
  sd_read :: dependency
  sd_run :: dependency
  sd_admin_install :: dependency
  sd_admin_remove :: dependency

definition security_from_config :: "env \<Rightarrow> jwt_functions option \<Rightarrow> auth_config \<Rightarrow> authz_config \<Rightarrow> security_deps res" where
  "security_from_config env jwt auth z =
     (let authn = authenticate env jwt auth in
      rbind (make_authz_dependency z ''read'' authn) (\<lambda>read.
      rbind (make_authz_dependency z ''run'' authn) (\<lambda>run.
      rbind (make_authz_dependency z ''admin_install'' authn) (\<lambda>admin_install.
      rbind (make_authz_dependency z ''admin_remove'' authn) (\<lambda>admin_remove.
      Inr \<lparr>sd_authn = authn, sd_read = read, sd_run = run, sd_admin_install = admin_install,
        sd_admin_remove = admin_remove\<rparr>)))))"

text \<open>The dependency of a route of a tier.\<close>

fun tier_dep :: "security_deps \<Rightarrow> tier \<Rightarrow> dependency" where
  "tier_dep d Read = sd_read d"
| "tier_dep d Run = sd_run d"
| "tier_dep d AdminInstall = sd_admin_install d"
| "tier_dep d AdminRemove = sd_admin_remove d"

section \<open>Lemmas\<close>

lemma make_authz_known: "make_authz_dependency z (tier_name t) authn = Inr (authz_dependency z t authn)"
  by (cases t) (simp_all add: make_authz_dependency_def tier_name_def)

text \<open>Every route of a tier is behind authentication and the check of that tier.\<close>

lemma security_deps_exact:
  "rbind (security_from_config env jwt auth z) (\<lambda>d. tier_dep d t creds)
     = rbind (authenticate env jwt auth creds) (require_tier z t)"
proof -
  have "security_from_config env jwt auth z = Inr \<lparr>sd_authn = authenticate env jwt auth,
      sd_read = authz_dependency z Read (authenticate env jwt auth),
      sd_run = authz_dependency z Run (authenticate env jwt auth),
      sd_admin_install = authz_dependency z AdminInstall (authenticate env jwt auth),
      sd_admin_remove = authz_dependency z AdminRemove (authenticate env jwt auth)\<rparr>"
    using make_authz_known [of z Read] make_authz_known [of z Run] make_authz_known [of z AdminInstall]
      make_authz_known [of z AdminRemove]
    by (simp add: security_from_config_def tier_name_def Let_def)
  then show ?thesis by (cases t) (simp_all add: authz_dependency_def)
qed

lemma list_ex_JStr: "list_ex (py_eq (JStr s)) (map JStr ss) \<longleftrightarrow> s \<in> set ss"
  by (auto simp: list_ex_iff)

lemma list_ex_JStr_roles:
  "list_ex (\<lambda>r. list_ex (\<lambda>s. py_eq r (JStr s)) us) (map JStr rs) \<longleftrightarrow> list_ex (\<lambda>s. s \<in> set rs) us"
  by (auto simp: list_ex_iff)

lemma hashable_JStr: "find (\<lambda>x. \<not> hashable x) (map JStr ss) = None"
  by (induction ss) auto

text \<open>A configuration whose lists hold texts, and a user with a list of role texts.\<close>

definition text_authz :: "string list \<Rightarrow> string list \<Rightarrow> string list \<Rightarrow> string list \<Rightarrow> string list \<Rightarrow> authz_config" where
  "text_authz rd rn ad ins rem = \<lparr>read_roles = map JStr rd, run_roles = map JStr rn,
     admin_roles = map JStr ad, install_allowed_services = map JStr ins, remove_allowed_services = map JStr rem\<rparr>"

definition text_user :: "string \<Rightarrow> string list \<Rightarrow> json" where
  "text_user name roles = JObj [(''username'', JStr name), (''roles'', JArr (map JStr roles))]"

lemma user_roles_text: "py_iter (py_or (jget (text_user n rs) ''roles'') (JArr [])) = Inr (map JStr rs)"
  by (cases rs) (simp_all add: text_user_def jget_def get_or_def py_or_def)

lemma username_text: "str_or_empty (jget (text_user n rs) ''username'') = n"
  by (simp add: text_user_def jget_def get_or_def)

lemma value_error_mapped:
  "(case x of Inl (PyError ValueError t) \<Rightarrow> Inl e | r \<Rightarrow> r) = Inr p \<longleftrightarrow> x = Inr p"
  by (auto split: sum.splits exc.splits pykind.splits)

text \<open>What a successful JWT authentication has gone through.\<close>

lemma jwt_auth_Inr:
  assumes "jwt_auth jwt creds = Inr user"
  shows "\<exists>f c claims active bound p. jwt = Some f \<and> creds = Some c \<and> verify_token f creds = Inr claims
     \<and> verify_with_service f (cred_token c) = Inr active \<and> truthy (jget active ''valid'')
     \<and> bound = py_or (jget active ''claims'') claims \<and> is_dict bound \<and> principal_of_claims f bound ''capability'' = Inr p
     \<and> user = JObj [(''username'', py_or (pc_login_handle p) (pc_principal_id p)),
          (''principal_id'', pc_principal_id p), (''person_id'', pc_person_id p),
          (''roles'', JArr (pc_roles p)), (''token_type'', jget bound ''type''), (''exp'', pc_expires_at p)]"
proof -
  have valid: "(if truthy a then py_get a ''valid'' else Inr (JBool False)) = Inr v \<and> truthy v
      \<Longrightarrow> truthy (jget a ''valid'')" for a v
    by (auto simp: py_get_def split: if_splits)
  have dict: "as_dict j = Inr b \<longleftrightarrow> b = j \<and> is_dict j" for j b by (auto simp: as_dict_def)
  have guard: "(if \<not> b then Inl e else r) = Inr a \<longleftrightarrow> b \<and> r = Inr a" for b e and r :: "json res" and a by simp
  obtain f where f: "jwt = Some f" using assms by (cases jwt) (simp_all add: jwt_auth_def)
  obtain c where c: "creds = Some c"
    using assms f by (cases creds) (auto simp: jwt_auth_def rbind_eq_Inr)
  show ?thesis
    using assms unfolding f c jwt_auth_def option.case rbind_eq_Inr value_error_mapped dict guard sum.inject
    using valid by blast
qed

section \<open>Properties\<close>

text \<open>
  A tier admits a user exactly when the user has one of the tier's roles or, for
  installing and removing only, is one of the services named for that tier; everyone else
  is refused with status 403.
\<close>

theorem tier_exact:
  "require_tier (text_authz rd rn ad ins rem) t (text_user name roles) =
     (if (case t of Read \<Rightarrow> list_ex (\<lambda>r. r \<in> set rd) roles | Run \<Rightarrow> list_ex (\<lambda>r. r \<in> set rn) roles
          | AdminInstall \<Rightarrow> list_ex (\<lambda>r. r \<in> set ad) roles \<or> (name \<noteq> [] \<and> name \<in> set ins)
          | AdminRemove \<Rightarrow> list_ex (\<lambda>r. r \<in> set ad) roles \<or> (name \<noteq> [] \<and> name \<in> set rem))
      then Inr (text_user name roles)
      else Inl (HTTPException 403 (''insufficient permissions for '' @ tier_name t)))"
  unfolding require_tier_def user_roles_text username_text Let_def rbind_Inr
  by (cases t)
     (auto simp: roles_required_def allowed_services_def text_authz_def list_ex_JStr_roles in_service_set_def
        hashable_JStr list_ex_JStr comp_def deny_def)

text \<open>
  Static bearer authentication lets a caller in exactly when the environment is not
  production, the scheme is bearer, and the token equals the configured, nonempty one; and
  with the default tiers such a caller, like the unauthenticated user of the disabled mode,
  may read and run but neither install nor remove.
\<close>

theorem static_bearer_exact:
  "(static_bearer_auth env auth creds = Inr user \<longleftrightarrow>
      str_lower (getenv env ''ENVIRONMENT'' ''development'') \<notin> {''prod'', ''production''}
      \<and> (case creds of None \<Rightarrow> False | Some c \<Rightarrow> str_lower (cred_scheme c) = ''bearer''
           \<and> cred_token c \<noteq> [] \<and> static_bearer_token auth = Some (cred_token c))
      \<and> user = service_user ''static-bearer'')
   \<and> list_all (\<lambda>n. require_tier default_authz Read (service_user n) = Inr (service_user n)
        \<and> require_tier default_authz Run (service_user n) = Inr (service_user n)
        \<and> require_tier default_authz AdminInstall (service_user n)
            = Inl (HTTPException 403 ''insufficient permissions for admin_install'')
        \<and> require_tier default_authz AdminRemove (service_user n)
            = Inl (HTTPException 403 ''insufficient permissions for admin_remove''))
      [''static-bearer'', ''unauthenticated'']"
proof
  show "static_bearer_auth env auth creds = Inr user \<longleftrightarrow>
      str_lower (getenv env ''ENVIRONMENT'' ''development'') \<notin> {''prod'', ''production''}
      \<and> (case creds of None \<Rightarrow> False | Some c \<Rightarrow> str_lower (cred_scheme c) = ''bearer''
           \<and> cred_token c \<noteq> [] \<and> static_bearer_token auth = Some (cred_token c))
      \<and> user = service_user ''static-bearer''"
    by (auto simp: static_bearer_auth_def split: option.splits if_splits)
qed code_simp

text \<open>
  C35: no configuration of the authentication mode and no credentials admit a request
  without a check: when authentication succeeds, either the unsafe flag is set in the
  disabled mode, or the static token matched outside production, or the token was verified,
  the identity service holds its session for valid, and unison_common bound the claims to a
  principal for the audience "capability". In the first two cases the user is the fixed service user; in
  the last one it is made of that principal and of nothing the caller chose, the type
  of the token apart, which is that of the claims.
\<close>

theorem authenticated_only_by_check:
  "case authenticate env jwt auth creds of
     Inl e \<Rightarrow> True
   | Inr user \<Rightarrow>
       (auth_mode auth = ''disabled'' \<and> unsafe_allow_no_auth auth \<and> user = service_user ''unauthenticated'')
       \<or> (auth_mode auth = ''static_bearer'' \<and> static_bearer_token auth = map_option cred_token creds \<and> creds \<noteq> None
          \<and> str_lower (getenv env ''ENVIRONMENT'' ''development'') \<notin> {''prod'', ''production''}
          \<and> user = service_user ''static-bearer'')
       \<or> (auth_mode auth = ''unison_jwt''
          \<and> (case (jwt, creds) of
               (Some f, Some c) \<Rightarrow>
                 (case (verify_token f creds, verify_with_service f (cred_token c)) of
                    (Inr claims, Inr active) \<Rightarrow>
                      let bound = py_or (jget active ''claims'') claims in
                      truthy (jget active ''valid'') \<and> is_dict bound
                      \<and> (case principal_of_claims f bound ''capability'' of
                            Inl e \<Rightarrow> False
                          | Inr p \<Rightarrow>
                              user = JObj [(''username'', py_or (pc_login_handle p) (pc_principal_id p)),
                                (''principal_id'', pc_principal_id p), (''person_id'', pc_person_id p),
                                (''roles'', JArr (pc_roles p)), (''token_type'', jget bound ''type''),
                                (''exp'', pc_expires_at p)])
                  | _ \<Rightarrow> False)
             | _ \<Rightarrow> False))"
proof (cases "authenticate env jwt auth creds")
  case (Inr user)
  consider "auth_mode auth = ''disabled''" | "auth_mode auth = ''static_bearer''" | "auth_mode auth = ''unison_jwt''"
    using Inr by (auto simp: authenticate_def split: if_splits)
  then show ?thesis
  proof cases
    case 3
    with Inr have jwt: "jwt_auth jwt creds = Inr user" by (simp add: authenticate_def)
    from jwt_auth_Inr [OF this] 3 show ?thesis unfolding Inr sum.case by (elim exE conjE) (simp add: Let_def)
  qed (use Inr in \<open>auto simp: authenticate_def static_bearer_auth_def split: option.splits if_splits\<close>)
qed simp

end
