(* ===== verification/Targets.thy ===== *)
theory Targets
  imports Prelude Json
begin

text \<open>
  src/semantic_targets.py: bindings of an observed target to a person, a capability and a
  state for a short time. The keyed hash of the standard library (HMAC-SHA256) is a
  parameter \<open>mac\<close> from a secret and a message to the hexadecimal digest. \<open>now\<close> is
  \<open>int(self._clock())\<close>.
\<close>

section \<open>The code\<close>

record target_binding =
  capability :: string
  target_id :: string
  person_id :: string
  state_version :: string
  expires_at :: int
  authority_token :: string

text \<open>\<open>SemanticTargetAuthority(secret)\<close>: the secret has at least 32 bytes.\<close>

definition new_authority :: "string \<Rightarrow> string res" where
  "new_authority secret =
     (if length secret < 32 then
        Inl (PyError ValueError ''target authority secret must contain at least 32 bytes'')
      else Inr secret)"

definition target_payload :: "string \<Rightarrow> string \<Rightarrow> string \<Rightarrow> string \<Rightarrow> int \<Rightarrow> json" where
  "target_payload cap target person version expires =
     JObj [(''capability'', JStr cap), (''target_id'', JStr target), (''person_id'', JStr person),
           (''state_version'', JStr version), (''expires_at'', JInt expires)]"

definition target_signature :: "(string \<Rightarrow> string \<Rightarrow> string) \<Rightarrow> string \<Rightarrow> json \<Rightarrow> string" where
  "target_signature mac secret payload = mac secret (json_dumps True payload)"

definition bind_target ::
    "(string \<Rightarrow> string \<Rightarrow> string) \<Rightarrow> string \<Rightarrow> int \<Rightarrow> string \<Rightarrow> string \<Rightarrow> string \<Rightarrow> string \<Rightarrow> int \<Rightarrow> target_binding" where
  "bind_target mac secret now cap target person version ttl_seconds =
     (let expires = now + ttl_seconds in
      \<lparr>capability = cap, target_id = target, person_id = person, state_version = version,
       expires_at = expires,
       authority_token = target_signature mac secret (target_payload cap target person version expires)\<rparr>)"

text \<open>\<open>hmac.compare_digest(a, b)\<close> on texts: both must be ASCII.\<close>

definition is_ascii :: "string \<Rightarrow> bool" where
  "is_ascii s = list_all (\<lambda>c. code c < 128) s"

definition compare_digest :: "string \<Rightarrow> string \<Rightarrow> bool res" where
  "compare_digest a b =
     (if is_ascii a \<and> is_ascii b then Inr (a = b)
      else Inl (type_error ''comparing strings with non-ASCII characters is not supported''))"

definition binding_payload :: "target_binding \<Rightarrow> json" where
  "binding_payload b =
     target_payload (capability b) (target_id b) (person_id b) (state_version b) (expires_at b)"

definition authorize_target ::
    "(string \<Rightarrow> string \<Rightarrow> string) \<Rightarrow> string \<Rightarrow> int \<Rightarrow> target_binding \<Rightarrow> string \<Rightarrow> string \<Rightarrow> string \<Rightarrow> unit res" where
  "authorize_target mac secret now b cap person current_state_version =
     rbind (compare_digest (authority_token b) (target_signature mac secret (binding_payload b))) (\<lambda>same.
     if \<not> same then Inl (TargetBindingError ''target binding signature is invalid'')
     else if expires_at b \<le> now then
       Inl (TargetBindingError ''target binding expired; observe the target again'')
     else if person_id b \<noteq> person \<or> capability b \<noteq> cap then
       Inl (TargetBindingError ''target authority does not match the person or capability'')
     else if state_version b \<noteq> current_state_version then
       Inl (TargetBindingError ''target state changed; observe the target again'')
     else Inr ())"

section \<open>The canonical text of a payload determines the payload\<close>

lemma hex_digit_inject: "m < 16 \<Longrightarrow> n < 16 \<Longrightarrow> hex_digit m = hex_digit n \<Longrightarrow> m = n"
  by (auto simp: hex_digit_def split: if_splits dest!: arg_cong [where f = "\<lambda>c. code c"] simp: of_char_of)

lemma hex2_inject:
  assumes "m < 256" "n < 256" "hex2 m = hex2 n"
  shows "m = n"
proof -
  from assms(3) have "hex_digit (m div 16) = hex_digit (n div 16)" "hex_digit (m mod 16) = hex_digit (n mod 16)"
    by (simp_all add: hex2_def)
  with assms(1,2) have "m div 16 = n div 16" "m mod 16 = n mod 16"
    by (auto intro: hex_digit_inject)
  then show ?thesis by (metis div_mult_mod_eq)
qed

lemma length_hex2 [simp]: "length (hex2 n) = 2"
  by (simp add: hex2_def)

lemma code_inject: "code c = code d \<Longrightarrow> c = d"
  by (metis char_of_char)

text \<open>The escapes are a prefix code, and none of them starts with a quote.\<close>

lemma json_char_quote: "json_char asc c @ x \<noteq> CHR 0x22 # y"
  by (auto simp: json_char_def Let_def)

lemma json_char_shape:
  "(\<exists>e. json_char asc c = [CHR 0x5C, e] \<and> e \<noteq> CHR ''u'' \<and>
      code c = (if e = CHR 0x22 then 34 else if e = CHR 0x5C then 92 else if e = CHR ''n'' then 10
        else if e = CHR ''r'' then 13 else if e = CHR ''t'' then 9 else if e = CHR ''f'' then 12 else 8))
   \<or> json_char asc c = [CHR 0x5C, CHR ''u'', CHR ''0'', CHR ''0''] @ hex2 (code c)
   \<or> json_char asc c = [c] \<and> c \<noteq> CHR 0x5C"
  by (simp add: json_char_def Let_def) (auto simp: code_inject)

lemma json_char_cases:
  obtains e where "json_char asc c = [CHR 0x5C, e]" "e \<noteq> CHR ''u''"
      "code c = (if e = CHR 0x22 then 34 else if e = CHR 0x5C then 92 else if e = CHR ''n'' then 10
        else if e = CHR ''r'' then 13 else if e = CHR ''t'' then 9 else if e = CHR ''f'' then 12 else (8::nat))"
  | "json_char asc c = [CHR 0x5C, CHR ''u'', CHR ''0'', CHR ''0''] @ hex2 (code c)"
  | "json_char asc c = [c]" "c \<noteq> CHR 0x5C"
  using json_char_shape [of asc c] by blast

lemma json_char_inject:
  assumes eq: "json_char asc c @ x = json_char asc d @ y"
  shows "c = d \<and> x = y"
proof (cases rule: json_char_cases [of asc c])
  case (1 e)
  note c = 1
  show ?thesis
  proof (cases rule: json_char_cases [of asc d])
    case (1 e')
    with c eq have "e' = e" "x = y" by simp_all
    with c 1 have "code c = code d" by presburger
    with \<open>x = y\<close> show ?thesis using code_inject by blast
  qed (use c eq in auto)
next
  case 2
  note c = 2
  show ?thesis
  proof (cases rule: json_char_cases [of asc d])
    case 2
    with c eq have "hex2 (code c) = hex2 (code d)" "x = y" by simp_all
    then show ?thesis
      using hex2_inject [OF nat_of_char_less_256 nat_of_char_less_256, of c d] code_inject by blast
  qed (use c eq in auto)
next
  case 3
  note c = 3
  show ?thesis
    by (cases rule: json_char_cases [of asc d]) (use c eq in auto)
qed

lemma json_string_inject:
  "concat (map (json_char asc) s) @ CHR 0x22 # x = concat (map (json_char asc) t) @ CHR 0x22 # y
   \<Longrightarrow> s = t \<and> x = y"
proof (induction s arbitrary: t)
  case Nil
  show ?case
  proof (cases t)
    case Nil
    with \<open>concat (map (json_char asc) []) @ CHR 0x22 # x = _\<close> show ?thesis by simp
  next
    case (Cons d t')
    with \<open>concat (map (json_char asc) []) @ CHR 0x22 # x = _\<close>
    have "json_char asc d @ (concat (map (json_char asc) t') @ CHR 0x22 # y) = CHR 0x22 # x" by simp
    then show ?thesis using json_char_quote by blast
  qed
next
  case (Cons c s)
  show ?case
  proof (cases t)
    case Nil
    with Cons.prems have "json_char asc c @ (concat (map (json_char asc) s) @ CHR 0x22 # x) = CHR 0x22 # y"
      by simp
    then show ?thesis using json_char_quote by blast
  next
    case (Cons d t')
    with Cons.prems have "json_char asc c @ concat (map (json_char asc) s) @ CHR 0x22 # x
        = json_char asc d @ concat (map (json_char asc) t') @ CHR 0x22 # y" by simp
    from json_char_inject [OF this] Cons.IH [of t'] Cons show ?thesis by auto
  qed
qed

lemma json_string_append_inject:
  "json_string asc s @ x = json_string asc t @ y \<Longrightarrow> s = t \<and> x = y"
  using json_string_inject [of asc s x t y] by (simp add: json_string_def)

text \<open>The digits of a number end at the first character that is no digit.\<close>

lemma nat_digits_append_inject:
  assumes "nat_digits m @ a # x = nat_digits n @ b # y" "\<not> is_digit a" "\<not> is_digit b"
  shows "m = n \<and> a # x = b # y"
proof -
  have t: "takeWhile is_digit (nat_digits k @ c # z) = nat_digits k" if "\<not> is_digit c" for k c z
    using that nat_digits_are_digits [of _ k] by (simp add: takeWhile_tail takeWhile_eq_all_conv)
  have "nat_digits m = nat_digits n"
    using assms t by metis
  with assms(1) show ?thesis by simp
qed

lemma int_str_append_inject:
  assumes "int_str i @ a # x = int_str j @ b # y" "\<not> is_digit a" "\<not> is_digit b"
  shows "i = j \<and> a # x = b # y"
proof -
  have no_minus: "nat_digits k @ v \<noteq> CHR ''-'' # u" for u k v
  proof
    assume eq: "nat_digits k @ v = CHR ''-'' # u"
    obtain c r where c: "nat_digits k = c # r"
      using nat_digits_not_Nil by (meson list.exhaust)
    then have "is_digit c" using nat_digits_are_digits [of c k] by simp
    moreover from eq c have "c = CHR ''-''" by simp
    ultimately show False by (simp add: is_digit_def)
  qed
  note nd = nat_digits_append_inject [OF _ assms(2,3)]
  show ?thesis
  proof (cases "i < 0")
    case True
    with assms(1) no_minus have j: "j < 0"
      by (metis append_Cons int_str_def)
    with True assms(1) have "nat_digits (nat (- i)) @ a # x = nat_digits (nat (- j)) @ b # y"
      by (simp add: int_str_def)
    from nd [OF this] True j show ?thesis by auto
  next
    case False
    with assms(1) no_minus have j: "\<not> j < 0"
      by (metis append_Cons int_str_def)
    with False assms(1) have "nat_digits (nat i) @ a # x = nat_digits (nat j) @ b # y"
      by (simp add: int_str_def)
    from nd [OF this] False j show ?thesis by auto
  qed
qed

lemma json_string_inject_simp [simp]: "json_string asc s = json_string asc t \<longleftrightarrow> s = t"
  using json_string_append_inject [of asc s "[]" t "[]"] by auto

lemma target_payload_dumps:
  "json_dumps True (target_payload c t p v e) =
     ''{'' @ json_string True ''capability'' @ '':'' @ json_string True c @ '',''
     @ json_string True ''expires_at'' @ '':'' @ int_str e @ '',''
     @ json_string True ''person_id'' @ '':'' @ json_string True p @ '',''
     @ json_string True ''state_version'' @ '':'' @ json_string True v @ '',''
     @ json_string True ''target_id'' @ '':'' @ json_string True t @ ''}''"
  by (simp add: target_payload_def sort_key_def insort_key_def)

lemma binding_payload_inject:
  assumes "json_dumps True (binding_payload a) = json_dumps True (binding_payload b)"
  shows "binding_payload a = binding_payload b"
  using assms unfolding binding_payload_def target_payload_dumps
  by (auto simp: is_digit_def target_payload_def dest!: json_string_append_inject int_str_append_inject)

lemma authorize_target_iff:
  "authorize_target mac secret now b cap person version = Inr () \<longleftrightarrow>
     is_ascii (authority_token b)
     \<and> is_ascii (mac secret (json_dumps True (binding_payload b)))
     \<and> authority_token b = mac secret (json_dumps True (binding_payload b))
     \<and> now < expires_at b \<and> person_id b = person \<and> capability b = cap \<and> state_version b = version"
  by (simp add: authorize_target_def compare_digest_def target_signature_def not_le) auto

section \<open>Properties\<close>

text \<open>
  A binding is accepted exactly when its token is the keyed hash of its own five
  fields and it is unexpired, for this person, this capability and the current state; it is
  refused in every other case, and nothing but the binding's own fields is consulted.
\<close>

theorem target_authorize_exact:
  "authorize_target mac secret now b cap person version = Inr () \<longleftrightarrow>
     is_ascii (authority_token b)
     \<and> authority_token b = mac secret (json_dumps True (binding_payload b))
     \<and> now < expires_at b \<and> person_id b = person \<and> capability b = cap \<and> state_version b = version"
  by (auto simp: authorize_target_iff)

text \<open>
  C34: no field of an issued binding can be altered while keeping its token: a binding
  that is accepted with the token of an issued one is the issued one, or else its payload
  and the issued payload are a collision of HMAC-SHA256: two different canonical texts, of
  just these two bindings, with the same keyed hash.
\<close>

theorem target_tamper_evident:
  assumes "authority_token b = authority_token (bind_target mac secret issued cap target person version ttl)"
    and "authorize_target mac secret now b cap' person' version' = Inr ()"
  shows "let i = bind_target mac secret issued cap target person version ttl;
       sent = json_dumps True (binding_payload b); signed = json_dumps True (binding_payload i) in
     if b = i then sent = signed else sent \<noteq> signed \<and> mac secret sent = mac secret signed"
proof -
  let ?i = "bind_target mac secret issued cap target person version ttl"
  have "authority_token ?i = mac secret (json_dumps True (binding_payload ?i))"
    by (simp add: bind_target_def Let_def target_signature_def binding_payload_def)
  moreover have "authority_token b = mac secret (json_dumps True (binding_payload b))"
    using assms(2) by (simp add: authorize_target_iff)
  moreover have "json_dumps True (binding_payload b) \<noteq> json_dumps True (binding_payload ?i)" if "b \<noteq> ?i"
  proof
    assume "json_dumps True (binding_payload b) = json_dumps True (binding_payload ?i)"
    then have "binding_payload b = binding_payload ?i" by (rule binding_payload_inject)
    with assms(1) that show False by (simp add: binding_payload_def target_payload_def)
  qed
  ultimately show ?thesis using assms(1) by (auto simp: Let_def)
qed

text \<open>
  Under a keyed hash without collisions the issued binding is the only one its token admits;
  under one that ignores the message, another one is accepted, and it is a collision.
\<close>

lemma target_tamper_evident_witness:
  "(\<forall>b. let i = bind_target (\<lambda>k m. k @ m) ''k'' 100 ''mail.send'' ''t1'' ''ada'' ''v7'' 60 in
       if authority_token b = authority_token i \<and> is_ok (authorize_target (\<lambda>k m. k @ m) ''k'' 159 b ''mail.send'' ''ada'' ''v7'')
       then b = i else True)
   \<and> (let i = bind_target (\<lambda>k m. ''00'') ''k'' 100 ''mail.send'' ''t1'' ''ada'' ''v7'' 60; b = i\<lparr>target_id := ''t2''\<rparr> in
       authorize_target (\<lambda>k m. ''00'') ''k'' 159 b ''mail.send'' ''ada'' ''v7'' = Inr ()
       \<and> json_dumps True (binding_payload b) \<noteq> json_dumps True (binding_payload i))"
proof
  let ?inj = "bind_target (\<lambda>k m. k @ m) ''k'' 100 ''mail.send'' ''t1'' ''ada'' ''v7'' 60"
  show "\<forall>b. let i = bind_target (\<lambda>k m. k @ m) ''k'' 100 ''mail.send'' ''t1'' ''ada'' ''v7'' 60 in
       if authority_token b = authority_token i \<and> is_ok (authorize_target (\<lambda>k m. k @ m) ''k'' 159 b ''mail.send'' ''ada'' ''v7'')
       then b = i else True"
  proof
    fix b
    show "let i = bind_target (\<lambda>k m. k @ m) ''k'' 100 ''mail.send'' ''t1'' ''ada'' ''v7'' 60 in
       if authority_token b = authority_token i \<and> is_ok (authorize_target (\<lambda>k m. k @ m) ''k'' 159 b ''mail.send'' ''ada'' ''v7'')
       then b = i else True"
    proof (cases "authority_token b = authority_token ?inj \<and> is_ok (authorize_target (\<lambda>k m. k @ m) ''k'' 159 b ''mail.send'' ''ada'' ''v7'')")
      case True
      then have "authority_token b = authority_token ?inj" "authorize_target (\<lambda>k m. k @ m) ''k'' 159 b ''mail.send'' ''ada'' ''v7'' = Inr ()"
        by (simp_all add: is_ok_iff)
      from target_tamper_evident [OF this] show ?thesis by (auto simp: Let_def split: if_splits)
    qed (auto simp: Let_def)
  qed
  let ?i = "bind_target (\<lambda>k m. ''00'') ''k'' 100 ''mail.send'' ''t1'' ''ada'' ''v7'' 60"
  let ?b = "?i\<lparr>target_id := ''t2''\<rparr>"
  have ok: "authorize_target (\<lambda>k m. ''00'') ''k'' 159 ?b ''mail.send'' ''ada'' ''v7'' = Inr ()" by code_simp
  have token: "authority_token ?b = authority_token ?i" by simp
  have "?b \<noteq> ?i" by code_simp
  with target_tamper_evident [OF token ok] ok show "let i = ?i; b = i\<lparr>target_id := ''t2''\<rparr> in
       authorize_target (\<lambda>k m. ''00'') ''k'' 159 b ''mail.send'' ''ada'' ''v7'' = Inr ()
       \<and> json_dumps True (binding_payload b) \<noteq> json_dumps True (binding_payload i)"
    by (simp add: Let_def)
qed

text \<open>
  The lifetime of a binding: authorized by the issuing authority for the same person,
  capability and state, it is accepted at every time before \<open>issued + ttl\<close> and refused
  as expired from then on.
\<close>

theorem target_lifetime:
  assumes "\<And>k m. is_ascii (mac k m)"
  shows "authorize_target mac secret now (bind_target mac secret issued cap target person version ttl)
       cap person version =
     (if now < issued + ttl then Inr ()
      else Inl (TargetBindingError ''target binding expired; observe the target again''))"
  using assms
  by (auto simp: authorize_target_def compare_digest_def target_signature_def binding_payload_def
      bind_target_def Let_def)

lemma target_lifetime_witness:
  "authorize_target (\<lambda>k m. ''00'') ''k'' 160 (bind_target (\<lambda>k m. ''00'') ''k'' 100 ''c'' ''t'' ''p'' ''v'' 60)
       ''c'' ''p'' ''v'' = Inl (TargetBindingError ''target binding expired; observe the target again'')"
proof -
  have "is_ascii ''00''" by code_simp
  from target_lifetime [of "\<lambda>k m. ''00''" "''k''" 160 100 "''c''" "''t''" "''p''" "''v''" 60, OF this]
  show ?thesis by simp
qed

end
