(* ===== verification/Ecosystem.thy ===== *)
theory Ecosystem
  imports Governance
begin

text \<open>
  src/ecosystem.py: signed manifests, permission review, compatibility and revocation.
  The Ed25519 keys of the package cryptography are parameters: \<open>sign\<close> maps a message to a
  signature and \<open>verify pk sig msg\<close> says whether verification succeeds. Byte strings are
  lists of characters; Base64 is modelled in full.
\<close>

section \<open>Base64\<close>

definition b64_char :: "nat \<Rightarrow> char" where
  "b64_char n = char_of (if n < 26 then 65 + n else if n < 52 then 71 + n
     else if n < 62 then n - 4 else if n = 62 then 43 else 47)"

definition b64_val :: "char \<Rightarrow> nat option" where
  "b64_val c =
     (let n = code c in
      if 65 \<le> n \<and> n \<le> 90 then Some (n - 65)
      else if 97 \<le> n \<and> n \<le> 122 then Some (n - 71)
      else if 48 \<le> n \<and> n \<le> 57 then Some (n + 4)
      else if n = 43 then Some 62 else if n = 47 then Some 63 else None)"

fun b64encode :: "string \<Rightarrow> string" where
  "b64encode [] = []"
| "b64encode [a] = [b64_char (code a div 4), b64_char (code a mod 4 * 16), CHR ''='', CHR ''='']"
| "b64encode [a, b] =
     [b64_char (code a div 4), b64_char (code a mod 4 * 16 + code b div 16),
      b64_char (code b mod 16 * 4), CHR ''='']"
| "b64encode (a # b # c # r) =
     b64_char (code a div 4) # b64_char (code a mod 4 * 16 + code b div 16)
     # b64_char (code b mod 16 * 4 + code c div 64) # b64_char (code c mod 64) # b64encode r"

text \<open>\<open>base64.b64decode(s, validate=True)\<close>; None raises binascii.Error, a ValueError.\<close>

definition b64_two :: "char \<Rightarrow> char \<Rightarrow> string option" where
  "b64_two c1 c2 = (case (b64_val c1, b64_val c2) of
      (Some x, Some y) \<Rightarrow> Some [char_of (x * 4 + y div 16)] | _ \<Rightarrow> None)"

definition b64_three :: "char \<Rightarrow> char \<Rightarrow> char \<Rightarrow> string option" where
  "b64_three c1 c2 c3 = (case (b64_val c1, b64_val c2, b64_val c3) of
      (Some x, Some y, Some z) \<Rightarrow> Some [char_of (x * 4 + y div 16), char_of (y mod 16 * 16 + z div 4)]
    | _ \<Rightarrow> None)"

definition b64_four :: "char \<Rightarrow> char \<Rightarrow> char \<Rightarrow> char \<Rightarrow> string option" where
  "b64_four c1 c2 c3 c4 = (case (b64_val c1, b64_val c2, b64_val c3, b64_val c4) of
      (Some x, Some y, Some z, Some u) \<Rightarrow>
        Some [char_of (x * 4 + y div 16), char_of (y mod 16 * 16 + z div 4), char_of (z mod 4 * 64 + u)]
    | _ \<Rightarrow> None)"

fun b64decode :: "string \<Rightarrow> string option" where
  "b64decode [] = Some []"
| "b64decode (c1 # c2 # c3 # c4 # r) =
     (if r = [] \<and> c4 = CHR ''='' then
        (if c3 = CHR ''='' then b64_two c1 c2 else b64_three c1 c2 c3)
      else (case (b64_four c1 c2 c3 c4, b64decode r) of
          (Some x, Some y) \<Rightarrow> Some (x @ y) | _ \<Rightarrow> None))"
| "b64decode _ = None"

lemma b64_val_char [simp]: "n < 64 \<Longrightarrow> b64_val (b64_char n) = Some n"
  by (auto simp: b64_val_def b64_char_def of_char_of Let_def)

lemma b64_char_not_pad: "n < 64 \<Longrightarrow> b64_char n \<noteq> CHR ''=''"
proof
  assume "n < 64" and "b64_char n = CHR ''=''"
  then have "b64_val (CHR ''='') = Some n" using b64_val_char by metis
  then show False by (simp add: b64_val_def)
qed

lemma b64_join:
  fixes a b :: nat
  assumes "a < 256" "b < 256"
  shows "a div 4 * 4 + (a mod 4 * 16 + b div 16) div 16 = a"
    and "(a mod 4 * 16 + b div 16) mod 16 * 16 + b mod 16 * 4 div 4 = b"
    and "a mod 4 * 16 + b div 16 < 64"
proof -
  have "b div 16 < 16" using assms by auto
  then show "a div 4 * 4 + (a mod 4 * 16 + b div 16) div 16 = a" by simp
  from \<open>b div 16 < 16\<close> show "(a mod 4 * 16 + b div 16) mod 16 * 16 + b mod 16 * 4 div 4 = b"
    by simp
  have "a mod 4 < 4" by simp
  with \<open>b div 16 < 16\<close> show "a mod 4 * 16 + b div 16 < 64" by linarith
qed

lemma b64_join3:
  fixes b c :: nat
  assumes "b < 256" "c < 256"
  shows "(b mod 16 * 4 + c div 64) div 4 = b mod 16"
    and "(b mod 16 * 4 + c div 64) mod 4 * 64 + c mod 64 = c"
    and "b mod 16 * 4 + c div 64 < 64"
proof -
  have *: "c div 64 < 4" using assms by auto
  then show "(b mod 16 * 4 + c div 64) div 4 = b mod 16" by simp
  from * show "(b mod 16 * 4 + c div 64) mod 4 * 64 + c mod 64 = c" by simp
  have "b mod 16 < 16" by simp
  with * show "b mod 16 * 4 + c div 64 < 64" by linarith
qed

lemma b64_one: "a < (256::nat) \<Longrightarrow> a div 4 < 64 \<and> a div 4 * 4 + a mod 4 * 16 div 16 = a \<and> a mod 4 * 16 < 64"
  by auto

lemma mod16_times4: "b mod 16 * 4 < (64::nat)"
proof -
  have "b mod 16 < 16" by simp
  then show ?thesis by linarith
qed

text \<open>Decoding undoes encoding on every byte string.\<close>

lemma b64decode_b64encode: "b64decode (b64encode s) = Some s"
proof (induction s rule: b64encode.induct)
  case 1
  then show ?case by simp
next
  case (2 a)
  then show ?case
    using b64_one [of "code a"] by (simp add: b64_two_def)
next
  case (3 a b)
  have "b64_char (code b mod 16 * 4) \<noteq> CHR ''=''"
    by (rule b64_char_not_pad) (rule mod16_times4)
  then show ?case
    using b64_join [of "code a" "code b"] b64_one [of "code a"] mod16_times4 [of "code b"]
    by (simp add: b64_three_def)
next
  case (4 a b c r)
  have last: "b64_char (code c mod 64) \<noteq> CHR ''=''" by (rule b64_char_not_pad) simp
  have small: "code b div 16 < 16" "code c div 64 < 4"
    using nat_of_char_less_256 [of b] nat_of_char_less_256 [of c] by linarith+
  then have mods: "code b div 16 mod 16 = code b div 16" "code c div 64 mod 4 = code c div 64"
    by simp_all
  have "b64_four (b64_char (code a div 4)) (b64_char (code a mod 4 * 16 + code b div 16))
      (b64_char (code b mod 16 * 4 + code c div 64)) (b64_char (code c mod 64)) = Some [a, b, c]"
    using b64_join [of "code a" "code b"] b64_join3 [of "code b" "code c"] b64_one [of "code a"]
    by (simp add: b64_four_def mods)
  with 4 last show ?case by simp
qed

section \<open>Canonical form and signatures\<close>

definition permission_fields :: "string list" where
  "permission_fields =
     [''actions'', ''data_read'', ''data_write'', ''recipient_classes'', ''egress'', ''filesystem'', ''devices'']"

definition drop_key :: "string \<Rightarrow> json \<Rightarrow> json" where
  "drop_key k m = JObj (dpop k (entries m))"

text \<open>
  \<open>json.loads(json.dumps(m))\<close> is a deep copy of the value, so the copy is the value itself.
\<close>

definition unsigned :: "json \<Rightarrow> json" where
  "unsigned m =
     (let governance = jget m ''governance'' in
      if is_dict governance then jset ''governance'' (drop_key ''signature'' governance) m else m)"

definition canonical_manifest :: "json \<Rightarrow> string" where
  "canonical_manifest m = json_dumps False (unsigned m)"

definition sign_manifest :: "(string \<Rightarrow> string) \<Rightarrow> json \<Rightarrow> string \<Rightarrow> json res" where
  "sign_manifest sign m publisher =
     (let governance = get_or m ''governance'' (JObj []) in
      if \<not> is_dict governance then
        Inl (type_error ([CHR 0x27] @ type_name governance @ [CHR 0x27] @ '' object does not support item assignment''))
      else
        (let g = drop_key ''signature'' (jset ''publisher'' (JStr publisher) governance);
             signature = sign (canonical_manifest (jset ''governance'' g m))
         in Inr (jset ''governance'' (jset ''signature'' (JStr (''ed25519:'' @ b64encode signature)) g) m)))"

definition verify_manifest_signature ::
    "('pk \<Rightarrow> string \<Rightarrow> string \<Rightarrow> bool) \<Rightarrow> json \<Rightarrow> (string \<times> 'pk) list \<Rightarrow> unit res" where
  "verify_manifest_signature verify m trusted =
     (let governance = jget m ''governance'' in
      if \<not> is_dict governance then policy_error ''capability governance is required''
      else
        (let publisher = jget governance ''publisher''; encoded = jget governance ''signature'' in
         rbind (in_str_set publisher (map fst trusted)) (\<lambda>known.
         case (known, publisher, encoded) of
           (True, JStr p, JStr enc) \<Rightarrow>
             if starts_with ''ed25519:'' enc then
               (case (b64decode (drop 8 enc), dget trusted p) of
                  (Some signature, Some pk) \<Rightarrow>
                    if verify pk signature (canonical_manifest m) then Inr ()
                    else policy_error ''capability signature verification failed''
                | _ \<Rightarrow> policy_error ''capability signature verification failed'')
             else policy_error ''capability publisher or signature is not trusted''
         | _ \<Rightarrow> policy_error ''capability publisher or signature is not trusted'')))"

section \<open>Permission review\<close>

definition str_set :: "json \<Rightarrow> string list res" where
  "str_set j = rbind (py_iter j) (\<lambda>xs. Inr (remdups (map py_str xs)))"

text \<open>The sorted values of a field that are in one set and not in the other.\<close>

definition labelled :: "string \<Rightarrow> string list \<Rightarrow> string list \<Rightarrow> string list" where
  "labelled f xs ys = map (\<lambda>v. f @ '':'' @ v) (sort (filter (\<lambda>v. v \<notin> set ys) xs))"

definition field_diff :: "json \<Rightarrow> json \<Rightarrow> string \<Rightarrow> (string list \<times> string list) res" where
  "field_diff before after f =
     rbind (str_set (get_or before f (JArr []))) (\<lambda>old.
     rbind (str_set (get_or after f (JArr []))) (\<lambda>new.
     Inr (labelled f new old, labelled f old new)))"

definition scalar_diff :: "json \<Rightarrow> json \<Rightarrow> string \<Rightarrow> string list" where
  "scalar_diff before after f =
     (if py_eq (jget before f) (jget after f) then []
      else [f @ '':'' @ py_str (jget before f) @ ''->'' @ py_str (jget after f)])"

record perm_diff =
  added :: "string list"
  removed :: "string list"

definition permission_diff :: "json \<Rightarrow> json \<Rightarrow> perm_diff res" where
  "permission_diff previous candidate =
     (let before = dict_or_empty (jget previous ''governance'');
          after = dict_or_empty (jget candidate ''governance'') in
      rbind (rmapM (field_diff before after) permission_fields) (\<lambda>ds.
      Inr \<lparr>added = concat (map fst ds) @ scalar_diff before after ''risk''
                    @ scalar_diff before after ''confirmation'',
           removed = concat (map snd ds)\<rparr>))"

definition require_permission_review :: "json \<Rightarrow> json \<Rightarrow> bool \<Rightarrow> unit res" where
  "require_permission_review previous candidate approved =
     rbind (permission_diff previous candidate) (\<lambda>diff.
       if added diff \<noteq> [] \<and> \<not> approved then
         policy_error ''capability update expands permissions and requires explicit review''
       else Inr ())"

section \<open>Compatibility and revocation\<close>

definition require_compatibility :: "json \<Rightarrow> int \<Rightarrow> unit res" where
  "require_compatibility m host_api_major =
     (let compatibility = jget m ''compatibility'' in
      if \<not> is_dict compatibility then policy_error ''capability compatibility range is required''
      else
        rbind (py_int (get_or compatibility ''min_host_api'' (JInt (-1)))) (\<lambda>minimum.
        rbind (py_int (get_or compatibility ''max_host_api'' (JInt (-1)))) (\<lambda>maximum.
        if \<not> (minimum \<le> host_api_major \<and> host_api_major \<le> maximum) then
          policy_error ''capability is incompatible with this host''
        else Inr ())))"

text \<open>The registry's state is its set of revoked identities.\<close>

definition revoke :: "string \<Rightarrow> string list \<Rightarrow> string list res" where
  "revoke rid revoked =
     (if rid = [] then policy_error ''revocation identity is required''
      else Inr (List.insert rid revoked))"

definition restore :: "string \<Rightarrow> string list \<Rightarrow> string list" where
  "restore rid revoked = removeAll rid revoked"

definition require_active :: "string list \<Rightarrow> json \<Rightarrow> unit res" where
  "require_active revoked m =
     rbind (py_get (py_or (jget m ''governance'') (JObj [])) ''revocation_id'') (\<lambda>rid.
     rbind (in_str_set rid revoked) (\<lambda>hit.
     if hit then policy_error ''capability is revoked'' else Inr ()))"

datatype rev_op = Revoke string | Restore string

text \<open>A history of calls; a call that raises leaves the set as it was.\<close>

fun rev_step :: "rev_op \<Rightarrow> string list \<Rightarrow> string list" where
  "rev_step (Revoke r) s = (case revoke r s of Inl e \<Rightarrow> s | Inr s' \<Rightarrow> s')"
| "rev_step (Restore r) s = restore r s"

definition rev_run :: "rev_op list \<Rightarrow> string list \<Rightarrow> string list" where
  "rev_run ops s = fold rev_step ops s"

section \<open>Lemmas\<close>

lemma jset_twice: "jset k v (jset k v' m) = jset k v m"
  by (simp add: jset_def)

lemma dpop_idem [simp]: "dpop k (dpop k d) = dpop k d"
  by (induction d) auto

lemma dpop_dset_dpop [simp]: "dpop k (dset k v (dpop k d)) = dpop k d"
  by (induction d) auto

lemma drop_key_jset: "drop_key k (jset k v (drop_key k m)) = drop_key k m"
  by (simp add: drop_key_def jset_def)

lemma jget_drop_key [simp]: "jget (drop_key k m) k' = (if k' = k then JNull else jget m k')"
  by (simp add: drop_key_def jget_def get_or_def)

lemma is_dict_drop_key [simp]: "is_dict (drop_key k m)"
  by (simp add: drop_key_def)

text \<open>The signature is not part of what is signed.\<close>

lemma unsigned_signature:
  assumes "is_dict g"
  shows "unsigned (jset ''governance'' (jset ''signature'' s (drop_key ''signature'' g)) m)
    = unsigned (jset ''governance'' (drop_key ''signature'' g) m)"
  using drop_key_jset [of "''signature''" JNull "g"]
  by (simp add: unsigned_def Let_def jset_twice drop_key_jset)
     (simp add: drop_key_def)

definition perm_field :: "json \<Rightarrow> string \<Rightarrow> json" where
  "perm_field m f = get_or (dict_or_empty (jget m ''governance'')) f (JArr [])"

text \<open>The set of values a manifest grants in a field, and whether its fields can be listed.\<close>

definition granted :: "json \<Rightarrow> string \<Rightarrow> string set" where
  "granted m f = (case str_set (perm_field m f) of Inl e \<Rightarrow> {} | Inr xs \<Rightarrow> set xs)"

definition reviewable :: "json \<Rightarrow> bool" where
  "reviewable m = list_all (\<lambda>f. is_ok (str_set (perm_field m f))) permission_fields"

definition gov_value :: "json \<Rightarrow> string \<Rightarrow> json" where
  "gov_value m f = jget (dict_or_empty (jget m ''governance'')) f"

lemma sort_eq_Nil: "sort xs = [] \<longleftrightarrow> xs = []"
  by (metis length_0_conv length_sort)

lemma labelled_Nil: "labelled f xs ys = [] \<longleftrightarrow> set xs \<subseteq> set ys"
  by (auto simp: labelled_def sort_eq_Nil filter_empty_conv)

lemma set_labelled: "set (labelled f xs ys) = (\<lambda>v. f @ '':'' @ v) ` (set xs - set ys)"
  by (auto simp: labelled_def)

lemma permission_diff_reviewable:
  assumes "reviewable p" and "reviewable c"
  obtains d where "permission_diff p c = Inr d"
    and "added d = [] \<longleftrightarrow> (\<forall>f \<in> set permission_fields. granted c f \<subseteq> granted p f)
         \<and> py_eq (gov_value p ''risk'') (gov_value c ''risk'')
         \<and> py_eq (gov_value p ''confirmation'') (gov_value c ''confirmation'')"
proof -
  let ?b = "dict_or_empty (jget p ''governance'')" and ?a = "dict_or_empty (jget c ''governance'')"
  have each: "\<exists>d. field_diff ?b ?a f = Inr d \<and> (fst d = [] \<longleftrightarrow> granted c f \<subseteq> granted p f)"
    if f: "f \<in> set permission_fields" for f
  proof -
    from assms f obtain old new where "str_set (perm_field p f) = Inr old" "str_set (perm_field c f) = Inr new"
      by (metis (no_types, lifting) reviewable_def list_all_iff is_ok_iff)
    then show ?thesis
      by (simp add: field_diff_def perm_field_def granted_def labelled_Nil)
  qed
  have all: "\<exists>ds. rmapM (field_diff ?b ?a) fs = Inr ds
      \<and> (concat (map fst ds) = [] \<longleftrightarrow> (\<forall>f \<in> set fs. granted c f \<subseteq> granted p f))"
    if "set fs \<subseteq> set permission_fields" for fs
    using that
  proof (induction fs)
    case Nil
    then show ?case by simp
  next
    case (Cons f fs)
    then obtain ds where ds: "rmapM (field_diff ?b ?a) fs = Inr ds"
      "concat (map fst ds) = [] \<longleftrightarrow> (\<forall>f \<in> set fs. granted c f \<subseteq> granted p f)" by auto
    from Cons.prems have "f \<in> set permission_fields" by simp
    from each [OF this] obtain d where "field_diff ?b ?a f = Inr d"
      "fst d = [] \<longleftrightarrow> granted c f \<subseteq> granted p f" by blast
    with ds show ?case by simp
  qed
  from all [of permission_fields] obtain ds where ds: "rmapM (field_diff ?b ?a) permission_fields = Inr ds"
    "concat (map fst ds) = [] \<longleftrightarrow> (\<forall>f \<in> set permission_fields. granted c f \<subseteq> granted p f)" by auto
  have scalar: "scalar_diff ?b ?a f = [] \<longleftrightarrow> py_eq (gov_value p f) (gov_value c f)" for f
    by (simp add: scalar_diff_def gov_value_def)
  show thesis
    by (rule that [of "\<lparr>added = concat (map fst ds) @ scalar_diff ?b ?a ''risk'' @ scalar_diff ?b ?a ''confirmation'',
           removed = concat (map snd ds)\<rparr>"])
       (use ds scalar in \<open>auto simp: permission_diff_def Let_def\<close>)
qed

lemma set_restore: "set (restore r s) = set s - {r}"
  by (simp add: restore_def)

lemma rev_step_other: "op \<noteq> Revoke r \<Longrightarrow> op \<noteq> Restore r \<Longrightarrow> r \<in> set (rev_step op s) \<longleftrightarrow> r \<in> set s"
  by (cases op) (auto simp: revoke_def set_restore policy_error_def)

text \<open>The last call that names an identity decides whether it is revoked.\<close>

fun last_word :: "string \<Rightarrow> rev_op list \<Rightarrow> bool \<Rightarrow> bool" where
  "last_word r [] b = b"
| "last_word r (Revoke x # ops) b = last_word r ops (if x = r then True else b)"
| "last_word r (Restore x # ops) b = last_word r ops (if x = r then False else b)"

lemma rev_run_last_word:
  assumes "r \<noteq> []"
  shows "r \<in> set (rev_run ops s) \<longleftrightarrow> last_word r ops (r \<in> set s)"
proof (induction ops arbitrary: s)
  case Nil
  then show ?case by (simp add: rev_run_def)
next
  case (Cons op ops)
  have "rev_run (op # ops) s = rev_run ops (rev_step op s)" by (simp add: rev_run_def)
  moreover have "r \<in> set (rev_step op s) \<longleftrightarrow>
      (case op of Revoke x \<Rightarrow> if x = r then True else r \<in> set s | Restore x \<Rightarrow> if x = r then False else r \<in> set s)"
    using assms by (cases op) (auto simp: revoke_def set_restore policy_error_def)
  ultimately show ?case using Cons.IH by (cases op) auto
qed

section \<open>Properties\<close>

text \<open>
  C33: a manifest signed for a publisher verifies against any table of trusted
  publishers that lists that publisher with the matching key, whatever signature or
  publisher the manifest carried before.
\<close>

theorem sign_then_verify:
  assumes "\<And>msg. verify pk (sign msg) msg"
    and "dget trusted publisher = Some pk"
    and "sign_manifest sign m publisher = Inr signed"
  shows "verify_manifest_signature verify signed trusted = Inr ()"
proof -
  let ?gov = "get_or m ''governance'' (JObj [])"
  let ?g = "drop_key ''signature'' (jset ''publisher'' (JStr publisher) ?gov)"
  let ?msg = "canonical_manifest (jset ''governance'' ?g m)"
  let ?sig = "JStr (''ed25519:'' @ b64encode (sign ?msg))"
  have signed: "signed = jset ''governance'' (jset ''signature'' ?sig ?g) m"
    using assms(3) by (auto simp: sign_manifest_def Let_def split: if_splits)
  have same: "canonical_manifest signed = ?msg"
    unfolding canonical_manifest_def signed by (simp add: unsigned_signature)
  from assms(2) have "publisher \<in> set (map fst trusted)"
    using dget_mem [OF assms(2)] by force
  then show ?thesis
    using assms(1) [of ?msg] assms(2) same
    by (simp add: verify_manifest_signature_def signed in_str_set_def b64decode_b64encode)
qed

lemma sign_then_verify_witness:
  "verify_manifest_signature (\<lambda>pk s msg. s = pk @ msg)
     (jset ''governance'' (jset ''signature'' (JStr (''ed25519:'' @ b64encode (''k'' @
         canonical_manifest (jset ''governance'' (JObj [(''publisher'', JStr ''p'')]) (JObj [])))))
       (JObj [(''publisher'', JStr ''p'')])) (JObj [])) [(''p'', ''k'')] = Inr ()"
  by (rule sign_then_verify [of "\<lambda>pk s msg. s = pk @ msg" "''k''" "\<lambda>m. ''k'' @ m" _ "''p''" "JObj []"])
     (simp_all add: sign_manifest_def get_or_def drop_key_def jset_def)

text \<open>
  An update that nobody approved passes the permission review exactly when it
  grants nothing in any permission field that the previous version did not grant, and leaves
  risk and confirmation alone; otherwise it is refused with a CapabilityPolicyError, and an
  approved update always passes.
\<close>

theorem unreviewed_update_adds_nothing:
  assumes "reviewable previous" and "reviewable candidate"
  shows "require_permission_review previous candidate approved =
     (if approved
         \<or> (list_all (\<lambda>f. granted candidate f \<subseteq> granted previous f) permission_fields
            \<and> py_eq (gov_value previous ''risk'') (gov_value candidate ''risk'')
            \<and> py_eq (gov_value previous ''confirmation'') (gov_value candidate ''confirmation''))
      then Inr ()
      else Inl (CapabilityPolicyError ''capability update expands permissions and requires explicit review''))"
proof -
  obtain d where "permission_diff previous candidate = Inr d"
    and "added d = [] \<longleftrightarrow> (\<forall>f \<in> set permission_fields. granted candidate f \<subseteq> granted previous f)
         \<and> py_eq (gov_value previous ''risk'') (gov_value candidate ''risk'')
         \<and> py_eq (gov_value previous ''confirmation'') (gov_value candidate ''confirmation'')"
    using permission_diff_reviewable [OF assms] .
  then show ?thesis
    by (auto simp: require_permission_review_def list_all_iff policy_error_def)
qed

lemma unreviewed_update_adds_nothing_witness:
  "require_permission_review (JObj []) (JObj [(''governance'', JObj [(''actions'', JArr [JStr ''send''])])]) False
     = Inl (CapabilityPolicyError ''capability update expands permissions and requires explicit review'')"
proof -
  let ?p = "JObj []" and ?c = "JObj [(''governance'', JObj [(''actions'', JArr [JStr ''send''])])]"
  have ok: "reviewable ?p" "reviewable ?c" by code_simp+
  have "str_set (perm_field ?c ''actions'') = Inr [''send'']"
    "str_set (perm_field ?p ''actions'') = Inr []" by code_simp+
  then have "\<not> granted ?c ''actions'' \<subseteq> granted ?p ''actions''" by (simp add: granted_def)
  then have "\<not> list_all (\<lambda>f. granted ?c f \<subseteq> granted ?p f) permission_fields"
    by (simp add: permission_fields_def)
  with unreviewed_update_adds_nothing [OF ok, of False] show ?thesis by simp
qed

text \<open>
  After any history of revoke and restore calls, a manifest whose revocation
  identity is a nonempty text is refused exactly when the last call naming that identity was
  a revocation (or it was revoked from the start and never restored).
\<close>

theorem revocation_follows_history:
  assumes "jget m ''governance'' = JObj g" and "dget g ''revocation_id'' = Some (JStr (c # rid))"
  shows "require_active (rev_run ops s) m =
     (if last_word (c # rid) ops (c # rid \<in> set s)
      then Inl (CapabilityPolicyError ''capability is revoked'') else Inr ())"
proof -
  from assms have "g \<noteq> []" by auto
  with assms have "py_get (py_or (jget m ''governance'') (JObj [])) ''revocation_id'' = Inr (JStr (c # rid))"
    by (simp add: py_or_def py_get_def jget_def get_or_def)
  then show ?thesis
    using rev_run_last_word [of "c # rid" ops s]
    by (auto simp: require_active_def in_str_set_def policy_error_def)
qed

lemma revocation_follows_history_witness:
  "require_active (rev_run [Revoke ''cap:1'', Restore ''cap:1'', Revoke ''cap:1''] []) (sample_manifest (JInt 10))
     = Inl (CapabilityPolicyError ''capability is revoked'')"
proof -
  have g: "jget (sample_manifest (JInt 10)) ''governance'' = JObj (entries (sample_governance (JInt 10)))"
    by code_simp
  have r: "dget (entries (sample_governance (JInt 10))) ''revocation_id'' = Some (JStr (CHR ''c'' # ''ap:1''))"
    by code_simp
  show ?thesis
    using revocation_follows_history [OF g r, of "[Revoke ''cap:1'', Restore ''cap:1'', Revoke ''cap:1'']" "[]"]
    by simp
qed

end
