(* ===== verification/Seed_Tools.thy ===== *)
theory Seed_Tools
  imports Resolver_Laws
begin

text \<open>
  The Python callables that the shipped manifests name: src/capability_builtins.py,
  src/seed_tools.py and src/skillpack_runtime.py. They run in the process of the engine,
  against its files. Facts about the host, where a path leads through its links and the
  decoding of file contents are the parameter record \<open>host\<close>; texts have 8-bit characters.
\<close>

section \<open>The host\<close>

text \<open>
  \<open>h_real\<close> is where the components of an absolute path lead, its links followed and every
  \<open>..\<close> taken back; \<open>h_cwd\<close> is the working directory; \<open>h_home\<close> is the home directory of a
  user, the empty name being the user of the process, and None when there is none;
  \<open>h_text\<close> decodes the content of a file and \<open>h_data\<close> is the content that a written text makes.
\<close>

record host =
  h_env :: env
  h_real :: "path \<Rightarrow> path"
  h_cwd :: path
  h_home :: "string \<Rightarrow> path option"
  h_text :: "fdata \<Rightarrow> string"
  h_data :: "string \<Rightarrow> fdata"
  h_hostname :: string
  h_platform :: string
  h_kernel :: "string \<times> string \<times> string"
  h_python :: string
  h_now :: int
  h_iso :: string
  h_cpus :: json
  h_disk :: "string \<Rightarrow> (int \<times> int \<times> int) res"
  h_repo_root :: path

text \<open>The components of \<open>Path(s)\<close>, and \<open>str(Path(s))\<close>.\<close>

definition path_parts :: "string \<Rightarrow> path" where
  "path_parts s = filter (\<lambda>x. x \<noteq> [] \<and> x \<noteq> ''.'') (split_on (CHR ''/'') s)"

definition show_path :: "string \<Rightarrow> string" where
  "show_path s =
     (let root = (if starts_with ''//'' s \<and> \<not> starts_with ''///'' s then ''//'' else if starts_with ''/'' s then ''/'' else []) in
      if root = [] \<and> path_parts s = [] then ''.'' else root @ str_join ''/'' (path_parts s))"

text \<open>
  The path that opening \<open>Path(s)\<close> walks, and the one that \<open>Path(s).expanduser()\<close> is. They
  differ when the path is relative and its first component starts with a tilde, which opening
  takes literally. It is the components that count: \<open>./~/x\<close> has the first component \<open>~\<close>.
\<close>

definition raw_path :: "host \<Rightarrow> string \<Rightarrow> path" where
  "raw_path H s = (if starts_with ''/'' s then path_parts s else h_cwd H @ path_parts s)"

definition tilde :: "string \<Rightarrow> bool" where
  "tilde s \<longleftrightarrow> \<not> starts_with ''/'' s \<and> path_parts s \<noteq> [] \<and> starts_with ''~'' (hd (path_parts s))"

definition expand_user :: "host \<Rightarrow> string \<Rightarrow> path res" where
  "expand_user H s =
     (if tilde s then
        (case h_home H (tl (hd (path_parts s))) of
           Some home \<Rightarrow> Inr (home @ tl (path_parts s))
         | None \<Rightarrow> Inl (PyError RuntimeError ''Could not determine home directory.''))
      else Inr (raw_path H s))"

text \<open>\<open>Path(s).expanduser().resolve()\<close>\<close>

definition resolve_text :: "host \<Rightarrow> string \<Rightarrow> path res" where
  "resolve_text H s = rbind (expand_user H s) (\<lambda>p. Inr (h_real H p))"

text \<open>The directories on the way to a path, as the system finds them.\<close>

definition way_to :: "host \<Rightarrow> path \<Rightarrow> path list" where
  "way_to H raw = filter (\<lambda>q. q \<noteq> []) (map (h_real H) (prefixes_of raw))"

definition way_error :: "host \<Rightarrow> path \<Rightarrow> fs \<Rightarrow> exc option" where
  "way_error H raw t = (case find (\<lambda>q. \<not> is_dir t q) (way_to H (parent raw)) of
     None \<Rightarrow> None | Some q \<Rightarrow> Some (os_error (if is_file t q then 20 else 2)))"

definition read_text :: "host \<Rightarrow> path \<Rightarrow> string io" where
  "read_text H p = io_bind (read_file p) (\<lambda>d. io_return (h_text H d))"

text \<open>Reading the file at a path that may have links and dots.\<close>

definition read_at :: "host \<Rightarrow> path \<Rightarrow> string io" where
  "read_at H raw =
     io_bind (io_get (\<lambda>w. way_error H raw (w_fs w))) (\<lambda>e.
     case e of Some e \<Rightarrow> io_raise e | None \<Rightarrow> read_text H (h_real H raw))"

text \<open>\<open>p.mkdir(parents=True, exist_ok=True)\<close>, which goes along the components as they are.\<close>

definition mkdir_way :: "host \<Rightarrow> path \<Rightarrow> unit io" where
  "mkdir_way H raw = prim (\<lambda>t. map_sum id (Pair ()) (mk_dirs (way_to H raw) t))"

text \<open>\<open>p.write_text(s)\<close>: the file is created or cut, then filled.\<close>

definition write_text :: "host \<Rightarrow> path \<Rightarrow> string \<Rightarrow> unit io" where
  "write_text H p s =
     io_bind (prim (\<lambda>t. if is_dir t p then Inl (os_error 21)
        else if \<not> is_dir t (parent p) then Inl (os_error 2)
        else Inr ((), fs_put p (FileN (Raw [])) t))) (\<lambda>_.
     write_file p (h_data H s))"

definition list_dir :: "path \<Rightarrow> path list io" where
  "list_dir p = io_get (\<lambda>w. children p (w_fs w))"

section \<open>Texts and bytes\<close>

definition utf8_char :: "char \<Rightarrow> nat list" where
  "utf8_char c = (if code c < 128 then [code c] else [192 + code c div 64, 128 + code c mod 64])"

definition utf8 :: "string \<Rightarrow> nat list" where
  "utf8 s = concat (map utf8_char s)"

text \<open>\<open>decode("utf-8", errors="ignore")\<close>, on bytes of 8-bit texts.\<close>

fun utf8_ignore :: "nat list \<Rightarrow> string" where
  "utf8_ignore [] = []"
| "utf8_ignore [b] = (if b < 128 then [char_of b] else [])"
| "utf8_ignore (b # c # r) =
     (if b < 128 then char_of b # utf8_ignore (c # r)
      else if b \<in> {194, 195} \<and> 128 \<le> c \<and> c < 192 then char_of ((b - 192) * 64 + (c - 128)) # utf8_ignore r
      else utf8_ignore (c # r))"

text \<open>\<open>xs[:n]\<close>, where a negative \<open>n\<close> counts from the end.\<close>

definition slice_to :: "int \<Rightarrow> 'a list \<Rightarrow> 'a list" where
  "slice_to n xs = (if 0 \<le> n then take (nat n) xs else take (length xs - nat (- n)) xs)"

text \<open>\<open>str.splitlines\<close>\<close>

definition is_break :: "char \<Rightarrow> bool" where
  "is_break c \<longleftrightarrow> code c \<in> {10, 11, 12, 13, 28, 29, 30, 133}"

fun lines_from :: "string \<Rightarrow> string \<Rightarrow> string list" where
  "lines_from cur [] = (if cur = [] then [] else [cur])"
| "lines_from cur [c] = (if is_break c then [cur] else [cur @ [c]])"
| "lines_from cur (c # d # s) =
     (if code c = 13 \<and> code d = 10 then cur # lines_from [] s
      else if is_break c then cur # lines_from [] (d # s)
      else lines_from (cur @ [c]) (d # s))"

text \<open>\<open>str.split()\<close>\<close>

fun words_from :: "string \<Rightarrow> string \<Rightarrow> string list" where
  "words_from cur [] = (if cur = [] then [] else [cur])"
| "words_from cur (c # s) =
     (if is_ws c then (if cur = [] then words_from [] s else cur # words_from [] s)
      else words_from (cur @ [c]) s)"

section \<open>Where files may be read and written\<close>

definition split_paths :: "host \<Rightarrow> string \<Rightarrow> path list res" where
  "split_paths H v = rmapM (resolve_text H) (filter (\<lambda>r. r \<noteq> []) (map str_strip (split_on (CHR '','') v)))"

definition allowed_roots :: "host \<Rightarrow> string \<Rightarrow> path list res" where
  "allowed_roots H kind =
     split_paths H
       (if kind = ''read'' then
          getenv (h_env H) ''UNISON_CAPABILITY_FS_READ_ALLOW'' ''/etc,/proc,/sys,/var/lib/unison,/tmp''
        else getenv (h_env H) ''UNISON_CAPABILITY_FS_WRITE_ALLOW'' ''/var/lib/unison,/tmp'')"

definition ensure_under_roots :: "host \<Rightarrow> string \<Rightarrow> path list \<Rightarrow> unit res" where
  "ensure_under_roots H path roots =
     rbind (resolve_text H path) (\<lambda>p.
     if list_ex (\<lambda>root. is_prefix root p) roots then Inr ()
     else Inl (CapabilityRunError ''path not permitted by policy''))"

definition ensure_allowed :: "host \<Rightarrow> string \<Rightarrow> string \<Rightarrow> unit res" where
  "ensure_allowed H kind path = rbind (allowed_roots H kind) (ensure_under_roots H path)"

section \<open>The built-in callables\<close>

definition echo :: "json \<Rightarrow> json io" where
  "echo args = io_return (JObj [(''echo'', jget args ''text'')])"

definition time_now :: "host \<Rightarrow> json \<Rightarrow> json io" where
  "time_now H args = io_return (JObj [(''iso'', JStr (h_iso H))])"

section \<open>The host tools\<close>

definition host_info :: "host \<Rightarrow> json \<Rightarrow> json io" where
  "host_info H args = io_return (JObj
     [(''hostname'', JStr (h_hostname H)), (''platform'', JStr (h_platform H)),
      (''kernel'', (case h_kernel H of (s, r, v) \<Rightarrow>
         JObj [(''system'', JStr s), (''release'', JStr r), (''version'', JStr v)])),
      (''python'', JObj [(''version'', JStr (h_python H))]),
      (''time'', JObj [(''unix'', JInt (h_now H div 1000000))])])"

definition meminfo_line :: "json dict \<Rightarrow> string \<Rightarrow> json dict" where
  "meminfo_line d line =
     (let (k, found, v) = partition_on (CHR '':'') line in
      if found then dset (str_strip k) (JStr (str_strip v)) d else d)"

definition meminfo_summary :: "host \<Rightarrow> json io" where
  "meminfo_summary H =
     io_try (io_bind (read_text H [''proc'', ''meminfo'']) (\<lambda>text.
        io_return (JObj (foldl meminfo_line [] (take 50 (lines_from [] text))))))
       (\<lambda>_. io_return (JObj []))"

definition disk_entry :: "host \<Rightarrow> json \<Rightarrow> json list" where
  "disk_entry H r = (case h_disk H (py_str r) of
     Inr (size_all, size_used, size_free) \<Rightarrow> [JObj [(''path'', JStr (py_str r)), (''total'', JInt size_all), (''used'', JInt size_used),
       (''free'', JInt size_free)]]
   | Inl _ \<Rightarrow> [])"

definition host_resources :: "host \<Rightarrow> json \<Rightarrow> json io" where
  "host_resources H args =
     (let asked = py_or (jget args ''disk_roots'') (JArr [JStr ''/'']);
          roots = (if is_list asked then items asked else [JStr ''/'']) in
      io_bind (meminfo_summary H) (\<lambda>memory.
      io_return (JObj [(''cpu_count'', h_cpus H), (''memory'', memory),
        (''disks'', JArr (concat (map (disk_entry H) (take 5 roots))))])))"

text \<open>The files of one interface that can be read.\<close>

fun read_fields :: "host \<Rightarrow> path \<Rightarrow> string list \<Rightarrow> json dict \<Rightarrow> json dict io" where
  "read_fields H p [] acc = io_return acc"
| "read_fields H p (f # fs) acc =
     io_bind (io_try (io_bind (read_text H (p @ [f])) (\<lambda>t. io_return [(f, JStr (str_strip t))])) (\<lambda>_. io_return []))
       (\<lambda>e. read_fields H p fs (acc @ e))"

fun iface_loop :: "host \<Rightarrow> path list \<Rightarrow> json list \<Rightarrow> json list io" where
  "iface_loop H [] acc = io_return acc"
| "iface_loop H (p # ps) acc =
     io_bind (io_get (\<lambda>w. is_dir (w_fs w) p)) (\<lambda>d.
     if \<not> d \<or> last p = ''lo'' then iface_loop H ps acc
     else
       io_bind (read_fields H p [''address'', ''operstate'', ''mtu''] [(''name'', JStr (last p))]) (\<lambda>iface.
       if 32 \<le> length (acc @ [JObj iface]) then io_return (acc @ [JObj iface])
       else iface_loop H ps (acc @ [JObj iface])))"

definition host_net_ifaces :: "host \<Rightarrow> json \<Rightarrow> json io" where
  "host_net_ifaces H args =
     (let base = [''sys'', ''class'', ''net''] in
      io_bind (exists_io base) (\<lambda>e.
      if \<not> e then io_return (JObj [(''interfaces'', JArr [])])
      else
        io_bind (list_dir base) (\<lambda>ps.
        io_bind (iface_loop H (sort ps) []) (\<lambda>ifaces.
        io_return (JObj [(''interfaces'', JArr ifaces)])))))"

definition process_limit :: "json \<Rightarrow> int" where
  "process_limit args =
     (let limit = (case py_int (get_or args ''limit'' (JInt 25)) of Inr i \<Rightarrow> i | Inl _ \<Rightarrow> 25) in max 1 (min limit 200))"

definition nul_to_space :: "string \<Rightarrow> string" where
  "nul_to_space s = map (\<lambda>c. if c = CHR 0x00 then CHR '' '' else c) s"

definition process_entry :: "host \<Rightarrow> path \<Rightarrow> json io" where
  "process_entry H p =
     io_bind (read_text H (p @ [''cmdline''])) (\<lambda>cmdline.
     io_bind (read_text H (p @ [''comm''])) (\<lambda>comm.
     io_bind (read_text H (p @ [''stat''])) (\<lambda>stat.
     let fields = words_from [] stat in
     io_return (JObj [(''pid'', JInt (int (digits_val (last p)))), (''comm'', JStr (str_strip comm)),
       (''cmdline'', JStr (str_strip (nul_to_space cmdline))),
       (''state'', JStr (if 2 < length fields then fields ! 2 else []))]))))"

fun process_loop :: "host \<Rightarrow> int \<Rightarrow> path list \<Rightarrow> json list \<Rightarrow> json list io" where
  "process_loop H limit [] acc = io_return acc"
| "process_loop H limit (p # ps) acc =
     (if last p = [] \<or> \<not> list_all is_digit (last p) then process_loop H limit ps acc
      else
        io_bind (io_try (io_bind (process_entry H p) (\<lambda>e. io_return (Some e))) (\<lambda>_. io_return None)) (\<lambda>entry.
        case entry of
          None \<Rightarrow> process_loop H limit ps acc
        | Some e \<Rightarrow>
            if limit \<le> int (length (acc @ [e])) then io_return (acc @ [e])
            else process_loop H limit ps (acc @ [e])))"

definition process_list :: "host \<Rightarrow> json \<Rightarrow> json io" where
  "process_list H args =
     io_bind (exists_io [''proc'']) (\<lambda>e.
     if \<not> e then io_return (JObj [(''processes'', JArr [])])
     else
       io_bind (list_dir [''proc'']) (\<lambda>ps.
       io_bind (process_loop H (process_limit args) ps []) (\<lambda>procs.
       io_return (JObj [(''processes'', JArr procs)]))))"

section \<open>Files\<close>

definition path_argument :: "json \<Rightarrow> string res" where
  "path_argument args = (case jget args ''path'' of
     JStr s \<Rightarrow> if s = [] then Inl (CapabilityRunError ''path required'') else Inr s
   | _ \<Rightarrow> Inl (CapabilityRunError ''path required''))"

definition cut_text :: "int \<Rightarrow> string \<Rightarrow> string" where
  "cut_text max_bytes text =
     (if max_bytes < int (length (utf8 text)) then utf8_ignore (slice_to max_bytes (utf8 text)) else text)"

definition fs_read :: "host \<Rightarrow> json \<Rightarrow> json io" where
  "fs_read H args =
     io_bind (io_lift (path_argument args)) (\<lambda>path.
     io_bind (io_lift (ensure_allowed H ''read'' path)) (\<lambda>_.
     io_bind (read_at H (raw_path H path)) (\<lambda>text.
     io_bind (io_lift (py_int (py_or (jget args ''max_bytes'') (JInt (64 * 1024))))) (\<lambda>max_bytes.
     io_return (JObj [(''path'', JStr (show_path path)), (''content'', JStr (cut_text max_bytes text))])))))"

text \<open>\<open>Path(s).parent\<close>; the root and the working directory are their own parents.\<close>

definition parent_of :: "host \<Rightarrow> string \<Rightarrow> path" where
  "parent_of H s = (if path_parts s = [] then raw_path H s else parent (raw_path H s))"

definition fs_write :: "host \<Rightarrow> json \<Rightarrow> json io" where
  "fs_write H args =
     io_bind (io_lift (path_argument args)) (\<lambda>path.
     case jget args ''content'' of
       JStr content \<Rightarrow>
         io_bind (io_lift (ensure_allowed H ''write'' path)) (\<lambda>_.
         io_bind (mkdir_way H (parent_of H path)) (\<lambda>_.
         io_bind (write_text H (h_real H (raw_path H path)) content) (\<lambda>_.
         io_return (JObj [(''path'', JStr (show_path path)), (''bytes_written'', JInt (int (length (utf8 content))))]))))
     | _ \<Rightarrow> io_raise (CapabilityRunError ''content must be string''))"

section \<open>Connectors and skill packs\<close>

definition connector_status :: "json \<Rightarrow> json \<Rightarrow> json io" where
  "connector_status manifest args =
     io_bind (io_lift (py_iter (py_or (jget manifest ''secrets'') (JArr [])))) (\<lambda>ss.
     io_return (JObj [(''id'', jget manifest ''id''), (''enabled'', get_or manifest ''enabled'' (JBool True)),
       (''requires_oauth'', get_or manifest ''requires_oauth'' (JBool False)),
       (''secrets'', JArr (map (\<lambda>s. JObj [(''name'', jget s ''name''), (''ref'', jget s ''ref'')]) (filter is_dict ss))),
       (''note'', JStr ''Connector wrappers are placeholders; execution is expected via MCP/connector services once configured.'')]))"

text \<open>The file of a skill pack: an absolute path as it is, another one below the repository root.\<close>

definition skill_path :: "host \<Rightarrow> string \<Rightarrow> path" where
  "skill_path H s = (if starts_with ''/'' s then path_parts s else h_repo_root H @ path_parts s)"

definition skillpack_run :: "host \<Rightarrow> json \<Rightarrow> json \<Rightarrow> json io" where
  "skillpack_run H manifest args =
     (case jget (dict_or_empty (jget manifest ''origin'')) ''path'' of
        JStr s \<Rightarrow>
          if s = [] then io_raise (CapabilityRunError ''skill pack origin.path required'')
          else
            io_bind (io_get (\<lambda>w. way_error H (skill_path H s) (w_fs w) = None
                \<and> path_exists (w_fs w) (h_real H (skill_path H s)))) (\<lambda>e.
            if \<not> e then io_raise (CapabilityRunError (''skill pack file not found: '' @ path_str (skill_path H s)))
            else
              io_bind (read_at H (skill_path H s)) (\<lambda>content.
              io_return (JObj [(''skill_pack_id'', jget manifest ''id''), (''content'', JStr content)])))
      | _ \<Rightarrow> io_raise (CapabilityRunError ''skill pack origin.path required''))"

text \<open>What the imports of the shipped manifests find; every other name is up to \<open>others\<close>.\<close>

definition seed_functions :: "host \<Rightarrow> ((string \<times> string) \<times> pyfun) list" where
  "seed_functions H =
     [((''capability_builtins'', ''echo''), Fun1 echo),
      ((''capability_builtins'', ''time_now''), Fun1 (time_now H)),
      ((''seed_tools'', ''host_info''), Fun1 (host_info H)),
      ((''seed_tools'', ''host_resources''), Fun1 (host_resources H)),
      ((''seed_tools'', ''host_net_ifaces''), Fun1 (host_net_ifaces H)),
      ((''seed_tools'', ''process_list''), Fun1 (process_list H)),
      ((''seed_tools'', ''fs_read''), Fun1 (fs_read H)),
      ((''seed_tools'', ''fs_write''), Fun1 (fs_write H)),
      ((''seed_tools'', ''connector_status''), Fun2 connector_status),
      ((''skillpack_runtime'', ''run''), Fun2 (skillpack_run H))]"

definition seed_import :: "host \<Rightarrow> (string \<Rightarrow> string \<Rightarrow> pyfun option res) \<Rightarrow> string \<Rightarrow> string \<Rightarrow> pyfun option res" where
  "seed_import H others m n =
     (case map_of (seed_functions H) (m, n) of Some f \<Rightarrow> Inr (Some f) | None \<Rightarrow> others m n)"

section \<open>Reading is reading\<close>

text \<open>Operations that branch on a JSON text.\<close>

lemma reads_str_case [reads_rules]:
  "(\<And>s. reads_only (f s)) \<Longrightarrow> reads_only g \<Longrightarrow> reads_only (case j of JStr s \<Rightarrow> f s | _ \<Rightarrow> g)"
  by (cases j) auto

lemma touches_str_case:
  "(\<And>s. touches X (f s)) \<Longrightarrow> touches X g \<Longrightarrow> touches X (case j of JStr s \<Rightarrow> f s | _ \<Rightarrow> g)"
  by (cases j) auto

lemma reads_read_text [reads_rules]: "reads_only (read_text H p)"
  unfolding read_text_def by (intro reads_rules)

lemma reads_read_at [reads_rules]: "reads_only (read_at H p)"
  unfolding read_at_def by (intro reads_rules) (auto intro!: reads_rules split: option.split)

lemma reads_list_dir [reads_rules]: "reads_only (list_dir p)"
  unfolding list_dir_def by (rule reads_get)

lemma reads_fields: "reads_only (read_fields H p fs acc)"
  by (induction fs arbitrary: acc) (auto intro!: reads_rules)

lemma reads_ifaces: "reads_only (iface_loop H ps acc)"
  by (induction ps arbitrary: acc) (auto intro!: reads_rules reads_fields)

lemma reads_processes: "reads_only (process_loop H limit ps acc)"
proof (induction ps arbitrary: acc)
  case (Cons p ps)
  have "reads_only (process_entry H p)" unfolding process_entry_def Let_def by (intro reads_rules)
  with Cons show ?case by (auto intro!: reads_rules split: option.split)
qed (simp add: reads_return)

lemma reads_tools:
  "reads_only (echo args)" "reads_only (time_now H args)" "reads_only (host_info H args)"
  "reads_only (host_resources H args)" "reads_only (host_net_ifaces H args)" "reads_only (process_list H args)"
  "reads_only (fs_read H args)" "reads_only (connector_status manifest args)" "reads_only (skillpack_run H manifest args)"
  unfolding echo_def time_now_def host_info_def host_resources_def meminfo_summary_def host_net_ifaces_def
    process_list_def fs_read_def connector_status_def skillpack_run_def Let_def
  by (intro reads_rules reads_ifaces reads_processes)+

section \<open>What fs_write changes\<close>

text \<open>
  What fs_write may change: for each text that passes its check, the file that opening it
  leads to and the directories on the way there.
\<close>

definition write_area :: "host \<Rightarrow> path set" where
  "write_area H = {q. \<exists>s. is_ok (ensure_allowed H ''write'' s) \<and> (q = h_real H (raw_path H s) \<or> q \<in> set (way_to H (parent_of H s)))}"

lemma touches_mkdir_way: "touches (set (way_to H raw)) (mkdir_way H raw)"
  unfolding mkdir_way_def
  by (rule touches_prim, case_tac "mk_dirs (way_to H raw) s") (auto simp: same_off_def dest: mk_dirs_keeps)

lemma touches_write_text: "p \<in> X \<Longrightarrow> touches X (write_text H p s)"
  unfolding write_text_def write_file_def
  by (intro touches_bind touches_prim) (auto simp: same_off_put split: if_splits)

lemma ensure_Inr:
  "ensure_allowed H kind path = Inr u \<longleftrightarrow>
     (\<exists>roots p. allowed_roots H kind = Inr roots \<and> resolve_text H path = Inr p \<and> list_ex (\<lambda>root. is_prefix root p) roots)"
  by (auto simp: ensure_allowed_def ensure_under_roots_def result_simps split: if_splits)

text \<open>Without a tilde, what is checked is what is opened.\<close>

lemma resolve_plain: "\<not> tilde s \<Longrightarrow> resolve_text H s = Inr (h_real H (raw_path H s))"
  by (simp add: resolve_text_def expand_user_def)

lemma touches_lift_bind: "(\<And>a. r = Inr a \<Longrightarrow> touches X (f a)) \<Longrightarrow> touches X (io_bind (io_lift r) f)"
  by (cases r) (auto intro: touches_rules)

lemma fs_write_area: "touches (write_area H) (fs_write H args)"
proof -
  have body: "touches (write_area H) (io_bind (mkdir_way H (parent_of H path)) (\<lambda>_.
      io_bind (write_text H (h_real H (raw_path H path)) content) f))"
    if ok: "ensure_allowed H ''write'' path = Inr u" and f: "\<And>a. touches (write_area H) (f a)" for path content f u
  proof -
    have "set (way_to H (parent_of H path)) \<subseteq> write_area H" "h_real H (raw_path H path) \<in> write_area H"
      using ok by (auto simp: write_area_def is_ok_iff)
    then show ?thesis
      by (intro touches_bind touches_mono [OF touches_mkdir_way] touches_write_text f)
  qed
  show ?thesis
    unfolding fs_write_def
    by (rule touches_bind [OF touches_lift], rule touches_str_case, rule touches_lift_bind, rule body, assumption,
        rule touches_return, rule touches_raise)
qed

lemma write_silent: "sends_only P (fs_write H args)"
  unfolding fs_write_def write_text_def mkdir_way_def write_file_def
  by (intro sends_rules) (auto intro!: sends_rules split: json.split)

text \<open>None of the callables sends a request.\<close>

lemma seed_import_silent:
  assumes "callables_send P (rt\<lparr>import_callable := others\<rparr>)"
  shows "callables_send P (rt\<lparr>import_callable := seed_import H others\<rparr>)"
proof -
  have "case f of Fun1 g \<Rightarrow> \<forall>a. sends_only P (g a) | Fun2 g \<Rightarrow> \<forall>x a. sends_only P (g x a) | FunOther \<Rightarrow> True"
    if "((m, n), f) \<in> set (seed_functions H)" for m n f
    using that by (auto simp: seed_functions_def reads_tools [THEN reads_sends] write_silent)
  then show ?thesis
    using assms by (fastforce simp: callables_send_def seed_import_def dest: map_of_SomeD split: option.splits)
qed

text \<open>Reading leaves every file as it is, at each step.\<close>

lemma touches_read_text [touches_rules]: "touches X (read_text H p)"
  unfolding read_text_def by (intro touches_rules touches_read)

lemma touches_read_at [touches_rules]: "touches X (read_at H p)"
  unfolding read_at_def by (intro touches_rules) (auto intro!: touches_rules split: option.split)

lemma touches_fields: "touches X (read_fields H p fs acc)"
  by (induction fs arbitrary: acc) (auto intro!: touches_rules)

lemma touches_ifaces: "touches X (iface_loop H ps acc)"
  by (induction ps arbitrary: acc) (auto intro!: touches_rules touches_fields)

lemma touches_processes: "touches X (process_loop H limit ps acc)"
proof (induction ps arbitrary: acc)
  case (Cons p ps)
  have "touches X (process_entry H p)" unfolding process_entry_def Let_def by (intro touches_rules)
  with Cons show ?case by (auto intro!: touches_rules split: option.split)
qed (simp add: touches_return)

lemma touches_tools:
  "touches X (echo args)" "touches X (time_now H args)" "touches X (host_info H args)"
  "touches X (host_resources H args)" "touches X (host_net_ifaces H args)" "touches X (process_list H args)"
  "touches X (fs_read H args)" "touches X (connector_status manifest args)" "touches X (skillpack_run H manifest args)"
  unfolding echo_def time_now_def host_info_def host_resources_def meminfo_summary_def host_net_ifaces_def
    process_list_def fs_read_def connector_status_def skillpack_run_def list_dir_def Let_def
  by (intro touches_rules touches_ifaces touches_processes touches_exists touches_str_case)+

section \<open>Running through the engine\<close>

definition callables_touch :: "path set \<Rightarrow> runtime_env \<Rightarrow> bool" where
  "callables_touch X rt \<longleftrightarrow> (\<forall>m n. case import_callable rt m n of
     Inr (Some (Fun1 f)) \<Rightarrow> \<forall>a. touches X (f a)
   | Inr (Some (Fun2 f)) \<Rightarrow> \<forall>x a. touches X (f x a)
   | _ \<Rightarrow> True)"

text \<open>What the programs that a command starts may change, and what running anything may.\<close>

definition commands_touch :: "path set \<Rightarrow> runtime_env \<Rightarrow> bool" where
  "commands_touch X rt \<longleftrightarrow> (\<forall>argv env t s. list_all (same_off X s) (snd (run_process rt argv env t s)))"

definition runtime_touches :: "path set \<Rightarrow> runtime_env \<Rightarrow> bool" where
  "runtime_touches X rt \<longleftrightarrow> callables_touch X rt \<and> commands_touch X rt"

lemma callables_touch_mono: "callables_touch X rt \<Longrightarrow> X \<subseteq> Y \<Longrightarrow> callables_touch Y rt"
  unfolding callables_touch_def
  by (auto split: sum.splits option.splits pyfun.splits) (metis touches_mono)+

lemma touches_spawn:
  assumes "commands_touch X rt"
  shows "touches X (spawn rt argv env t)"
  unfolding touches_def
proof (intro allI tripleI)
  fix s0 w r w'
  assume s: "same_off X s0 (w_fs w)" and run: "spawn rt argv env t w = (r, w')"
  obtain h where h: "run_process rt argv env t (w_fs w) = (r, h)"
    and w': "w' = w\<lparr>w_fs := last (w_fs w # h), w_hist := w_hist w @ h\<rparr>"
    using run by (auto simp: spawn_def split: prod.splits)
  have "list_all (same_off X (w_fs w)) h" using assms h unfolding commands_touch_def by (metis snd_conv)
  then have all: "list_all (same_off X s0) (w_fs w # h)" using s same_off_trans by (auto simp: list_all_iff)
  then have "same_off X s0 (last (w_fs w # h))" by (simp only: list_all_iff last_in_set list.distinct) (metis last_in_set list.distinct(1))
  with all show "steps_ok (same_off X s0) w w' \<and> (case r of Inl e \<Rightarrow> same_off X s0 (w_fs w') | Inr a \<Rightarrow> same_off X s0 (w_fs w'))"
    by (auto simp: w' steps_ok_def list_all_iff split: sum.splits)
qed

text \<open>The runtime of this application: its own callables, and other modules as they are.\<close>

definition with_seed :: "host \<Rightarrow> runtime_env \<Rightarrow> runtime_env" where
  "with_seed H rt = rt\<lparr>import_callable := seed_import H (import_callable rt)\<rparr>"

lemma seed_touches:
  assumes "runtime_touches A rt"
  shows "runtime_touches (write_area H \<union> A) (with_seed H rt)"
proof -
  let ?X = "write_area H \<union> A"
  have seed: "case f of Fun1 g \<Rightarrow> \<forall>a. touches ?X (g a) | Fun2 g \<Rightarrow> \<forall>x a. touches ?X (g x a) | FunOther \<Rightarrow> True"
    if "((m, n), f) \<in> set (seed_functions H)" for m n f
    using that by (auto simp: seed_functions_def touches_tools touches_mono [OF fs_write_area])
  have "callables_touch ?X rt"
    using assms callables_touch_mono [of A rt ?X] by (simp add: runtime_touches_def)
  then have "callables_touch ?X (with_seed H rt)"
    using seed unfolding callables_touch_def with_seed_def seed_import_def
    by (fastforce dest: map_of_SomeD split: option.splits)
  moreover have "commands_touch ?X (with_seed H rt)"
    using assms by (auto simp: runtime_touches_def commands_touch_def with_seed_def list_all_iff) (metis Un_upper2 same_off_mono)
  ultimately show ?thesis by (simp add: runtime_touches_def)
qed

lemma seed_silent: "callables_send P rt \<Longrightarrow> callables_send P (with_seed H rt)"
  unfolding with_seed_def by (rule seed_import_silent) simp

lemma touches_wrap [touches_rules]: "touches X m \<Longrightarrow> touches X (io_wrap p m)"
  unfolding io_wrap_def by (intro touches_rules)

lemma run_python_touches:
  assumes "callables_touch X rt"
  shows "touches X (run_python rt impl manifest args)"
proof -
  have "touches X (case fn of Fun1 f \<Rightarrow> f args | Fun2 f \<Rightarrow> f manifest args | FunOther \<Rightarrow> io_raise e)"
    if "load_callable rt s = Inr fn" for s fn e
  proof -
    from load_callable_Inr [OF that] obtain m n where "import_callable rt m n = Inr (Some fn)" by blast
    with assms have "case fn of Fun1 f \<Rightarrow> \<forall>a. touches X (f a) | Fun2 f \<Rightarrow> \<forall>x a. touches X (f x a) | _ \<Rightarrow> True"
      unfolding callables_touch_def by (metis (no_types, lifting) option.simps(5) sum.simps(6))
    then show ?thesis by (cases fn) (auto intro: touches_raise)
  qed
  note call = this
  show ?thesis
    unfolding run_python_def
    by (rule touches_bind [OF touches_lift], rule touches_str_case, rule touches_if, rule touches_raise,
        rule touches_lift_bind, rule touches_wrap, rule call, assumption, rule touches_raise)
qed

lemma exec_run_touches:
  assumes "runtime_touches X rt"
  shows "touches X (exec_run rt eg tr manifest args)"
proof -
  have rt: "callables_touch X rt" "commands_touch X rt" using assms by (simp_all add: runtime_touches_def)
  have servers: "touches X (try_servers eg tr manifest tool args sid ss)" for tool sid ss
    by (induction ss) (auto simp: call_tool_def Let_def intro!: touches_rules split: option.split)
  then show ?thesis
    unfolding exec_run_def exec_mcp_def exec_a2a_def run_mcp_tool_def run_a2a_def run_command_def Let_def
    by (intro touches_rules run_python_touches [OF rt(1)] touches_spawn [OF rt(2)])
qed

text \<open>A call of fs_write whose check passes: the directories, then the file.\<close>

lemma fs_write_runs:
  assumes "path_argument args = Inr path" and "jget args ''content'' = JStr content" and "ensure_allowed H ''write'' path = Inr u"
  shows "fs_write H args =
    io_bind (mkdir_way H (parent_of H path)) (\<lambda>_.
    io_bind (write_text H (h_real H (raw_path H path)) content) (\<lambda>_.
    io_return (JObj [(''path'', JStr (show_path path)), (''bytes_written'', JInt (int (length (utf8 content))))])))"
  using assms by (simp add: fs_write_def)

lemma fs_write_refused:
  assumes "\<nexists>path content u. path_argument args = Inr path \<and> jget args ''content'' = JStr content
    \<and> ensure_allowed H ''write'' path = Inr u"
  shows "\<not> is_ok (fst (fs_write H args w)) \<and> snd (fs_write H args w) = w"
proof (cases "path_argument args")
  case (Inr path)
  show ?thesis
  proof (cases "jget args ''content''")
    case (JStr content)
    with assms Inr show ?thesis by (cases "ensure_allowed H ''write'' path") (simp_all add: fs_write_def io_defs)
  qed (use Inr in \<open>simp_all add: fs_write_def io_defs\<close>)
qed (simp add: fs_write_def io_defs)

text \<open>No existing file changes but the target, and what appears besides it is a directory.\<close>

lemma mkdir_way_effect:
  assumes "mkdir_way H raw w = (r, w')"
  shows "keeps X (w_fs w) (w_fs w')"
  using assms mk_dirs_keeps [of "way_to H raw" "w_fs w"]
  by (cases "mk_dirs (way_to H raw) (w_fs w)")
     (auto simp: mkdir_way_def prim_def Let_def keeps_def split: option.splits if_splits)

lemma write_text_effect:
  assumes "write_text H p s w = (r, w')"
  shows "same_off {p} (w_fs w) (w_fs w')" and "r = Inr u \<Longrightarrow> fs_get (w_fs w') p = Some (FileN (h_data H s))"
proof -
  from tripleD [OF touchesD [OF touches_write_text [of p "{p}" H s], of "w_fs w"] same_off_refl assms]
  show "same_off {p} (w_fs w) (w_fs w')" by (cases r) auto
  have wr: "fs_get (w_fs b) p = Some (FileN d)" if "write_file p d a = (Inr v, b)" for d a b v
    using that by (auto simp: write_file_def prim_def Let_def split: if_splits option.splits sum.splits)
  show "fs_get (w_fs w') p = Some (FileN (h_data H s))" if "r = Inr u"
    using assms that wr by (auto simp: write_text_def io_inv)
qed

lemma fs_write_effect:
  assumes "path_argument args = Inr path" "jget args ''content'' = JStr content" "ensure_allowed H ''write'' path = Inr u"
    and run: "fs_write H args w = (r, w')"
  shows "keeps {h_real H (raw_path H path)} (w_fs w) (w_fs w')"
    and "case r of Inl e \<Rightarrow> True
      | Inr out \<Rightarrow> fs_get (w_fs w') (h_real H (raw_path H path)) = Some (FileN (h_data H content))
          \<and> jget out ''bytes_written'' = JInt (int (length (utf8 content)))"
proof -
  let ?p = "h_real H (raw_path H path)"
  obtain r1 w1 where 1: "mkdir_way H (parent_of H path) w = (r1, w1)" by fastforce
  obtain r2 w2 where 2: "write_text H ?p content w1 = (r2, w2)" by fastforce
  note dirs = mkdir_way_effect [OF 1] and wr = write_text_effect [OF 2]
  have "keeps {?p} (w_fs w) (w_fs w2)"
    using dirs [of "{?p}"] wr(1) by (simp add: keeps_def same_off_def)
  with 1 2 dirs [of "{?p}"] wr(2) run show "keeps {?p} (w_fs w) (w_fs w')"
    and "case r of Inl e \<Rightarrow> True
      | Inr out \<Rightarrow> fs_get (w_fs w') ?p = Some (FileN (h_data H content))
          \<and> jget out ''bytes_written'' = JInt (int (length (utf8 content)))"
    unfolding fs_write_runs [OF assms(1-3)]
    by (cases r1; cases r2; auto simp: io_bind_def io_return_def jget_def get_or_def)+
qed

lemma read_at_Inr:
  assumes "read_at H raw w = (Inr t, w')"
  shows "\<exists>d. fs_get (w_fs w) (h_real H raw) = Some (FileN d) \<and> t = h_text H d"
  using assms
  by (auto simp: read_at_def read_text_def io_inv io_get_def read_file_def prim_def Let_def
      split: option.splits if_splits sum.splits node.splits)

section \<open>Bounds\<close>

text \<open>Cutting the bytes of a text and decoding them gives a beginning of the text.\<close>

lemma utf8_simps [simp]: "utf8 [] = []" "utf8 (c # s) = utf8_char c @ utf8 s"
  by (simp_all add: utf8_def)

lemma code_bound: "code c < 256"
  by (cases c) (simp add: of_char_def)

lemma char_of_code [simp]: "char_of (code c) = c"
  by simp

lemma utf8_ignore_ascii: "b < 128 \<Longrightarrow> utf8_ignore (b # r) = char_of b # utf8_ignore r"
  by (cases r) auto

lemma utf8_ignore_pair:
  assumes "\<not> code c < 128"
  shows "utf8_ignore ((192 + code c div 64) # (128 + code c mod 64) # r) = c # utf8_ignore r"
proof -
  have "code c div 64 = 2 \<or> code c div 64 = 3" using assms code_bound [of c] by linarith
  moreover have "code c div 64 * 64 + code c mod 64 = code c" by simp
  ultimately show ?thesis by auto
qed

lemma utf8_cut: "\<exists>k. utf8_ignore (take n (utf8 s)) = take k s \<and> length (utf8 (take k s)) \<le> n"
proof (induction s arbitrary: n)
  case (Cons c s)
  show ?case
  proof (cases "code c < 128")
    case True
    show ?thesis
    proof (cases n)
      case (Suc m)
      obtain k where "utf8_ignore (take m (utf8 s)) = take k s" "length (utf8 (take k s)) \<le> m" using Cons by blast
      then show ?thesis
        using True Suc by (intro exI [of _ "Suc k"]) (simp add: utf8_char_def utf8_ignore_ascii)
    qed (intro exI [of _ 0], simp)
  next
    case False
    then consider "n = 0" | "n = 1" | m where "n = Suc (Suc m)" by (cases n; cases "n - 1") auto
    then show ?thesis
    proof cases
      case 3
      obtain k where "utf8_ignore (take m (utf8 s)) = take k s" "length (utf8 (take k s)) \<le> m" using Cons by blast
      then show ?thesis
        using False 3 by (intro exI [of _ "Suc k"]) (simp add: utf8_char_def utf8_ignore_pair del: utf8_ignore.simps)
    qed (use False in \<open>intro exI [of _ 0], simp add: utf8_char_def\<close>)+
  qed
qed simp

lemma cut_text_bound:
  assumes "0 \<le> n"
  shows "\<exists>k. cut_text n text = take k text" and "int (length (utf8 (cut_text n text))) \<le> n"
proof -
  obtain k where k: "utf8_ignore (take (nat n) (utf8 text)) = take k text" "length (utf8 (take k text)) \<le> nat n"
    using utf8_cut by blast
  have whole: "\<exists>k. text = take k text" by (rule exI [of _ "length text"]) simp
  show "\<exists>k. cut_text n text = take k text" using k(1) whole assms by (auto simp: cut_text_def slice_to_def)
  show "int (length (utf8 (cut_text n text))) \<le> n" using k assms by (auto simp: cut_text_def slice_to_def)
qed

lemma utf8_ascii: "list_all (\<lambda>c. code c < 128) s \<Longrightarrow> utf8 s = map code s"
  by (induction s) (auto simp: utf8_char_def)

lemma utf8_ignore_ascii_all: "list_all (\<lambda>c. code c < 128) s \<Longrightarrow> utf8_ignore (map code s) = s"
  by (induction s) (auto simp: utf8_ignore_ascii)

text \<open>The loops stop at their limits.\<close>

lemma process_loop_bound:
  "int (length acc) < limit \<Longrightarrow> returns (\<lambda>out. int (length out) \<le> limit) (process_loop H limit ps acc)"
proof (induction ps arbitrary: acc)
  case (Cons p ps)
  have "returns (\<lambda>out. int (length out) \<le> limit)
     (case entry of None \<Rightarrow> process_loop H limit ps acc
        | Some e \<Rightarrow> if limit \<le> int (length (acc @ [e])) then io_return (acc @ [e]) else process_loop H limit ps (acc @ [e]))"
    for entry
  proof (cases entry)
    case (Some e)
    have "limit \<le> int (length (acc @ [e])) \<Longrightarrow> int (length (acc @ [e])) \<le> limit" using Cons.prems by simp
    with Some show ?thesis using Cons.IH [of "acc @ [e]"] by (auto intro: returns_return)
  qed (simp add: Cons.IH [OF Cons.prems])
  from returns_bind [OF returns_any this] show ?case
    unfolding process_loop.simps by (intro returns_if Cons.IH [OF Cons.prems])
qed (simp add: returns_return)

lemma iface_loop_bound: "length acc < 32 \<Longrightarrow> returns (\<lambda>out. length out \<le> 32) (iface_loop H ps acc)"
proof (induction ps arbitrary: acc)
  case (Cons p ps)
  then show ?case by (auto intro!: returns_bind [OF returns_any] returns_return)
qed (simp add: returns_return)

section \<open>Properties\<close>

text \<open>
  C12: when the programs that commands start and the Python modules of others change nothing
  outside a set of paths, running any capability, of whatever kind and with whatever
  arguments, changes nothing outside that set and the write area of fs_write.
  A call of fs_write that its check refuses does nothing; any other, failing or not, changes
  no file but the one its path leads to, and creates no more than directories beside it. That
  file lies below a write root unless the first component of the path starts with a tilde, and
  it holds the given content when the call returns.
\<close>

theorem seed_tools_confined:
  assumes "runtime_touches A rt"
  shows "touches (write_area H \<union> A) (exec_run (with_seed H rt) eg tr manifest args)
   \<and> (case (path_argument args, jget args ''content'') of
        (Inr path, JStr content) \<Rightarrow>
          (case (fs_write H args w, allowed_roots H ''write'', ensure_allowed H ''write'' path) of
             ((r, w'), Inr roots, Inr _) \<Rightarrow>
               let target = h_real H (raw_path H path) in
               keeps {target} (w_fs w) (w_fs w')
               \<and> (if tilde path then True else list_ex (\<lambda>root. is_prefix root target) roots)
               \<and> (case r of Inl e \<Rightarrow> True
                  | Inr out \<Rightarrow> fs_get (w_fs w') target = Some (FileN (h_data H content))
                      \<and> jget out ''bytes_written'' = JInt (int (length (utf8 content))))
           | ((r, w'), _) \<Rightarrow> \<not> is_ok r \<and> w' = w)
      | _ \<Rightarrow> \<not> is_ok (fst (fs_write H args w)) \<and> snd (fs_write H args w) = w)"
proof
  show "touches (write_area H \<union> A) (exec_run (with_seed H rt) eg tr manifest args)"
    by (rule exec_run_touches [OF seed_touches [OF assms]])
  show "case (path_argument args, jget args ''content'') of
        (Inr path, JStr content) \<Rightarrow>
          (case (fs_write H args w, allowed_roots H ''write'', ensure_allowed H ''write'' path) of
             ((r, w'), Inr roots, Inr _) \<Rightarrow>
               let target = h_real H (raw_path H path) in
               keeps {target} (w_fs w) (w_fs w')
               \<and> (if tilde path then True else list_ex (\<lambda>root. is_prefix root target) roots)
               \<and> (case r of Inl e \<Rightarrow> True
                  | Inr out \<Rightarrow> fs_get (w_fs w') target = Some (FileN (h_data H content))
                      \<and> jget out ''bytes_written'' = JInt (int (length (utf8 content))))
           | ((r, w'), _) \<Rightarrow> \<not> is_ok r \<and> w' = w)
      | _ \<Rightarrow> \<not> is_ok (fst (fs_write H args w)) \<and> snd (fs_write H args w) = w"
  proof (cases "\<exists>path content u. path_argument args = Inr path \<and> jget args ''content'' = JStr content
      \<and> ensure_allowed H ''write'' path = Inr u")
    case True
    then obtain path content u where arg: "path_argument args = Inr path" "jget args ''content'' = JStr content"
      "ensure_allowed H ''write'' path = Inr u" by blast
    then obtain roots p where roots: "allowed_roots H ''write'' = Inr roots" "resolve_text H path = Inr p"
      "list_ex (\<lambda>root. is_prefix root p) roots" by (auto simp: ensure_Inr)
    obtain r w' where run: "fs_write H args w = (r, w')" by fastforce
    have "\<not> tilde path \<longrightarrow> list_ex (\<lambda>root. is_prefix root (h_real H (raw_path H path))) roots"
      using roots(2,3) resolve_plain [of path H] by auto
    with arg roots run fs_write_effect [OF arg run] show ?thesis by (simp add: Let_def)
  next
    case False
    from fs_write_refused [OF this, of w] False show ?thesis
      by (cases "fs_write H args w") (auto simp: is_ok_iff split: sum.split json.split)
  qed
qed

text \<open>
  Fs_read changes nothing and sends nothing; when it returns, its path, with a leading
  tilde expanded, is below a read root, and for a bound that is not negative the answer is a
  beginning of the text of the file that the path leads to, which fits into that many bytes
  and never ends within a character. A negative bound is no bound: it drops that many bytes
  from the end.
\<close>

theorem fs_read_bounded:
  "reads_only (fs_read H args)
   \<and> (case fs_read H args w of
       (Inl e, w') \<Rightarrow> True
     | (Inr out, w') \<Rightarrow>
        \<exists>path d n. jget args ''path'' = JStr path
          \<and> is_ok (ensure_allowed H ''read'' path)
          \<and> fs_get (w_fs w) (h_real H (raw_path H path)) = Some (FileN d)
          \<and> py_int (py_or (jget args ''max_bytes'') (JInt 65536)) = Inr n
          \<and> jget out ''content'' = JStr (cut_text n (h_text H d)))
   \<and> (if 0 \<le> n then (\<exists>k. cut_text n text = take k text) \<and> int (length (utf8 (cut_text n text))) \<le> n else True)
   \<and> (if list_all (\<lambda>c. code c < 128) text then cut_text (- 1) text = take (length text - 1) text else True)"
proof (intro conjI)
  show "case fs_read H args w of (Inl e, w') \<Rightarrow> True
     | (Inr out, w') \<Rightarrow>
        \<exists>path d n. jget args ''path'' = JStr path
          \<and> is_ok (ensure_allowed H ''read'' path)
          \<and> fs_get (w_fs w) (h_real H (raw_path H path)) = Some (FileN d)
          \<and> py_int (py_or (jget args ''max_bytes'') (JInt 65536)) = Inr n
          \<and> jget out ''content'' = JStr (cut_text n (h_text H d))"
  proof (cases "fs_read H args w")
    case (Pair r w')
    show ?thesis
    proof (cases r)
      case (Inr out)
      with Pair obtain path t w1 n where "path_argument args = Inr path"
        and "ensure_allowed H ''read'' path = Inr ()"
        and "read_at H (raw_path H path) w = (Inr t, w1)"
        and "py_int (py_or (jget args ''max_bytes'') (JInt 65536)) = Inr n"
        and "out = JObj [(''path'', JStr (show_path path)), (''content'', JStr (cut_text n t))]"
        by (auto simp: fs_read_def io_inv)
      with read_at_Inr have "jget args ''path'' = JStr path"
        "is_ok (ensure_allowed H ''read'' path)"
        "\<exists>d. fs_get (w_fs w) (h_real H (raw_path H path)) = Some (FileN d) \<and> jget out ''content'' = JStr (cut_text n (h_text H d))"
        "py_int (py_or (jget args ''max_bytes'') (JInt 65536)) = Inr n"
        by (fastforce simp: path_argument_def jget_def get_or_def split: json.splits if_splits)+
      with Pair Inr show ?thesis by auto
    qed (simp add: Pair)
  qed
  show "if list_all (\<lambda>c. code c < 128) text then cut_text (- 1) text = take (length text - 1) text else True"
    using utf8_ignore_ascii_all [of "take (length text - 1) text"]
    by (auto simp: cut_text_def slice_to_def utf8_ascii take_map list_all_length)
qed (use reads_tools(7) cut_text_bound in auto)

text \<open>
  The listings are bounded whatever is asked and whatever is on the host: at most
  \<open>limit\<close> processes, and never more than 200 or fewer than one allowed, and at most 32 network
  interfaces.
\<close>

theorem listings_bounded:
  "returns (\<lambda>out. int (length (items (jget out ''processes''))) \<le> process_limit args) (process_list H args)
   \<and> 1 \<le> process_limit args \<and> process_limit args \<le> 200
   \<and> process_limit (JObj [(''limit'', JInt n)]) = max 1 (min n 200)
   \<and> returns (\<lambda>out. length (items (jget out ''interfaces'')) \<le> 32) (host_net_ifaces H args)"
proof (intro conjI)
  show lim: "1 \<le> process_limit args" "process_limit args \<le> 200" by (auto simp: process_limit_def Let_def)
  have loop: "returns (\<lambda>out. int (length out) \<le> process_limit args) (process_loop H (process_limit args) ps [])" for ps
    using lim by (intro process_loop_bound) simp_all
  show "returns (\<lambda>out. int (length (items (jget out ''processes''))) \<le> process_limit args) (process_list H args)"
    unfolding process_list_def
    by (intro returns_bind [OF returns_any] returns_if returns_return returns_bind [OF loop])
       (use lim in \<open>simp_all add: jget_def get_or_def\<close>)
  show "process_limit (JObj [(''limit'', JInt n)]) = max 1 (min n 200)"
    by (simp add: process_limit_def Let_def get_or_def)
  have ifaces: "returns (\<lambda>out. length out \<le> 32) (iface_loop H ps [])" for ps by (rule iface_loop_bound) simp
  show "returns (\<lambda>out. length (items (jget out ''interfaces'')) \<le> 32) (host_net_ifaces H args)"
    unfolding host_net_ifaces_def Let_def
    by (intro returns_bind [OF returns_any] returns_if returns_return returns_bind [OF ifaces])
       (simp_all add: jget_def get_or_def)
qed

lemma mk_dirs_succeeds: "list_all (\<lambda>q. \<not> is_file s q) ps \<Longrightarrow> \<exists>t. mk_dirs ps s = Inr t"
proof (induction ps arbitrary: s)
  case (Cons p ps)
  have "list_all (\<lambda>q. \<not> is_file (fs_put p DirN s) q) ps" using Cons.prems by (auto simp: list_all_iff is_file_def)
  with Cons show ?case by (auto simp: is_file_def split: option.splits node.splits)
qed simp

lemma write_text_succeeds:
  assumes "w_faults w = []" and "is_dir (w_fs w) (parent p)" and "\<not> is_dir (w_fs w) p"
  shows "\<exists>w'. write_text H p c w = (Inr (), w')"
  using assms by (simp add: write_text_def write_file_def prim_def io_bind_def Let_def is_file_def)

lemma write_goes_through:
  assumes "path_argument args = Inr path" and "jget args ''content'' = JStr content" and "is_ok (ensure_allowed H ''write'' path)"
    and "w_faults w = []" and "list_all (\<lambda>q. \<not> is_file (w_fs w) q) (way_to H (parent_of H path))"
    and "h_real H (raw_path H path) \<notin> set (way_to H (parent_of H path))" and "\<not> is_dir (w_fs w) (h_real H (raw_path H path))"
    and "parent (h_real H (raw_path H path)) \<in> set ([] # way_to H (parent_of H path))"
  shows "\<exists>out w'. fs_write H args w = (Inr out, w')
    \<and> fs_get (w_fs w') (h_real H (raw_path H path)) = Some (FileN (h_data H content))
    \<and> list_all (is_dir (w_fs w')) (way_to H (parent_of H path))"
proof -
  let ?p = "h_real H (raw_path H path)" and ?way = "way_to H (parent_of H path)"
  obtain u where ok: "ensure_allowed H ''write'' path = Inr u" using assms(3) by (auto simp: is_ok_iff)
  obtain t where mk: "mk_dirs ?way (w_fs w) = Inr t" using mk_dirs_succeeds [OF assms(5)] by blast
  define w1 where "w1 = w\<lparr>w_fs := t, w_hist := w_hist w @ [t]\<rparr>"
  have 1: "mkdir_way H (parent_of H path) w = (Inr (), w1)"
    using assms(4) by (simp add: mkdir_way_def prim_def mk w1_def)
  have dirs: "list_all (is_dir t) ?way" and p: "fs_get t ?p = fs_get (w_fs w) ?p"
    using mk_dirs_keeps [OF mk] assms(6) by (auto simp: list_all_iff is_dir_def)
  have "w_faults w1 = []" "is_dir (w_fs w1) (parent ?p)" "\<not> is_dir (w_fs w1) ?p"
    using assms(4,7,8) dirs p by (auto simp: w1_def list_all_iff is_dir_def)
  then obtain w2 where 2: "write_text H ?p content w1 = (Inr (), w2)" using write_text_succeeds by blast
  have "is_dir (w_fs w2) q" if "q \<in> set ?way" for q
  proof -
    have "q \<noteq> ?p" using that assms(6) by metis
    with write_text_effect(1) [OF 2] that dirs show ?thesis by (simp add: list_all_iff is_dir_def same_off_def w1_def)
  qed
  then have "list_all (is_dir (w_fs w2)) ?way" by (simp add: list_all_iff)
  with 1 2 write_text_effect(2) [OF 2] show ?thesis
    unfolding fs_write_runs [OF assms(1,2) ok] by (simp add: io_bind_def io_return_def)
qed

text \<open>Paths on a host without links.\<close>

definition norm_path :: "path \<Rightarrow> path" where
  "norm_path raw = foldl (\<lambda>p c. if c = ''..'' then butlast p else p @ [c]) [] raw"

lemma norm_fold: "''..'' \<notin> set cs \<Longrightarrow> foldl (\<lambda>p c. if c = ''..'' then butlast p else p @ [c]) p cs = p @ cs"
  by (induction cs arbitrary: p) auto

lemma norm_plain: "''..'' \<notin> set cs \<Longrightarrow> norm_path cs = cs"
  by (simp add: norm_path_def norm_fold)

lemma norm_back: "''..'' \<notin> set cs \<Longrightarrow> d \<noteq> ''..'' \<Longrightarrow> norm_path (d # ''..'' # cs) = cs"
  by (simp add: norm_path_def norm_fold)

lemma prefixes_snoc: "prefixes_of (p @ [x]) = prefixes_of p @ [p @ [x]]"
  by (auto simp: prefixes_of_def)

lemma way_plain:
  assumes "h_real H = norm_path" and "''..'' \<notin> set raw"
  shows "way_to H raw = prefixes_of raw"
proof -
  have "norm_path q = q \<and> q \<noteq> []" if "q \<in> set (prefixes_of raw)" for q
    using that assms(2) by (auto simp: prefixes_of_def intro!: norm_plain dest: in_set_takeD)
  then have "map norm_path (prefixes_of raw) = prefixes_of raw" "filter (\<lambda>q. q \<noteq> []) (prefixes_of raw) = prefixes_of raw"
    by (simp_all add: map_idI filter_id_conv)
  then show ?thesis by (simp add: way_to_def assms(1))
qed

lemma way_back:
  assumes "h_real H = norm_path" and "''..'' \<notin> set cs" and "d \<noteq> ''..''"
  shows "set (way_to H (d # ''..'' # cs)) = insert [d] (set (prefixes_of cs))"
proof -
  have split: "prefixes_of (d # ''..'' # cs) = [d] # [d, ''..''] # map (\<lambda>q. d # ''..'' # q) (prefixes_of cs)"
    by (simp add: prefixes_of_def upt_conv_Cons map_Suc_upt [symmetric] comp_def del: upt_Suc)
  have again: "norm_path (d # ''..'' # q) = q \<and> q \<noteq> []" if "q \<in> set (prefixes_of cs)" for q
    using that assms(2,3) by (auto simp: prefixes_of_def intro!: norm_back dest: in_set_takeD)
  have "norm_path [d] = [d]" "norm_path [d, ''..''] = []" using assms(3) norm_back [of "[]" d] by (auto simp: norm_plain)
  with again show ?thesis by (auto simp: way_to_def assms(1) split image_iff)
qed

lemma dir_ready_no_file: "dir_ready s p \<Longrightarrow> q \<in> set (prefixes_of p) \<Longrightarrow> \<not> is_file s q"
  by (auto simp: dir_ready_def list_all_iff is_file_def)


text \<open>
  C23: with the default settings the write roots contain the store: fs_write, itself a
  capability of the shipped catalog, can replace the local catalog by any document, so what
  the catalog then holds has passed neither the installer nor the trust policy.
\<close>

theorem fs_write_reaches_catalog:
  assumes "h_env H = (\<lambda>_. None)" and "h_real H = norm_path" and "base_dir st = path_parts default_base_dir"
    and "w_faults w = []" and "dir_ready (w_fs w) (base_dir st)" and "fs_get (w_fs w) (local_catalog st) \<noteq> Some DirN"
  shows "\<exists>out w'. fs_write H (JObj [(''path'', JStr (default_base_dir @ ''/manifest.local.json'')), (''content'', JStr c)]) w
      = (Inr out, w')
    \<and> local_view v st (w_fs w') = rbind (parse_json (h_data H c)) (catalog_of_json v (local_catalog st))"
proof -
  let ?s = "default_base_dir @ ''/manifest.local.json''"
  let ?args = "JObj [(''path'', JStr ?s), (''content'', JStr c)]"
  have raw: "raw_path H ?s = path_parts ?s" "parent_of H ?s = parent (path_parts ?s)"
  proof -
    have "starts_with ''/'' ?s" "path_parts ?s \<noteq> []" by code_simp+
    then show "raw_path H ?s = path_parts ?s" "parent_of H ?s = parent (path_parts ?s)"
      by (simp_all add: raw_path_def parent_of_def)
  qed
  have p: "norm_path (path_parts ?s) = local_catalog st"
    and way: "filter (\<lambda>q. q \<noteq> []) (map norm_path (prefixes_of (parent (path_parts ?s)))) = prefixes_of (base_dir st)"
    and par: "parent (local_catalog st) \<in> set ([] # prefixes_of (base_dir st))"
    and out: "local_catalog st \<notin> set (prefixes_of (base_dir st))" "local_catalog st \<noteq> []"
    unfolding local_catalog_def assms(3) by code_simp+
  have roots: "allowed_roots H ''write'' = Inr [[''var'', ''lib'', ''unison''], [''tmp'']]"
  proof -
    have parts: "filter (\<lambda>r. r \<noteq> []) (map str_strip (split_on (CHR '','') ''/var/lib/unison,/tmp'')) = [''/var/lib/unison'', ''/tmp'']"
      "norm_path (path_parts ''/var/lib/unison'') = [''var'', ''lib'', ''unison'']" "norm_path (path_parts ''/tmp'') = [''tmp'']"
      by code_simp+
    then show ?thesis
      by (simp add: allowed_roots_def split_paths_def assms(1,2) getenv_def resolve_plain tilde_def raw_path_def)
  qed
  have "\<not> tilde ?s" "list_ex (\<lambda>root. is_prefix root (norm_path (path_parts ?s))) [[''var'', ''lib'', ''unison''], [''tmp'']]"
    by code_simp+
  then have "ensure_allowed H ''write'' ?s = Inr ()"
    unfolding ensure_Inr using roots raw(1) assms(2) by (auto simp: resolve_plain)
  then have ok: "is_ok (ensure_allowed H ''write'' ?s)" by simp
  have arg: "path_argument ?args = Inr ?s" "jget ?args ''content'' = JStr c"
    by (simp_all add: path_argument_def jget_def get_or_def default_base_dir_def)
  have free: "list_all (\<lambda>q. \<not> is_file (w_fs w) q) (prefixes_of (base_dir st))" "\<not> is_dir (w_fs w) (local_catalog st)"
    using assms(5,6) out(2) by (auto simp: dir_ready_def list_all_iff is_file_def is_dir_def)
  from write_goes_through [OF arg ok assms(4), unfolded way_to_def raw assms(2) p way, OF free(1) out(1) free(2) par]
  show ?thesis by (auto simp: local_view_def catalog_at_def)
qed

section \<open>Witnesses\<close>

text \<open>
  A host without links, on which a written text is kept as it is; the home of its service is
  below a write root, and it works in /srv.
\<close>

definition sample_host :: host where
  "sample_host = \<lparr>h_env = (\<lambda>_. None), h_real = norm_path, h_cwd = [''srv''],
     h_home = (\<lambda>u. if u = [] then Some [''var'', ''lib'', ''unison'', ''home''] else None),
     h_text = (\<lambda>d. case d of Raw s \<Rightarrow> s | Doc j \<Rightarrow> []),
     h_data = (\<lambda>s. if s = ''all'' then Doc (catalog_payload [(''demo.echo'', demo_manifest)]) else Raw s),
     h_hostname = ''box'', h_platform = ''linux'', h_kernel = (''Linux'', ''6'', ''1''), h_python = ''3.12'', h_now = 0,
     h_iso = ''1970-01-01T00:00:00+00:00'', h_cpus = JInt 1, h_disk = (\<lambda>_. Inr (1, 1, 0)), h_repo_root = []\<rparr>"

definition default_world :: world where
  "default_world = blank_world\<lparr>w_fs := map (\<lambda>p. (p, DirN)) (prefixes_of (path_parts default_base_dir))\<rparr>"

text \<open>Two paths that pass the check: the first is written to /srv/~, the second creates /etc.\<close>

definition srv_world :: world where
  "srv_world = default_world\<lparr>w_fs := ([''srv''], DirN) # ([''tmp''], DirN) # w_fs default_world\<rparr>"


text \<open>A runtime whose commands write one file.\<close>

definition writing_runtime :: runtime_env where
  "writing_runtime = (quiet_runtime [])\<lparr>run_process :=
     (\<lambda>argv env t s. (Inr \<lparr>returncode = 0, stdout = [], stderr = []\<rparr>, [fs_put [''opt'', ''out''] (FileN (Raw ''x'')) s]))\<rparr>"

lemma writing_runtime_touches: "runtime_touches {[''opt'', ''out'']} writing_runtime"
  by (auto simp: runtime_touches_def callables_touch_def commands_touch_def writing_runtime_def quiet_runtime_def same_off_def)

lemma seed_tools_confined_witness:
  "touches (write_area sample_host \<union> {[''opt'', ''out'']})
     (exec_run (with_seed sample_host writing_runtime) None (\<lambda>rq. Inl url_error) list_manifest (JObj []))"
  using seed_tools_confined [OF writing_runtime_touches] by blast

lemma fs_write_reaches_catalog_witness:
  "\<exists>out w'. fs_write sample_host (JObj [(''path'', JStr (default_base_dir @ ''/manifest.local.json'')), (''content'', JStr ''all'')])
        default_world = (Inr out, w')
    \<and> local_view reference_errors \<lparr>base_dir = path_parts default_base_dir, base_catalog_path = None, repo_root = []\<rparr> (w_fs w')
        = Inr [(''demo.echo'', demo_manifest)]"
proof -
  let ?st = "\<lparr>base_dir = path_parts default_base_dir, base_catalog_path = None, repo_root = []\<rparr>"
  have w: "w_faults default_world = []" "dir_ready (w_fs default_world) (base_dir ?st)"
    "fs_get (w_fs default_world) (local_catalog ?st) \<noteq> Some DirN"
    by code_simp+
  have "rbind (parse_json (h_data sample_host ''all'')) (catalog_of_json reference_errors (local_catalog ?st))
      = Inr [(''demo.echo'', demo_manifest)]"
    by code_simp
  with fs_write_reaches_catalog [of sample_host ?st default_world "''all''" reference_errors] w show ?thesis
    by (simp add: sample_host_def)
qed

end
