(* ===== verification/Server.thy ===== *)
theory Server
  imports Oauth_Laws Security Seed_Tools
begin

text \<open>
  src/server.py: the HTTP application. \<open>create_app\<close> wires the components from a
  configuration; a request passes the local-only middleware, authentication and the role
  check of its route, and is then handled. A handler counts the request, does its work on
  the world, maps every failure to an HTTP error that it audits, and records how long it
  took. What FastAPI, unison_common and the clocks supply are parameters.
\<close>

section \<open>The state of the process\<close>

text \<open>
  Latencies are floats, in seconds. \<open>sv_add\<close> is the addition of floats that the interpreter has:
  a parameter that never changes, so that sums are rounded as they are there.
\<close>

record srv =
  sv_world :: world
  sv_metrics :: "int dict"
  sv_latency_sum :: "flt dict"
  sv_latency_count :: "int dict"
  sv_add :: "flt \<Rightarrow> flt \<Rightarrow> flt"

type_synonym 'a act = "srv \<Rightarrow> 'a res \<times> srv"

definition count_of :: "int dict \<Rightarrow> string \<Rightarrow> int" where
  "count_of d k = (case dget d k of None \<Rightarrow> 0 | Some n \<Rightarrow> n)"

definition sum_of :: "flt dict \<Rightarrow> string \<Rightarrow> flt" where
  "sum_of d k = (case dget d k of None \<Rightarrow> Dec 0 0 | Some x \<Rightarrow> x)"

definition metric :: "string \<Rightarrow> srv \<Rightarrow> srv" where
  "metric name s = s\<lparr>sv_metrics := dset name (count_of (sv_metrics s) name + 1) (sv_metrics s)\<rparr>"

definition observe :: "string \<Rightarrow> flt \<Rightarrow> srv \<Rightarrow> srv" where
  "observe name secs s =
     s\<lparr>sv_latency_sum := dset name (sv_add s (sum_of (sv_latency_sum s) name) secs) (sv_latency_sum s),
       sv_latency_count := dset name (count_of (sv_latency_count s) name + 1) (sv_latency_count s)\<rparr>"

definition on_world :: "'a io \<Rightarrow> 'a act" where
  "on_world m s = (case m (sv_world s) of (r, w) \<Rightarrow> (r, s\<lparr>sv_world := w\<rparr>))"

text \<open>\<open>_metric(name); body\<close>, and the same with \<open>try: body finally: _observe(op, secs)\<close>.\<close>

definition counted :: "string \<Rightarrow> 'a io \<Rightarrow> 'a act" where
  "counted name body s = on_world body (metric name s)"

definition timed :: "string \<Rightarrow> string \<Rightarrow> flt \<Rightarrow> 'a io \<Rightarrow> 'a act" where
  "timed name op secs body s = (case counted name body s of (r, s') \<Rightarrow> (r, observe op secs s'))"

section \<open>Errors\<close>

definition http_error :: "exc \<Rightarrow> exc" where
  "http_error e = (case e of
     CapabilityNotFoundError t \<Rightarrow> HTTPException 404 t
   | CapabilityManifestError t \<Rightarrow> HTTPException 400 t
   | CapabilityPolicyError t \<Rightarrow> HTTPException 400 t
   | CapabilityInstallError t \<Rightarrow> HTTPException 400 t
   | _ \<Rightarrow> HTTPException 500 (exc_text e))"

section \<open>The application\<close>

record web_request =
  wr_client :: "string option"
  wr_credentials :: "credentials option"
  wr_header :: "string \<Rightarrow> string option"

record server =
  s_config :: service_config
  s_resolver :: resolver
  s_oauth :: "oauth_manager res"
  s_security :: "security_deps res"
  s_bind_identity :: "(json \<Rightarrow> web_request \<Rightarrow> json res) option"
  s_emit :: "audit_event \<Rightarrow> unit io"
  s_schema :: "unit res"
  s_token :: string
  s_session :: string

text \<open>What the process finds outside: the environment, the file names it resolves, the services.\<close>

record outside =
  x_env :: env
  x_resolve :: "string \<Rightarrow> path"
  x_repo_root :: path
  x_transport :: transport
  x_validator :: validator
  x_sha :: "string \<Rightarrow> string"
  x_clock :: clock_env
  x_timestamp :: string
  x_runtime :: runtime_env
  x_jwt :: "jwt_functions option"
  x_bind_identity :: "(json \<Rightarrow> web_request \<Rightarrow> json res) option"
  x_schema :: "unit res"
  x_encrypt :: "string \<Rightarrow> fdata \<Rightarrow> string"
  x_decrypt :: "string \<Rightarrow> string \<Rightarrow> fdata option"
  x_key_file :: "string \<Rightarrow> string option"
  x_generated :: string
  x_token :: string
  x_session :: string

definition store_at :: "outside \<Rightarrow> string \<Rightarrow> capability_store" where
  "store_at X dir = \<lparr>base_dir = x_resolve X dir, base_catalog_path = None, repo_root = x_repo_root X\<rparr>"

definition store_from_env :: "outside \<Rightarrow> capability_store" where
  "store_from_env X = store_at X (getenv (x_env X) ''UNISON_CAPABILITY_STORE_DIR'' ''/var/lib/unison/capabilities'')"

text \<open>The registries of a configuration, in the order in which they are asked.\<close>

definition registries_for :: "outside \<Rightarrow> egress_config \<Rightarrow> registries_config \<Rightarrow> listing list" where
  "registries_for X eg rc =
     (let request = egress_request eg (x_transport X) in
      (case static_catalog_path rc of
         Some p \<Rightarrow> if p = [] then [] else [static_list (x_sha X) (x_validator X) ''static_catalog'' (x_resolve X p)]
       | None \<Rightarrow> [])
      @ (if http_catalog_urls rc = [] then []
         else [http_list (x_sha X) (x_validator X) request ''http_catalog'' (http_catalog_urls rc)])
      @ (case mcp_from_env (x_env X) of
           Some u \<Rightarrow> [mcp_list (x_sha X) (x_validator X) request ''mcp_registry'' u]
         | None \<Rightarrow> []))"

definition resolver_with ::
    "outside \<Rightarrow> capability_store \<Rightarrow> egress_config option \<Rightarrow> listing list \<Rightarrow> resolver" where
  "resolver_with X st eg adapters =
     \<lparr>r_store = st, r_policy = policy_from_env (x_env X), r_runtime = x_runtime X, r_egress = eg,
      r_transport = x_transport X, r_adapters = adapters, r_validator = x_validator X, r_sha = x_sha X,
      r_clock = x_clock X, r_env = x_env X, r_resolve_path = x_resolve X\<rparr>"

definition resolver_from_env :: "outside \<Rightarrow> resolver" where
  "resolver_from_env X = resolver_with X (store_from_env X) None []"

definition app_with :: "outside \<Rightarrow> service_config \<Rightarrow> egress_config \<Rightarrow> server" where
  "app_with X config eg =
     (let st = store_at X (cfg_base_dir config); emit = audit_emit (x_sha X) (x_timestamp X) (service_name config) in
      \<lparr>s_config = config,
       s_resolver = resolver_with X st (Some eg) (registries_for X eg (cfg_registries config)),
       s_oauth = default_oauth_manager (x_encrypt X) (x_decrypt X) (x_key_file X) (x_generated X) (x_token X) st eg
         (x_transport X) (x_validator X) (x_env X) (now_us (x_clock X)) emit,
       s_security = security_from_config (x_env X) (x_jwt X) (cfg_auth config) (cfg_authz config),
       s_bind_identity = (if auth_mode (cfg_auth config) = ''unison_jwt'' then x_bind_identity X else None),
       s_emit = emit, s_schema = x_schema X, s_token = x_token X, s_session = x_session X\<rparr>)"

definition egress_of :: "service_config \<Rightarrow> egress_config option \<Rightarrow> egress_config" where
  "egress_of config controller = (case controller of Some c \<Rightarrow> c | None \<Rightarrow> cfg_egress config)"

definition create_app :: "outside \<Rightarrow> service_config \<Rightarrow> egress_config option \<Rightarrow> server res" where
  "create_app X config controller =
     (if auth_mode (cfg_auth config) = ''disabled'' \<and> \<not> unsafe_allow_no_auth (cfg_auth config) then
        Inl (PyError RuntimeError ''UNISON_CAPABILITY_AUTH_MODE=disabled requires UNISON_CAPABILITY_UNSAFE_NO_AUTH=true'')
      else Inr (app_with X config (egress_of config controller)))"

text \<open>Where the process listens: on a Unix socket when one is configured.\<close>

datatype address = Unix_Socket string | Tcp string int

definition listen_on :: "bind_config \<Rightarrow> address" where
  "listen_on b = (case uds_path b of
     Some p \<Rightarrow> if p = [] then Tcp (bind_host b) (bind_port b) else Unix_Socket p
   | None \<Rightarrow> Tcp (bind_host b) (bind_port b))"

text \<open>Starting the service: the module loads the configuration and makes the application, \<open>main\<close> loads it again.\<close>

definition startup :: "outside \<Rightarrow> (string \<Rightarrow> bool) \<Rightarrow> (string \<Rightarrow> json res) \<Rightarrow> (server \<times> address) res" where
  "startup X exists_file read_yaml =
     rbind (config_load (x_env X) exists_file read_yaml) (\<lambda>config.
     rbind (create_app X config None) (\<lambda>S.
     rbind (config_load (x_env X) exists_file read_yaml) (\<lambda>cfg.
     Inr (S, listen_on (cfg_bind cfg)))))"

text \<open>The directories that a configuration names; the store has its own names for two of them.\<close>

definition base_path :: "outside \<Rightarrow> service_config \<Rightarrow> path" where
  "base_path X config = x_resolve X (cfg_base_dir config)"

definition tmp_path :: "outside \<Rightarrow> service_config \<Rightarrow> path" where
  "tmp_path X config = base_path X config @ [''tmp'']"

definition locks_path :: "outside \<Rightarrow> service_config \<Rightarrow> path" where
  "locks_path X config = base_path X config @ [''locks'']"

definition logs_path :: "outside \<Rightarrow> service_config \<Rightarrow> path" where
  "logs_path X config = base_path X config @ [''logs'']"

definition cache_path :: "outside \<Rightarrow> service_config \<Rightarrow> path" where
  "cache_path X config = base_path X config @ [''cache'']"

lemma config_paths_of_store:
  "base_dir (store_at X (cfg_base_dir config)) = base_path X config"
  "tmp_dir (store_at X (cfg_base_dir config)) = tmp_path X config"
  "locks_dir (store_at X (cfg_base_dir config)) = locks_path X config"
  by (simp_all add: store_at_def base_path_def tmp_dir_def tmp_path_def locks_dir_def locks_path_def)

section \<open>Auditing\<close>

definition request_id :: "web_request \<Rightarrow> string option" where
  "request_id rq = (case wr_header rq ''x-request-id'' of
     Some i \<Rightarrow> if i = [] then wr_header rq ''x-event-id'' else Some i
   | None \<Rightarrow> wr_header rq ''x-event-id'')"

definition emit_for :: "server \<Rightarrow> web_request \<Rightarrow> json \<Rightarrow> audit_event \<Rightarrow> unit io" where
  "emit_for S rq user e = s_emit S (e\<lparr>ae_principal := user, ae_request_id := request_id rq\<rparr>)"

definition about :: "string \<Rightarrow> string \<Rightarrow> audit_event \<Rightarrow> audit_event" where
  "about kind i e = e\<lparr>ae_resource_type := Some kind, ae_resource_id := Some i\<rparr>"

definition failed :: "exc \<Rightarrow> audit_event \<Rightarrow> audit_event" where
  "failed exc e = e\<lparr>ae_outcome := ''error'', ae_reason := Some (exc_text exc), ae_severity := ''ERROR''\<rparr>"

text \<open>
  The shape of every handler: when the body raises, the failure is audited and mapped.
  Computing what the audit event is about may raise itself.
\<close>

definition handled :: "server \<Rightarrow> web_request \<Rightarrow> json \<Rightarrow> audit_event res \<Rightarrow> 'a io \<Rightarrow> 'a io" where
  "handled S rq user on_error body =
     io_try body (\<lambda>exc.
       io_bind (io_lift on_error) (\<lambda>e.
       io_bind (emit_for S rq user (failed exc e)) (\<lambda>_.
       io_raise (http_error exc))))"

section \<open>Health and metrics\<close>

definition health :: "server \<Rightarrow> json io" where
  "health S = io_return (JObj [(''status'', JStr ''ok''), (''service'', JStr (service_name (s_config S)))])"

definition version_info :: "server \<Rightarrow> json io" where
  "version_info S = io_return (JObj
     [(''service'', JStr (service_name (s_config S))), (''version'', JStr (service_version (s_config S))),
      (''schema_version'', JStr (schema_version (s_config S)))])"

text \<open>The three probes of \<open>/readyz\<close>: whether they pass and the detail they report.\<close>

definition probe :: "string \<Rightarrow> (bool \<times> json dict) io \<Rightarrow> (bool \<times> json dict) io" where
  "probe error_key m = io_try m (\<lambda>exc. io_return (False, [(error_key, JStr (exc_text exc))]))"

definition probe_store :: "server \<Rightarrow> (bool \<times> json dict) io" where
  "probe_store S = probe ''store_error''
     (let st = r_store (s_resolver S) in
      io_bind (mkdir_p (base_dir st)) (\<lambda>_.
      io_bind (take_lock (lock_path st)) (\<lambda>_.
      io_return (True, [(''store_dir'', JStr (path_str (base_dir st)))]))))"

definition probe_schema :: "server \<Rightarrow> (bool \<times> json dict) io" where
  "probe_schema S = probe ''schema_error''
     (io_bind (io_lift (s_schema S)) (\<lambda>_.
      io_return (True, [(''schema'', JStr (schema_version (s_config S)))])))"

definition probe_catalog :: "server \<Rightarrow> (bool \<times> json dict) io" where
  "probe_catalog S = probe ''base_catalog_error''
     (let st = r_store (s_resolver S) in
      io_bind (exists_io (base_catalog st)) (\<lambda>e.
      if \<not> e then io_return (False, [(''base_catalog_error'', JStr (''missing base catalog: '' @ path_str (base_catalog st)))])
      else
        io_bind (load_base_catalog (r_validator (s_resolver S)) st) (\<lambda>_.
        io_return (True, [(''base_catalog'', JStr (path_str (base_catalog st)))]))))"

definition ready :: "server \<Rightarrow> json io" where
  "ready S =
     io_bind (probe_store S) (\<lambda>(ok1, d1).
     io_bind (probe_schema S) (\<lambda>(ok2, d2).
     io_bind (probe_catalog S) (\<lambda>(ok3, d3).
     io_return (JObj ((''ready'', JBool (ok1 \<and> ok2 \<and> ok3)) # d1 @ d2 @ d3)))))"

definition metric_lines :: "string \<Rightarrow> string \<Rightarrow> ('n \<Rightarrow> string) \<Rightarrow> 'n dict \<Rightarrow> string list" where
  "metric_lines name label show_value d =
     map (\<lambda>(k, v). name @ ''{'' @ label @ ''='' @ [CHR 0x22] @ k @ [CHR 0x22] @ ''} '' @ show_value v) (sort_key fst d)"

definition metrics_text :: "flt \<Rightarrow> srv \<Rightarrow> string" where
  "metrics_text uptime s =
     str_join [CHR 0x0A]
       ([''# HELP unison_capability_requests_total Total number of requests by endpoint'',
         ''# TYPE unison_capability_requests_total counter'']
        @ metric_lines ''unison_capability_requests_total'' ''endpoint'' int_str (sv_metrics s)
        @ [[], ''# HELP unison_capability_latency_seconds_sum Total latency by operation'',
           ''# TYPE unison_capability_latency_seconds_sum counter'']
        @ metric_lines ''unison_capability_latency_seconds_sum'' ''op'' repr_flt (sv_latency_sum s)
        @ [[], ''# HELP unison_capability_latency_seconds_count Total latency samples by operation'',
           ''# TYPE unison_capability_latency_seconds_count counter'']
        @ metric_lines ''unison_capability_latency_seconds_count'' ''op'' int_str (sv_latency_count s)
        @ [[], ''# HELP unison_capability_uptime_seconds Service uptime in seconds'',
           ''# TYPE unison_capability_uptime_seconds gauge'',
           ''unison_capability_uptime_seconds '' @ repr_flt uptime])"

definition metrics :: "flt \<Rightarrow> json act" where
  "metrics uptime s = (let s' = metric ''/metrics'' s in (Inr (JStr (metrics_text uptime s')), s'))"

section \<open>The handlers\<close>

definition candidate_json :: "candidate \<Rightarrow> json" where
  "candidate_json c = JObj
     ([(''candidate_id'', JStr (cand_id c)), (''source'', JStr (cand_source c)),
       (''score'', JFloat (dec_norm (cand_score c * 25) (- 2))), (''manifest'', cand_manifest c)]
      @ (case cand_url c of Some u \<Rightarrow> if u = [] then [] else [(''manifest_url'', JStr u)] | None \<Rightarrow> []))"

definition do_search :: "server \<Rightarrow> web_request \<Rightarrow> json \<Rightarrow> json \<Rightarrow> json io" where
  "do_search S rq user payload =
     handled S rq user (Inr (about ''intent'' (str_or_empty (jget payload ''intent'')) (event ''capability.search'')))
       (let intent = str_or_empty (jget payload ''intent''); constraints = dict_or_empty (jget payload ''constraints'') in
        if intent = [] then io_raise (CapabilityManifestError ''intent required'')
        else
          io_bind (if r_adapters (s_resolver S) = [] then io_return ()
                   else emit_for S rq user (about ''registry'' ''catalogs'' (event ''registry.fetch''))) (\<lambda>_.
          io_bind (emit_for S rq user (about ''intent'' intent (event ''capability.search''))) (\<lambda>_.
          io_bind (resolver_search (s_resolver S) intent constraints) (\<lambda>cs.
          io_return (JObj [(''candidates'', JArr (map candidate_json cs))])))))"

definition do_resolve :: "server \<Rightarrow> web_request \<Rightarrow> json \<Rightarrow> json \<Rightarrow> json io" where
  "do_resolve S rq user payload =
     (let step = jget payload ''step'' in
      handled S rq user (Inr (about ''intent'' (str_or_empty (jget step ''intent'')) (event ''capability.resolve'')))
        (if \<not> is_dict step then io_raise (CapabilityManifestError ''step required'')
         else
           io_bind (emit_for S rq user (about ''intent'' (str_or_empty (jget step ''intent'')) (event ''capability.resolve''))) (\<lambda>_.
           io_bind (resolver_resolve (s_resolver S) step) (\<lambda>c.
           io_return (JObj [(''candidate'', candidate_json c)])))))"

text \<open>What a failed install is about: \<open>(candidate or {}).get("manifest", {}).get("id")\<close>.\<close>

definition failed_install :: "json \<Rightarrow> audit_event res" where
  "failed_install candidate =
     (if \<not> is_dict candidate then Inr (about ''capability'' [] (event ''capability.install_failure''))
      else
        rbind (py_get (get_or candidate ''manifest'' (JObj [])) ''id'') (\<lambda>i.
        Inr (about ''capability'' (py_str i) (event ''capability.install_failure''))))"

definition do_install :: "server \<Rightarrow> web_request \<Rightarrow> json \<Rightarrow> json \<Rightarrow> json io" where
  "do_install S rq user payload =
     (let candidate = jget payload ''candidate'' in
      handled S rq user (failed_install candidate)
        (if \<not> is_dict candidate then io_raise (CapabilityInstallError ''candidate required'')
         else
           io_bind (emit_for S rq user (about ''capability''
              (str_or_empty (jget (dict_or_empty (jget candidate ''manifest'')) ''id'')) (event ''capability.install_start''))) (\<lambda>_.
           resolver_install (s_resolver S) (s_token S) candidate)))"

definition do_run :: "server \<Rightarrow> web_request \<Rightarrow> json \<Rightarrow> json \<Rightarrow> json io" where
  "do_run S rq user payload =
     handled S rq user
       (Inr (about ''capability'' (str_or_empty (jget payload ''capability_id'')) (event ''capability.run_failure'')))
       (let cid = jget payload ''capability_id''; args = dict_or_empty (jget payload ''args'') in
        io_bind (io_lift (case s_bind_identity S of Some bind \<Rightarrow> bind args rq | None \<Rightarrow> Inr args)) (\<lambda>args.
        if \<not> truthy cid then io_raise (CapabilityManifestError ''capability_id required'')
        else
          io_bind (emit_for S rq user (about ''capability'' (py_str cid) (event ''capability.run_start''))) (\<lambda>_.
          io_bind (resolver_run (s_resolver S) (py_str cid) args) (\<lambda>result.
          io_return (JObj [(''result'', result)])))))"

definition do_list :: "server \<Rightarrow> web_request \<Rightarrow> json \<Rightarrow> json io" where
  "do_list S rq user =
     handled S rq user (Inr (event ''capability.list''))
       (io_bind (emit_for S rq user (about ''capability'' ''list'' (event ''capability.list''))) (\<lambda>_.
        io_bind (resolver_list (s_resolver S)) (\<lambda>items.
        io_return (JObj [(''items'', JArr items)]))))"

definition do_get :: "server \<Rightarrow> web_request \<Rightarrow> json \<Rightarrow> string \<Rightarrow> string option \<Rightarrow> json io" where
  "do_get S rq user cid version =
     handled S rq user (Inr (about ''capability'' cid (event ''capability.get'')))
       (io_bind (emit_for S rq user (about ''capability'' cid (event ''capability.get''))) (\<lambda>_.
        io_bind (resolver_get (s_resolver S) cid version) (\<lambda>m.
        io_return (JObj [(''manifest'', m)]))))"

definition do_remove :: "server \<Rightarrow> web_request \<Rightarrow> json \<Rightarrow> string \<Rightarrow> string \<Rightarrow> json io" where
  "do_remove S rq user cid version =
     (let e = about ''capability'' (cid @ ''@'' @ version) (event ''capability.remove'') in
      handled S rq user (Inr e)
        (if version = [] then io_raise (CapabilityManifestError ''version required'')
         else
           io_bind (resolver_remove (s_resolver S) (s_token S) cid version) (\<lambda>ok.
           io_bind (emit_for S rq user e) (\<lambda>_.
           io_return (JObj [(''removed'', JBool ok)])))))"

text \<open>A text argument of the OAuth routes; its absence is not audited.\<close>

definition text_argument :: "json \<Rightarrow> string \<Rightarrow> string res" where
  "text_argument payload k = (case jget payload k of
     JStr s \<Rightarrow> if s = [] then Inl (HTTPException 400 (k @ '' required'')) else Inr s
   | _ \<Rightarrow> Inl (HTTPException 400 (k @ '' required'')))"

definition do_oauth_start :: "server \<Rightarrow> web_request \<Rightarrow> json \<Rightarrow> json \<Rightarrow> json io" where
  "do_oauth_start S rq user payload =
     io_bind (io_lift (text_argument payload ''capability_id'')) (\<lambda>cid.
     handled S rq user (Inr (event ''oauth.start''))
       (io_bind (io_lift (s_oauth S)) (\<lambda>M. oauth_start M (s_token S) (s_session S) cid user)))"

definition do_oauth_complete :: "server \<Rightarrow> web_request \<Rightarrow> json \<Rightarrow> json \<Rightarrow> json io" where
  "do_oauth_complete S rq user payload =
     io_bind (io_lift (text_argument payload ''session_id'')) (\<lambda>sid.
     handled S rq user (Inr (event ''oauth.complete''))
       (io_bind (io_lift (s_oauth S)) (\<lambda>M. oauth_complete M (s_token S) sid user)))"

definition do_factory_reset :: "server \<Rightarrow> web_request \<Rightarrow> json \<Rightarrow> json io" where
  "do_factory_reset S rq user =
     handled S rq user (Inr (event ''capability.factory_reset''))
       (io_bind (with_lock (store_lock (s_resolver S)) (factory_reset (r_store (s_resolver S)))) (\<lambda>_.
        io_bind (emit_for S rq user (event ''capability.factory_reset'')) (\<lambda>_.
        io_return (JObj [(''status'', JStr ''ok'')]))))"

section \<open>Routes\<close>

datatype route =
    Health | Ready | Version | Metrics
  | Search json | Resolve json | Install json | RunCapability json
  | ListAll | GetOne string "string option" | Remove string string
  | OauthStart json | OauthComplete json | FactoryReset

text \<open>The routes that anyone on the machine can use, and the tier of every other one.\<close>

fun route_tier :: "route \<Rightarrow> tier option" where
  "route_tier (Search p) = Some Read"
| "route_tier (Resolve p) = Some Read"
| "route_tier (Install p) = Some AdminInstall"
| "route_tier (RunCapability p) = Some Run"
| "route_tier ListAll = Some Read"
| "route_tier (GetOne c v) = Some Read"
| "route_tier (Remove c v) = Some AdminRemove"
| "route_tier (OauthStart p) = Some AdminInstall"
| "route_tier (OauthComplete p) = Some AdminInstall"
| "route_tier FactoryReset = Some AdminRemove"
| "route_tier _ = None"

text \<open>\<open>secs\<close> is how long the handler takes, or the uptime for the metrics.\<close>

fun handle :: "server \<Rightarrow> web_request \<Rightarrow> json \<Rightarrow> flt \<Rightarrow> route \<Rightarrow> json act" where
  "handle S rq user secs Health = counted ''/healthz'' (health S)"
| "handle S rq user secs Ready = counted ''/readyz'' (ready S)"
| "handle S rq user secs Version = counted ''/version'' (version_info S)"
| "handle S rq user secs Metrics = metrics secs"
| "handle S rq user secs (Search p) = timed ''/capability/search'' ''search'' secs (do_search S rq user p)"
| "handle S rq user secs (Resolve p) = timed ''/capability/resolve'' ''resolve'' secs (do_resolve S rq user p)"
| "handle S rq user secs (Install p) = timed ''/capability/install'' ''install'' secs (do_install S rq user p)"
| "handle S rq user secs (RunCapability p) = timed ''/capability/run'' ''run'' secs (do_run S rq user p)"
| "handle S rq user secs ListAll = timed ''/capability/list'' ''list'' secs (do_list S rq user)"
| "handle S rq user secs (GetOne c v) = timed ''/capability/get'' ''get'' secs (do_get S rq user c v)"
| "handle S rq user secs (Remove c v) = timed ''/capability/remove'' ''remove'' secs (do_remove S rq user c v)"
| "handle S rq user secs (OauthStart p) = counted ''/capability/oauth/start'' (do_oauth_start S rq user p)"
| "handle S rq user secs (OauthComplete p) = counted ''/capability/oauth/complete'' (do_oauth_complete S rq user p)"
| "handle S rq user secs FactoryReset = counted ''/capability/factory_reset'' (do_factory_reset S rq user)"

text \<open>
  Who is admitted: None for a route without a tier. The dependencies are made when the
  application is; that never fails, because the names of the tiers are known ones.
\<close>

definition admit :: "server \<Rightarrow> web_request \<Rightarrow> tier option \<Rightarrow> json res" where
  "admit S rq t =
     rbind (local_only (cfg_bind (s_config S)) (wr_client rq)) (\<lambda>_.
     case t of
       None \<Rightarrow> Inr JNull
     | Some t \<Rightarrow> rbind (s_security S) (\<lambda>d. tier_dep d t (wr_credentials rq)))"

text \<open>The body of a request is a JSON object, or FastAPI answers 422.\<close>

fun body_ok :: "route \<Rightarrow> bool" where
  "body_ok (Search p) = is_dict p"
| "body_ok (Resolve p) = is_dict p"
| "body_ok (Install p) = is_dict p"
| "body_ok (RunCapability p) = is_dict p"
| "body_ok (OauthStart p) = is_dict p"
| "body_ok (OauthComplete p) = is_dict p"
| "body_ok _ = True"

definition dispatch :: "server \<Rightarrow> web_request \<Rightarrow> flt \<Rightarrow> route \<Rightarrow> json act" where
  "dispatch S rq secs r s =
     (case admit S rq (route_tier r) of
        Inl e \<Rightarrow> (Inl e, s)
      | Inr user \<Rightarrow> if body_ok r then handle S rq user secs r s else (Inl (HTTPException 422 ''Unprocessable Entity''), s))"

text \<open>
  A sequence of requests: each with the outside as it is while the request is served (clocks,
  fresh names, the answers of the network), and the time it takes.
\<close>

fun serve :: "service_config \<Rightarrow> egress_config \<Rightarrow> (outside \<times> web_request \<times> flt \<times> route) list \<Rightarrow> srv \<Rightarrow> srv" where
  "serve config eg [] s = s"
| "serve config eg ((X, rq, secs, r) # rest) s = serve config eg rest (snd (dispatch (app_with X config eg) rq secs r s))"

end
