(* ===== verification/Server_Laws.thy ===== *)
theory Server_Laws
  imports Server
begin

text \<open>
  What the application of src/server.py promises over all requests: which requests can
  change which part of the disk, where the process sends requests, what is answered and
  audited when a handler fails, and what the metrics count.
\<close>

section \<open>What the handlers rely on\<close>

text \<open>
  \<open>application S\<close>: the emitter appends to the audit log and does nothing else, the
  registries and the OAuth manager respect the egress policy, and the latter keeps to the
  store of the resolver.
\<close>

locale application =
  fixes S :: server and eg :: egress_config and payload_of :: "audit_event \<Rightarrow> json"
  assumes emits: "s_emit S e w = (Inr (), w\<lparr>w_log := w_log w @ [(ae_event e, payload_of e)]\<rparr>)"
    and egress_set: "r_egress (s_resolver S) = Some eg"
    and registries_send: "a \<in> set (r_adapters (s_resolver S)) \<Longrightarrow> sends_only (egress_allowed eg) (a q)"
    and registries_touch: "a \<in> set (r_adapters (s_resolver S)) \<Longrightarrow> touches {} (a q)"
    and oauth_onboards: "s_oauth S = Inr M \<Longrightarrow> onboarding M"
    and oauth_egress: "s_oauth S = Inr M \<Longrightarrow> o_egress M = eg"
    and oauth_store: "s_oauth S = Inr M \<Longrightarrow> o_store M = r_store (s_resolver S)"

lemma touches_read_json [touches_rules]: "touches X (read_json p)"
  unfolding read_json_def by (intro touches_rules touches_read)

lemma registries_touch_nothing:
  "touches X (static_list sha v name p q)"
  "touches X (http_list sha v (egress_request cfg tr) name us q)"
  "touches X (mcp_list sha v (egress_request cfg tr) name u q)"
proof -
  have load: "touches X (load_url (egress_request cfg tr) x)" for x
    unfolding load_url_def egress_request_def by (intro touches_rules)
  have urls: "touches X (http_urls sha v (egress_request cfg tr) name q us)"
    by (induction us) (auto intro!: touches_rules load)
  show "touches X (static_list sha v name p q)"
    unfolding static_list_def static_load_def Let_def by (intro touches_rules)
  show "touches X (http_list sha v (egress_request cfg tr) name us q)"
    unfolding http_list_def by (intro touches_rules urls)
  show "touches X (mcp_list sha v (egress_request cfg tr) name u q)"
    unfolding mcp_list_def egress_request_def by (intro touches_rules)
qed

lemma registries_for_cases:
  assumes "a \<in> set (registries_for X eg rc)"
  obtains p where "a = static_list (x_sha X) (x_validator X) ''static_catalog'' p"
    | us where "a = http_list (x_sha X) (x_validator X) (egress_request eg (x_transport X)) ''http_catalog'' us"
    | u where "a = mcp_list (x_sha X) (x_validator X) (egress_request eg (x_transport X)) ''mcp_registry'' u"
  using assms by (auto simp: registries_for_def Let_def split: option.splits if_splits)

lemma app_oauth:
  assumes "s_oauth (app_with X config eg) = Inr M"
  obtains key where "M = manager_with (x_encrypt X key) (x_decrypt X key) (x_token X) (store_at X (cfg_base_dir config)) eg
    (x_transport X) (x_validator X) (x_env X) (now_us (x_clock X)) (audit_emit (x_sha X) (x_timestamp X) (service_name config))"
  using assms by (auto simp: app_with_def Let_def default_oauth_manager_def result_simps)

interpretation app: application "app_with X config eg" eg "audit_payload (x_sha X) (x_timestamp X) (service_name config)"
  for X config eg
proof (rule application.intro, goal_cases)
  case (3 a q)
  then have "a \<in> set (registries_for X eg (cfg_registries config))" by (simp add: app_with_def Let_def resolver_with_def)
  then show ?case
    by (cases rule: registries_for_cases) (simp_all add: static_catalog.sends http_catalog.sends mcp_registry.sends)
next
  case (4 a q)
  then have "a \<in> set (registries_for X eg (cfg_registries config))" by (simp add: app_with_def Let_def resolver_with_def)
  then show ?case by (cases rule: registries_for_cases) (simp_all add: registries_touch_nothing)
next
  case (5 M)
  then show ?case by (elim app_oauth) (simp add: file_oauth.onboarding_axioms)
next
  case (6 M)
  then show ?case by (elim app_oauth) (simp add: manager_with_def)
next
  case (7 M)
  then show ?case by (elim app_oauth) (simp add: manager_with_def app_with_def Let_def resolver_with_def)
qed (simp_all add: app_with_def Let_def resolver_with_def audit_emit_def io_defs)

section \<open>Requests\<close>

lemma factory_reset_silent: "sends_only P (factory_reset st)"
  unfolding factory_reset_def unlink_missing_ok_def unlink_def
  by (intro sends_rules) (auto intro!: sends_rules split: exc.split pykind.split)

lemma probe_sends [sends_rules]: "sends_only P m \<Longrightarrow> sends_only P (probe k m)"
  unfolding probe_def by (intro sends_rules)

lemma ready_silent: "sends_only P (ready S)"
proof -
  have "sends_only P (probe_store S)" "sends_only P (probe_schema S)" "sends_only P (probe_catalog S)"
    unfolding probe_store_def probe_schema_def probe_catalog_def Let_def mkdir_p_def load_base_catalog_def
    by (intro sends_rules take_lock_silent reads_sends [OF reads_exists] reads_sends [OF reads_load])+
  then show ?thesis unfolding ready_def by (intro sends_rules) (auto intro!: sends_rules)
qed

context application
begin

abbreviation (input) allowed :: "string \<Rightarrow> bool" where
  "allowed \<equiv> egress_allowed eg"

lemma emit_silent: "sends_only P (emit_for S rq user e)"
  by (rule sends_only_silent) (simp add: emit_for_def emits)

lemma handled_sends: "sends_only P body \<Longrightarrow> sends_only P (handled S rq user err body)"
  unfolding handled_def by (intro sends_rules emit_silent)

lemma oauth_sends:
  assumes "s_oauth S = Inr M"
  shows "sends_only allowed (oauth_start M token sid cid princ)" "sends_only allowed (oauth_complete M token sid princ)"
  by (rule sends_only_mono [OF onboarding.start_sends [OF oauth_onboards [OF assms]]]
        sends_only_mono [OF onboarding.complete_sends [OF oauth_onboards [OF assms]]];
      simp add: oauth_url_def oauth_egress [OF assms])+

lemma resolver_sends:
  "sends_only allowed (resolver_list (s_resolver S))" "sends_only allowed (resolver_get (s_resolver S) k v)"
  "sends_only allowed (resolver_search (s_resolver S) i c)" "sends_only allowed (resolver_resolve (s_resolver S) step)"
  "sends_only allowed (resolver_install (s_resolver S) token cand)"
  unfolding resolver_list_def list_locked_def resolver_get_def resolver_resolve_def resolver_install_def install_locked_def Let_def
  by (intro sends_rules reads_sends [OF reads_merged] reads_sends [OF reads_get_locked] search_sends ballI allI
        registries_send resolver_fetch_sends [OF egress_set] install_sends upsert_sends copy_payload_sends;
      auto intro!: sends_rules split: option.split)+

lemma handle_sends:
  assumes "callables_send allowed (r_runtime (s_resolver S))"
  shows "\<exists>l. w_sent (sv_world (snd (handle S rq user us r s))) = w_sent (sv_world s) @ l \<and> (\<forall>q \<in> set l. allowed (rq_url q))"
proof -
  have act: "\<exists>l. w_sent (sv_world (snd (counted n m s))) = w_sent (sv_world s) @ l \<and> (\<forall>q \<in> set l. allowed (rq_url q))"
    "\<exists>l. w_sent (sv_world (snd (timed n op us m s))) = w_sent (sv_world s) @ l \<and> (\<forall>q \<in> set l. allowed (rq_url q))"
    if "sends_only allowed m" for n op m
    using that by (auto simp: sends_only_def counted_def timed_def on_world_def metric_def observe_def split: prod.split)
      (metis snd_conv)+
  note body = sends_rules handled_sends emit_silent resolver_sends remove_sends run_sends [OF egress_set assms]
    take_lock_silent factory_reset_silent
  have oauth: "sends_only allowed (io_bind (io_lift (s_oauth S)) (\<lambda>M. oauth_start M t i c u))"
    "sends_only allowed (io_bind (io_lift (s_oauth S)) (\<lambda>M. oauth_complete M t i u))" for t i c u
    by (rule sends_lift_bind, simp add: oauth_sends)+
  show ?thesis
  proof (cases r)
    case Metrics
    then show ?thesis by (simp add: metrics_def metric_def Let_def)
  next
    case Ready
    then show ?thesis using act(1) [OF ready_silent] by simp
  qed (simp only: handle.simps, (rule act)?,
       simp only: health_def version_info_def do_search_def do_resolve_def do_install_def do_run_def do_list_def do_get_def
         do_remove_def do_oauth_start_def do_oauth_complete_def do_factory_reset_def Let_def,
       intro body oauth)+
qed

lemma dispatch_sends:
  assumes "callables_send allowed (r_runtime (s_resolver S))"
  shows "\<exists>l. w_sent (sv_world (snd (dispatch S rq us r s))) = w_sent (sv_world s) @ l \<and> (\<forall>q \<in> set l. allowed (rq_url q))"
  using handle_sends [OF assms] by (auto simp: dispatch_def split: sum.split)

end

section \<open>Files\<close>

text \<open>The directory of the store with all it contains, and the directories above it.\<close>

definition store_tree :: "capability_store \<Rightarrow> path set" where
  "store_tree st = {q. is_prefix (base_dir st) q \<or> is_prefix q (base_dir st)}"

lemma area_in_tree: "store_area st \<subseteq> store_tree st" "oauth_area st \<subseteq> store_tree st"
  by (auto simp: store_area_def oauth_area_def store_tree_def is_prefix_iff)

lemma lock_in_tree: "lock_area st \<subseteq> store_tree st"
  using lock_area_in_area area_in_tree(1) by blast

lemma tree_prefixes: "is_prefix (base_dir st) p \<Longrightarrow> set (prefixes_of p) \<subseteq> store_tree st"
  using prefixes_are_prefixes [of _ p]
  by (fastforce simp: store_tree_def is_prefix_iff append_eq_append_conv2)

lemma tree_below: "is_prefix (base_dir st) p \<Longrightarrow> p \<in> store_tree st"
  by (simp add: store_tree_def)

lemma tree_write_local: "touches (store_tree st) (write_local_catalog token st d)"
proof -
  have "local_catalog st \<in> store_tree st" "tmp_for (local_catalog st) token \<in> store_tree st"
    "set (prefixes_of (parent (local_catalog st))) \<subseteq> store_tree st"
    using tree_prefixes [of st "base_dir st"]
    by (simp_all add: store_tree_def local_catalog_def tmp_for_snoc is_prefix_iff)
  then show ?thesis
    unfolding write_local_catalog_def atomic_write_json_def by (intro touches_mono [OF touches_aw]) auto
qed

lemma touches_load [touches_rules]: "touches X (load_catalog_file v p)"
  unfolding load_catalog_file_def by (intro touches_rules touches_exists)

lemma touches_merged [touches_rules]: "touches X (merged_catalog v st)"
  unfolding merged_catalog_def load_base_catalog_def load_local_catalog_def by (intro touches_rules)

lemma tree_catalog_ops:
  "touches (store_tree st) (upsert_local v token st m)" "touches (store_tree st) (delete_local v token st k)"
  "touches (store_tree st) (set_local_enabled v token st k b)"
proof -
  show up: "touches (store_tree st) (upsert_local v token st m)" for m
    unfolding upsert_local_def load_local_catalog_def Let_def by (intro touches_rules tree_write_local)
  show "touches (store_tree st) (delete_local v token st k)"
    unfolding delete_local_def load_local_catalog_def by (intro touches_rules tree_write_local)
  show "touches (store_tree st) (set_local_enabled v token st k b)"
    unfolding set_local_enabled_def by (intro touches_rules) (auto intro!: touches_rules up split: option.split)
qed

lemma tree_install: "touches (store_tree (r_store R)) (resolver_install R token cand)"
  unfolding resolver_install_def install_locked_def
  by (intro touches_locked [OF lock_in_tree] touches_rules touches_manifest_to_install tree_catalog_ops
        touches_mono [OF area_install area_in_tree(1)] touches_mono [OF area_copy_payload area_in_tree(1)])

lemma tree_remove: "touches (store_tree (r_store R)) (resolver_remove R token k v)"
  unfolding resolver_remove_def remove_locked_def
  by (intro touches_locked [OF lock_in_tree] touches_rules tree_catalog_ops touches_best_effort
        touches_mono [OF area_store_remove area_in_tree(1)])

lemma tree_factory_reset: "touches (store_tree st) (factory_reset st)"
proof -
  have "{q. is_prefix (base_dir st @ [x]) q} \<subseteq> store_tree st" for x
    by (auto simp: store_tree_def is_prefix_iff)
  then show ?thesis
    unfolding factory_reset_def manifests_dir_def payloads_dir_def tmp_dir_def
    by (intro touches_bind touches_unlink_missing touches_mono [OF touches_rmtree] tree_below)
       (simp_all add: local_catalog_def is_prefix_iff)
qed

lemma touches_probe [touches_rules]: "touches X m \<Longrightarrow> touches X (probe k m)"
  unfolding probe_def by (intro touches_rules)

lemma tree_ready: "touches (store_tree (r_store (s_resolver S))) (ready S)"
proof -
  let ?st = "r_store (s_resolver S)"
  have mk: "touches (store_tree ?st) (mkdir_p (base_dir ?st))"
    by (rule touches_mono [OF touches_mkdir_p tree_prefixes]) simp
  have "touches (store_tree ?st) (probe_store S)" "touches (store_tree ?st) (probe_schema S)"
    "touches (store_tree ?st) (probe_catalog S)"
    unfolding probe_store_def probe_schema_def probe_catalog_def Let_def load_base_catalog_def
    by (intro touches_rules touches_lock [OF lock_in_tree] mk touches_exists)+
  then show ?thesis unfolding ready_def by (intro touches_rules) (auto intro!: touches_rules)
qed

lemma touches_consume: "touches X (consume_nonce n)"
  by (auto simp: touches_def triple_def consume_nonce_def intro: steps_ok_same_hist split: sum.splits)

lemma touches_exchange_case:
  "(\<And>e. touches X (f e)) \<Longrightarrow> (\<And>t. touches X (g t)) \<Longrightarrow> touches X (case x of Pending e \<Rightarrow> f e | Granted t \<Rightarrow> g t)"
  by (cases x) auto

context onboarding
begin

lemma tree_start: "touches (store_tree (o_store M)) (oauth_start M token sid cid princ)"
proof -
  have open_session: "touches (store_tree (o_store M)) (open_session M token sid cid provider g)" for provider g
    unfolding open_session_def
    by (intro touches_rules touches_mono [OF put_area area_in_tree(2)] touches_mono [OF sessions_area(1) area_in_tree(2)]
          touches_mono [OF sessions_area(2) area_in_tree(2)])
  show ?thesis
    unfolding oauth_start_def egress_request_def
    by (intro touches_rules) (auto intro!: touches_rules touches_mono [OF audit_frame] open_session)
qed

lemma tree_complete: "touches (store_tree (o_store M)) (oauth_complete M token sid princ)"
  unfolding oauth_complete_def close_session_def enable_connector_def Let_def
  by (intro touches_rules touches_exchange_case tree_catalog_ops touches_mono [OF sessions_area(1) area_in_tree(2)]
        touches_mono [OF sessions_area(2) area_in_tree(2)] touches_mono [OF exchange_area area_in_tree(2)]
        touches_mono [OF put_area area_in_tree(2)] touches_mono [OF delete_area area_in_tree(2)]
        touches_mono [OF audit_frame empty_subsetI])

end

text \<open>
  Which part of the disk a request may change, when what runs may change \<open>A\<close>: a route
  without a tier nothing, the probe of the store apart; a route that only reads the catalogs
  what acquiring their lock makes.
\<close>

fun may_change :: "path set \<Rightarrow> capability_store \<Rightarrow> route \<Rightarrow> path set" where
  "may_change A st Ready = store_tree st"
| "may_change A st r =
     (case route_tier r of
        None \<Rightarrow> {}
      | Some Read \<Rightarrow> lock_area st
      | Some Run \<Rightarrow> A \<union> lock_area st
      | Some AdminInstall \<Rightarrow> store_tree st
      | Some AdminRemove \<Rightarrow> store_tree st)"

context application
begin

lemma touches_emit: "touches X (emit_for S rq user e)"
proof -
  have "emit_for S rq user e = io_modify (\<lambda>w. w\<lparr>w_log := w_log w @ [(ae_event e, payload_of
      (e\<lparr>ae_principal := user, ae_request_id := request_id rq\<rparr>))]\<rparr>)"
    by (simp add: fun_eq_iff emit_for_def emits io_modify_def)
  then show ?thesis by (simp add: touches_modify)
qed

lemma touches_handled: "touches X body \<Longrightarrow> touches X (handled S rq user err body)"
  unfolding handled_def by (intro touches_rules touches_emit)

lemma touches_search:
  assumes "lock_area (r_store (s_resolver S)) \<subseteq> X"
  shows "touches X (resolver_search (s_resolver S) i c)"
proof -
  have "touches X (ask_adapters as q)" if "set as \<subseteq> set (r_adapters (s_resolver S))" for as q
    using that
  proof (induction as)
    case (Cons a as)
    then have "touches X (a q)" using touches_mono [OF registries_touch empty_subsetI] by simp
    with Cons show ?case by (simp, intro touches_rules) simp_all
  qed (simp add: touches_return)
  then show ?thesis unfolding resolver_search_def by (intro touches_rules touches_locked [OF assms]) blast
qed

lemma touches_readers:
  assumes "lock_area (r_store (s_resolver S)) \<subseteq> X"
  shows "touches X (resolver_list (s_resolver S))" "touches X (resolver_get (s_resolver S) k v)"
    "touches X (resolver_resolve (s_resolver S) step)"
  unfolding resolver_list_def list_locked_def resolver_get_def get_locked_def resolver_resolve_def Let_def
  by (intro touches_locked [OF assms] touches_rules touches_search [OF assms]; auto intro!: touches_rules split: option.split)+

lemma touches_gate:
  assumes "lock_area (r_store R) \<subseteq> X"
  shows "touches X (run_gate R k args)"
  unfolding run_gate_def run_checks_def resolver_get_def get_locked_def Let_def
  by (intro touches_locked [OF assms] touches_rules; auto intro!: touches_rules touches_consume split: option.split)

lemma act_touches:
  assumes "touches X m"
  shows "same_off X (w_fs (sv_world s)) (w_fs (sv_world (snd (counted n m s))))"
    "same_off X (w_fs (sv_world s)) (w_fs (sv_world (snd (timed n op us m s))))"
proof -
  obtain r w where m: "m (sv_world s) = (r, w)" by fastforce
  from tripleD [OF touchesD [OF assms, of "w_fs (sv_world s)"] same_off_refl m]
  have "same_off X (w_fs (sv_world s)) (w_fs w)" by (cases r) auto
  with m show "same_off X (w_fs (sv_world s)) (w_fs (sv_world (snd (counted n m s))))"
    "same_off X (w_fs (sv_world s)) (w_fs (sv_world (snd (timed n op us m s))))"
    by (simp_all add: counted_def timed_def on_world_def metric_def observe_def)
qed

lemma oauth_bodies_touch:
  "touches (store_tree (r_store (s_resolver S))) (do_oauth_start S rq user p)"
  "touches (store_tree (r_store (s_resolver S))) (do_oauth_complete S rq user p)"
proof -
  let ?st = "r_store (s_resolver S)"
  have "touches (store_tree ?st) (oauth_start M t i c u)" "touches (store_tree ?st) (oauth_complete M t i u)"
    if M: "s_oauth S = Inr M" for M t i c u
    using onboarding.tree_start [OF oauth_onboards [OF M]] onboarding.tree_complete [OF oauth_onboards [OF M]]
      oauth_store [OF M] by simp_all
  then show "touches (store_tree ?st) (do_oauth_start S rq user p)" "touches (store_tree ?st) (do_oauth_complete S rq user p)"
    unfolding do_oauth_start_def do_oauth_complete_def
    by (intro touches_lift_bind touches_handled; simp)+
qed

lemma bodies_touch:
  assumes "lock_area (r_store (s_resolver S)) \<subseteq> X"
  shows "touches X (do_search S rq user p)" "touches X (do_resolve S rq user p)" "touches X (do_list S rq user)"
    "touches X (do_get S rq user c v)"
  unfolding do_search_def do_resolve_def do_list_def do_get_def Let_def
  by (intro touches_rules touches_handled touches_emit touches_readers [OF assms] touches_search [OF assms])+

lemma admin_bodies_touch:
  "touches (store_tree (r_store (s_resolver S))) (do_install S rq user p)"
  "touches (store_tree (r_store (s_resolver S))) (do_remove S rq user c ver)"
  "touches (store_tree (r_store (s_resolver S))) (do_factory_reset S rq user)"
  unfolding do_install_def do_remove_def do_factory_reset_def Let_def
  by (intro touches_rules touches_handled touches_emit tree_install tree_remove touches_locked [OF lock_in_tree]
        tree_factory_reset)+

lemma run_touches:
  assumes "runtime_touches A (r_runtime (s_resolver S))"
  shows "touches (A \<union> lock_area (r_store (s_resolver S))) (do_run S rq user p)"
proof -
  let ?X = "A \<union> lock_area (r_store (s_resolver S))"
  have "touches ?X (resolver_run (s_resolver S) k args)" for k args
    unfolding run_is_gate_then_engine
    by (intro touches_bind touches_gate touches_mono [OF exec_run_touches [OF assms]]) auto
  then show ?thesis
    unfolding do_run_def Let_def by (intro touches_rules touches_handled touches_emit)
qed

lemma handle_touches:
  assumes "runtime_touches A (r_runtime (s_resolver S))"
  shows "same_off (may_change A (r_store (s_resolver S)) r) (w_fs (sv_world s)) (w_fs (sv_world (snd (handle S rq user us r s))))"
  by (cases r)
     (simp_all add: act_touches bodies_touch admin_bodies_touch oauth_bodies_touch run_touches [OF assms] tree_ready
        health_def version_info_def touches_return metrics_def metric_def Let_def)

end

section \<open>Failures\<close>

text \<open>
  A recorded failure: the client sees an HTTP error, and the last entry of the audit log is
  an error event with that request's id and the same reason.
\<close>

definition failure_recorded :: "web_request \<Rightarrow> exc \<Rightarrow> (string \<times> json) list \<Rightarrow> bool" where
  "failure_recorded rq e log \<longleftrightarrow>
     (case e of
        HTTPException n t \<Rightarrow> n \<in> {400, 404, 500} \<and> log \<noteq> []
          \<and> jget (snd (last log)) ''request_id'' = opt_str (request_id rq)
          \<and> jget (snd (last log)) ''decision''
              = JObj [(''outcome'', JStr ''error''), (''policy'', JNull), (''reason'', JStr t)]
      | _ \<Rightarrow> False)"

lemma http_error_text: "\<exists>n. http_error e = HTTPException n (exc_text e) \<and> n \<in> {400, 404, 500}"
  by (cases e) (simp_all add: http_error_def)

lemma handled_Inl:
  fixes body :: "'a io"
  assumes "handled S rq user (Inr e) body w = (Inl x, w')"
  shows "\<exists>exc w1. io_bind (emit_for S rq user (failed exc e)) (\<lambda>_. io_raise (http_error exc) :: 'a io) w1 = (Inl x, w')"
  using assms by (cases "body w"; cases "fst (body w)") (auto simp: handled_def io_try_def)

lemma handled_event_fails:
  assumes "handled S rq user (Inl y) body w = (Inl x, w')"
  shows "x = y"
  using assms by (cases "body w") (auto simp: handled_def io_try_def io_raise_def io_bind_def split: sum.splits)

lemma handled_recorded:
  fixes body :: "'a io"
  assumes "handled (app_with X config eg) rq user (Inr e) body w = (Inl x, w')" and "ae_extra e = []"
  shows "failure_recorded rq x (w_log w')"
proof -
  from handled_Inl [OF assms(1)] obtain exc w1 where run: "io_bind (emit_for (app_with X config eg) rq user (failed exc e))
      (\<lambda>_. io_raise (http_error exc) :: 'a io) w1 = (Inl x, w')"
    by blast
  obtain n where n: "http_error exc = HTTPException n (exc_text exc)" "n \<in> {400, 404, 500}" using http_error_text by blast
  let ?e = "(failed exc e)\<lparr>ae_principal := user, ae_request_id := request_id rq\<rparr>"
  from run have x: "x = http_error exc"
    and w': "w_log w' = w_log w1 @ [(ae_event ?e, audit_payload (x_sha X) (x_timestamp X) (service_name config) ?e)]"
    by (auto simp: emit_for_def app.emits io_bind_def io_raise_def)
  show ?thesis
    using assms(2) n by (simp add: failure_recorded_def x w' audit_payload_def failed_def jget_def get_or_def opt_str_def)
qed

lemma about_extra [simp]: "ae_extra (about k i (event n)) = []" "ae_extra (event n) = []"
  by (simp_all add: about_def event_def)

text \<open>Which failures a route audits.\<close>

fun audits_failures :: "route \<Rightarrow> bool" where
  "audits_failures (Install p) = is_ok (failed_install (jget p ''candidate''))"
| "audits_failures (OauthStart p) = is_ok (text_argument p ''capability_id'')"
| "audits_failures (OauthComplete p) = is_ok (text_argument p ''session_id'')"
| "audits_failures _ = True"

lemma timed_Inl: "timed n op us m s = (Inl e, s') \<Longrightarrow> \<exists>w'. m (sv_world s) = (Inl e, w') \<and> sv_world s' = w'"
  by (auto simp: timed_def counted_def on_world_def metric_def observe_def split: prod.splits)

lemma counted_Inl: "counted n m s = (Inl e, s') \<Longrightarrow> \<exists>w'. m (sv_world s) = (Inl e, w') \<and> sv_world s' = w'"
  by (auto simp: counted_def on_world_def metric_def split: prod.splits)

lemma probe_returns: "\<exists>r w'. probe k m w = (Inr r, w')"
  by (auto simp: probe_def io_try_def io_return_def split: prod.split sum.split)

lemma ready_returns: "\<exists>r w'. ready S w = (Inr r, w')"
proof -
  obtain r1 w1 where 1: "probe_store S w = (Inr r1, w1)" using probe_returns unfolding probe_store_def by blast
  obtain r2 w2 where 2: "probe_schema S w1 = (Inr r2, w2)" using probe_returns unfolding probe_schema_def by blast
  obtain r3 w3 where 3: "probe_catalog S w2 = (Inr r3, w3)" using probe_returns unfolding probe_catalog_def by blast
  from 1 2 3 show ?thesis
    by (cases r1; cases r2; cases r3) (simp add: ready_def io_bind_def io_return_def)
qed

lemma failed_install_Inr: "failed_install c = Inr e \<Longrightarrow> ae_extra e = []"
  by (auto simp: failed_install_def result_simps split: if_splits)

lemma failed_install_Inl: "failed_install c = Inl e \<Longrightarrow> \<exists>t. e = PyError AttributeError t"
  by (auto simp: failed_install_def py_get_def attribute_error_def result_simps split: if_splits)

lemma text_argument_Inl: "text_argument p k = Inl e \<Longrightarrow> \<exists>t. e = HTTPException 400 t"
  by (auto simp: text_argument_def split: json.splits if_splits)

lemma handle_failures:
  assumes "handle (app_with X config eg) rq user us r s = (Inl e, s')"
  shows "if audits_failures r then failure_recorded rq e (w_log (sv_world s'))
    else (case r of Install p \<Rightarrow> \<exists>t. e = PyError AttributeError t | _ \<Rightarrow> \<exists>t. e = HTTPException 400 t)"
proof (cases r)
  case Ready
  with assms ready_returns [of "app_with X config eg" "sv_world s"] show ?thesis by (auto dest!: counted_Inl)
next
  case (Install p)
  let ?c = "jget p ''candidate''"
  from assms Install obtain w' where run: "do_install (app_with X config eg) rq user p (sv_world s) = (Inl e, w')"
    and w': "sv_world s' = w'" by (auto dest!: timed_Inl)
  show ?thesis
  proof (cases "failed_install ?c")
    case (Inl x)
    with run Install failed_install_Inl [OF Inl] show ?thesis
      by (auto simp: do_install_def Let_def is_ok_iff dest!: handled_event_fails)
  next
    case (Inr ev)
    with run have "failure_recorded rq e (w_log w')"
      by (auto simp: do_install_def Let_def intro: handled_recorded failed_install_Inr)
    with Inr Install w' show ?thesis by (simp add: is_ok_iff)
  qed
next
  case (OauthStart p)
  then show ?thesis
    using assms text_argument_Inl [of p "''capability_id''"]
    by (cases "text_argument p ''capability_id''")
       (auto simp: do_oauth_start_def io_defs dest!: counted_Inl intro: handled_recorded)
next
  case (OauthComplete p)
  then show ?thesis
    using assms text_argument_Inl [of p "''session_id''"]
    by (cases "text_argument p ''session_id''")
       (auto simp: do_oauth_complete_def io_defs dest!: counted_Inl intro: handled_recorded)
qed (use assms in \<open>auto simp: health_def version_info_def io_return_def metrics_def Let_def do_search_def do_resolve_def do_run_def
      do_list_def do_get_def do_remove_def do_factory_reset_def dest!: timed_Inl counted_Inl intro: handled_recorded\<close>)


section \<open>Counting\<close>

fun route_path :: "route \<Rightarrow> string" where
  "route_path Health = ''/healthz''"
| "route_path Ready = ''/readyz''"
| "route_path Version = ''/version''"
| "route_path Metrics = ''/metrics''"
| "route_path (Search p) = ''/capability/search''"
| "route_path (Resolve p) = ''/capability/resolve''"
| "route_path (Install p) = ''/capability/install''"
| "route_path (RunCapability p) = ''/capability/run''"
| "route_path ListAll = ''/capability/list''"
| "route_path (GetOne c v) = ''/capability/get''"
| "route_path (Remove c v) = ''/capability/remove''"
| "route_path (OauthStart p) = ''/capability/oauth/start''"
| "route_path (OauthComplete p) = ''/capability/oauth/complete''"
| "route_path FactoryReset = ''/capability/factory_reset''"

fun route_op :: "route \<Rightarrow> string option" where
  "route_op (Search p) = Some ''search''"
| "route_op (Resolve p) = Some ''resolve''"
| "route_op (Install p) = Some ''install''"
| "route_op (RunCapability p) = Some ''run''"
| "route_op ListAll = Some ''list''"
| "route_op (GetOne c v) = Some ''get''"
| "route_op (Remove c v) = Some ''remove''"
| "route_op _ = None"

text \<open>Whether a request reaches its handler; this does not depend on what was served before.\<close>

definition accepted :: "server \<Rightarrow> web_request \<Rightarrow> route \<Rightarrow> bool" where
  "accepted S rq r \<longleftrightarrow> is_ok (admit S rq (route_tier r)) \<and> body_ok r"

fun latencies ::
    "service_config \<Rightarrow> egress_config \<Rightarrow> string \<Rightarrow> (outside \<times> web_request \<times> flt \<times> route) list \<Rightarrow> flt list" where
  "latencies config eg op [] = []"
| "latencies config eg op ((X, rq, us, r) # rest) =
     (if accepted (app_with X config eg) rq r \<and> route_op r = Some op then us # latencies config eg op rest
      else latencies config eg op rest)"

lemma count_of_dset [simp]: "count_of (dset k n d) k' = (if k = k' then n else count_of d k')"
  by (simp add: count_of_def)

lemma sum_of_dset [simp]: "sum_of (dset k x d) k' = (if k = k' then x else sum_of d k')"
  by (simp add: sum_of_def)

lemma counted_metrics:
  "sv_metrics (snd (counted n m s)) = sv_metrics (metric n s)"
  "sv_latency_sum (snd (counted n m s)) = sv_latency_sum s" "sv_latency_count (snd (counted n m s)) = sv_latency_count s"
  "sv_add (snd (counted n m s)) = sv_add s"
  by (simp_all add: counted_def on_world_def metric_def split: prod.split)

lemma timed_metrics:
  "sv_metrics (snd (timed n op us m s)) = sv_metrics (metric n s)"
  "sv_latency_sum (snd (timed n op us m s)) = sv_latency_sum (observe op us s)"
  "sv_latency_count (snd (timed n op us m s)) = sv_latency_count (observe op us s)"
  "sv_add (snd (timed n op us m s)) = sv_add s"
  by (simp_all add: timed_def counted_def on_world_def metric_def observe_def split: prod.split)

lemma dispatch_metrics:
  "count_of (sv_metrics (snd (dispatch S rq us r s))) k
     = count_of (sv_metrics s) k + (if accepted S rq r \<and> route_path r = k then 1 else 0)"
  "count_of (sv_latency_count (snd (dispatch S rq us r s))) k
     = count_of (sv_latency_count s) k + (if accepted S rq r \<and> route_op r = Some k then 1 else 0)"
  "sum_of (sv_latency_sum (snd (dispatch S rq us r s))) k
     = (if accepted S rq r \<and> route_op r = Some k then sv_add s (sum_of (sv_latency_sum s) k) us else sum_of (sv_latency_sum s) k)"
  "sv_add (snd (dispatch S rq us r s)) = sv_add s"
  by (cases "admit S rq (route_tier r)"; cases r;
      simp add: dispatch_def accepted_def is_ok_iff counted_metrics timed_metrics metric_def observe_def metrics_def Let_def)+


section \<open>Who is served\<close>

lemma app_security:
  "rbind (s_security (app_with X config eg)) (\<lambda>d. tier_dep d t creds)
     = rbind (authenticate (x_env X) (x_jwt X) (cfg_auth config) creds) (require_tier (cfg_authz config) t)"
  by (simp add: app_with_def Let_def security_deps_exact)

lemma admit_Inr:
  assumes "admit (app_with X config eg) rq t = Inr user"
  shows "local_only (cfg_bind config) (wr_client rq) = Inr ()"
    and "case t of None \<Rightarrow> True | Some t \<Rightarrow>
      (case authenticate (x_env X) (x_jwt X) (cfg_auth config) (wr_credentials rq) of
         Inl e \<Rightarrow> False | Inr u \<Rightarrow> is_ok (require_tier (cfg_authz config) t u))"
proof -
  have config: "s_config (app_with X config eg) = config" by (simp add: app_with_def Let_def)
  from assms show "local_only (cfg_bind config) (wr_client rq) = Inr ()"
    by (auto simp: admit_def rbind_eq_Inr config)
  show "case t of None \<Rightarrow> True | Some t \<Rightarrow>
      (case authenticate (x_env X) (x_jwt X) (cfg_auth config) (wr_credentials rq) of
         Inl e \<Rightarrow> False | Inr u \<Rightarrow> is_ok (require_tier (cfg_authz config) t u))"
  proof (cases t)
    case (Some t')
    with assms have "rbind (s_security (app_with X config eg)) (\<lambda>d. tier_dep d t' (wr_credentials rq)) = Inr user"
      by (auto simp: admit_def rbind_eq_Inr [of "local_only _ _"])
    then show ?thesis unfolding app_security by (auto simp: Some rbind_eq_Inr is_ok_iff)
  qed simp
qed

lemma dispatch_unchanged: "snd (dispatch S rq us r s) \<noteq> s \<Longrightarrow> is_ok (admit S rq (route_tier r)) \<and> body_ok r"
  by (auto simp: dispatch_def split: sum.splits if_splits)

lemma dispatch_Inl:
  assumes "dispatch S rq us r s = (Inl e, s')"
  shows "if accepted S rq r then handle S rq (case admit S rq (route_tier r) of Inl _ \<Rightarrow> JNull | Inr u \<Rightarrow> u) us r s = (Inl e, s')
    else s' = s"
  using assms by (auto simp: dispatch_def accepted_def is_ok_iff split: sum.splits if_splits)

text \<open>The service users of the disabled and the static bearer mode.\<close>

lemma service_users_only:
  assumes "auth_mode auth = ''disabled'' \<or> auth_mode auth = ''static_bearer''" and "authenticate env jwt auth creds = Inr user"
  shows "user = service_user ''unauthenticated'' \<or> user = service_user ''static-bearer''"
  using assms by (auto simp: authenticate_def static_bearer_auth_def split: option.splits if_splits)

lemma service_users_denied:
  "\<not> is_ok (require_tier default_authz AdminInstall (service_user ''unauthenticated''))"
  "\<not> is_ok (require_tier default_authz AdminInstall (service_user ''static-bearer''))"
  "\<not> is_ok (require_tier default_authz AdminRemove (service_user ''unauthenticated''))"
  "\<not> is_ok (require_tier default_authz AdminRemove (service_user ''static-bearer''))"
  by code_simp+

section \<open>Properties\<close>

text \<open>The application as it is deployed: with the callables of this repository, and other modules as they are.\<close>

definition deployed :: "host \<Rightarrow> outside \<Rightarrow> outside" where
  "deployed H X = X\<lparr>x_runtime := with_seed H (x_runtime X)\<rparr>"

lemma deployed_runtime: "r_runtime (s_resolver (app_with (deployed H X) config eg)) = with_seed H (x_runtime X)"
  by (simp add: deployed_def app_with_def Let_def resolver_with_def)

text \<open>
  C8: whatever requests the application serves, in whatever order and with whatever answers
  of the network: every request that the process sends, for a registry, a manifest, a tool,
  an agent or an OAuth provider, goes to a URL that the egress policy in force allows; the
  callables of this repository send none, and those of other modules are assumed to keep to
  the policy. What a program that a command starts sends is not a request of this process.
  The application is not created when authentication is disabled without the unsafe flag.
\<close>

theorem server_network_confined:
  assumes "list_all (\<lambda>(X, q). callables_send (egress_allowed (egress_of config controller)) (x_runtime X)) rs"
  shows "(is_ok (create_app X config controller) = (\<not> (auth_mode (cfg_auth config) = ''disabled'' \<and> \<not> unsafe_allow_no_auth (cfg_auth config))))
   \<and> (\<exists>l. w_sent (sv_world (serve config (egress_of config controller) (map (\<lambda>(X, q). (deployed H X, q)) rs) s))
          = w_sent (sv_world s) @ l
        \<and> list_all (\<lambda>q. egress_allowed (egress_of config controller) (rq_url q)) l)"
proof (intro conjI)
  let ?eg = "egress_of config controller"
  have quiet: "callables_send (egress_allowed ?eg) (r_runtime (s_resolver (app_with (deployed H X) config ?eg)))"
    if "callables_send (egress_allowed ?eg) (x_runtime X)" for X
    unfolding deployed_runtime by (rule seed_silent [OF that])
  show "\<exists>l. w_sent (sv_world (serve config ?eg (map (\<lambda>(X, q). (deployed H X, q)) rs) s)) = w_sent (sv_world s) @ l
        \<and> list_all (\<lambda>q. egress_allowed ?eg (rq_url q)) l"
    using assms
  proof (induction rs arbitrary: s)
    case (Cons x rs)
    obtain X rq us r where x: "x = (X, rq, us, r)" by (cases x)
    let ?s = "snd (dispatch (app_with (deployed H X) config ?eg) rq us r s)"
    obtain l1 where 1: "w_sent (sv_world ?s) = w_sent (sv_world s) @ l1" "\<forall>q \<in> set l1. egress_allowed ?eg (rq_url q)"
      using app.dispatch_sends [OF quiet [of X], of rq us r s] Cons.prems x by (auto simp: list_all_iff)
    obtain l2 where "w_sent (sv_world (serve config ?eg (map (\<lambda>(X, q). (deployed H X, q)) rs) ?s)) = w_sent (sv_world ?s) @ l2"
      "list_all (\<lambda>q. egress_allowed ?eg (rq_url q)) l2"
      using Cons.IH [of ?s] Cons.prems by auto
    with 1 x show ?case by (intro exI [of _ "l1 @ l2"]) (auto simp: list_all_iff)
  qed simp
qed (auto simp: create_app_def)

text \<open>
  C3: a request changes only what its route may change. Health, version and metrics change
  no file. The routes that read the catalogs change no file either, they only make the lock
  file of the store and the directories on the way to it. Running a capability can change,
  besides these, what fs_write may write, and what the programs that commands start and
  the callables of other modules change: A stands for the latter, and can be everything. The
  administrative routes and the readiness probe stay within the directory of the store and
  the directories above it. And a request that changes anything at all, a counter included,
  comes from this machine unless the unsafe flag is set, and on a route with a tier its
  caller was authenticated and has that tier.
\<close>

theorem changes_need_admission:
  assumes "runtime_touches A (x_runtime X)"
  shows "case create_app (deployed H X) config controller of
     Inl e \<Rightarrow> True
   | Inr S \<Rightarrow>
       (let s' = snd (dispatch S rq us r s) in
        same_off (may_change (write_area H \<union> A) (store_at X (cfg_base_dir config)) r)
          (w_fs (sv_world s)) (w_fs (sv_world s'))
        \<and> (if s' = s then True
           else local_only (cfg_bind config) (wr_client rq) = Inr ()
             \<and> (case route_tier r of
                  None \<Rightarrow> r \<in> {Health, Ready, Version, Metrics}
                | Some t \<Rightarrow>
                    (case authenticate (x_env X) (x_jwt X) (cfg_auth config) (wr_credentials rq) of
                       Inl e \<Rightarrow> False
                     | Inr user \<Rightarrow> is_ok (require_tier (cfg_authz config) t user)))))"
proof (cases "create_app (deployed H X) config controller")
  case (Inr S)
  then obtain eg where S: "S = app_with (deployed H X) config eg" by (auto simp: create_app_def split: if_splits)
  have fields: "r_store (s_resolver S) = store_at X (cfg_base_dir config)"
    unfolding S by (simp_all add: deployed_def app_with_def Let_def resolver_with_def store_at_def)
  have "runtime_touches (write_area H \<union> A) (r_runtime (s_resolver S))"
    unfolding S deployed_runtime by (rule seed_touches [OF assms])
  then have "same_off (may_change (write_area H \<union> A) (r_store (s_resolver S)) r)
      (w_fs (sv_world s)) (w_fs (sv_world (snd (handle S rq user us r s))))" for user
    unfolding S by (rule app.handle_touches)
  then have files: "same_off (may_change (write_area H \<union> A) (store_at X (cfg_base_dir config)) r)
      (w_fs (sv_world s)) (w_fs (sv_world (snd (dispatch S rq us r s))))"
    by (auto simp: dispatch_def fields same_off_refl split: sum.split)
  have admitted: "local_only (cfg_bind config) (wr_client rq) = Inr ()
      \<and> (case route_tier r of None \<Rightarrow> r \<in> {Health, Ready, Version, Metrics}
         | Some t \<Rightarrow> (case authenticate (x_env X) (x_jwt X) (cfg_auth config) (wr_credentials rq) of
             Inl e \<Rightarrow> False | Inr user \<Rightarrow> is_ok (require_tier (cfg_authz config) t user)))"
    if changed: "snd (dispatch S rq us r s) \<noteq> s"
  proof -
    from dispatch_unchanged [OF changed] obtain user where "admit S rq (route_tier r) = Inr user" by (auto simp: is_ok_iff)
    from admit_Inr [OF this [unfolded S]] show ?thesis by (cases r) (auto simp: deployed_def split: sum.splits)
  qed
  from files admitted show ?thesis by (simp add: Inr Let_def)
qed simp

text \<open>
  C21: with the default tiers, a deployment that authenticates by a static token, or not at
  all, has no administrator: whoever calls, with whatever credentials, every install, remove,
  onboarding and factory reset is refused and leaves the process and the disk as they were.
\<close>

theorem bearer_cannot_administer:
  "if (auth_mode (cfg_auth config) = ''disabled'' \<or> auth_mode (cfg_auth config) = ''static_bearer'')
      \<and> cfg_authz config = default_authz \<and> (route_tier r = Some AdminInstall \<or> route_tier r = Some AdminRemove)
   then (case create_app X config controller of
           Inl e \<Rightarrow> True | Inr S \<Rightarrow> (\<exists>e. dispatch S rq us r s = (Inl e, s)))
   else True"
proof -
  have "\<exists>e. dispatch (app_with X config eg) rq us r s = (Inl e, s)"
    if mode: "auth_mode (cfg_auth config) = ''disabled'' \<or> auth_mode (cfg_auth config) = ''static_bearer''"
      and authz: "cfg_authz config = default_authz" and tier: "route_tier r = Some AdminInstall \<or> route_tier r = Some AdminRemove"
    for eg
  proof (cases "admit (app_with X config eg) rq (route_tier r)")
    case (Inl e)
    then show ?thesis by (simp add: dispatch_def)
  next
    case (Inr user)
    from admit_Inr(2) [OF this] tier obtain u where u: "authenticate (x_env X) (x_jwt X) (cfg_auth config) (wr_credentials rq) = Inr u"
      and "is_ok (require_tier default_authz AdminInstall u) \<or> is_ok (require_tier default_authz AdminRemove u)"
      by (cases "authenticate (x_env X) (x_jwt X) (cfg_auth config) (wr_credentials rq)") (auto simp: authz)
    with service_users_only [OF mode u] service_users_denied show ?thesis by auto
  qed
  then show ?thesis by (simp add: create_app_def)
qed

text \<open>
  C9: when an admitted request fails, the caller gets an HTTP error with status 400, 404 or
  500, and the last entry of the audit log is an error event that carries the id of this
  request and the same reason. Three things escape this: the two onboarding routes answer a
  missing argument with a plain 400, and install with a malformed manifest in its candidate
  raises an AttributeError.
\<close>

theorem failures_answered_and_audited:
  "case create_app X config controller of
     Inl e \<Rightarrow> True
   | Inr S \<Rightarrow>
       (case dispatch S rq us r s of
          (Inr out, s') \<Rightarrow> accepted S rq r
        | (Inl e, s') \<Rightarrow>
            if \<not> accepted S rq r then s' = s
            else if audits_failures r then failure_recorded rq e (w_log (sv_world s'))
            else (case r of Install p \<Rightarrow> \<exists>t. e = PyError AttributeError t | _ \<Rightarrow> \<exists>t. e = HTTPException 400 t))"
proof -
  have "case dispatch (app_with X config eg) rq us r s of
          (Inr out, s') \<Rightarrow> accepted (app_with X config eg) rq r
        | (Inl e, s') \<Rightarrow>
            if \<not> accepted (app_with X config eg) rq r then s' = s
            else if audits_failures r then failure_recorded rq e (w_log (sv_world s'))
            else (case r of Install p \<Rightarrow> \<exists>t. e = PyError AttributeError t | _ \<Rightarrow> \<exists>t. e = HTTPException 400 t)" for eg
  proof (cases "dispatch (app_with X config eg) rq us r s")
    case (Pair a s')
    show ?thesis
    proof (cases a)
      case (Inl e)
      from dispatch_Inl [OF Pair [unfolded Inl]] show ?thesis
        by (auto simp: Pair Inl dest!: handle_failures split: if_splits)
    next
      case (Inr out)
      with Pair show ?thesis by (auto simp: dispatch_def accepted_def split: sum.splits if_splits)
    qed
  qed
  then show ?thesis by (simp add: create_app_def)
qed

text \<open>
  A candidate whose manifest is null is one of those: the handler raises while it
  computes what its failure event is about, so the log gets the event that the installation
  was started and no other.
\<close>

theorem null_manifest_unaudited:
  "case do_install (app_with X config eg) rq user (JObj [(''candidate'', JObj ((''manifest'', JNull) # rest))]) w of
     (r, w') \<Rightarrow> r = Inl (attribute_error JNull ''get'')
       \<and> w_log w' = w_log w @ [(''capability.install_start'',
             audit_payload (x_sha X) (x_timestamp X) (service_name config)
               ((about ''capability'' [] (event ''capability.install_start''))
                 \<lparr>ae_principal := user, ae_request_id := request_id rq\<rparr>))]"
proof -
  let ?c = "JObj ((''manifest'', JNull) # rest)"
  let ?S = "app_with X config eg"
  have c: "jget (JObj [(''candidate'', ?c)]) ''candidate'' = ?c" "jget ?c ''manifest'' = JNull" "get_or ?c ''manifest'' d = JNull"
    "is_dict ?c" for d
    by (simp_all add: jget_def get_or_def)
  have inst: "\<exists>e w1. resolver_install R token ?c w' = (Inl e, w1) \<and> w_log w1 = w_log w'" for R token w'
    using take_lock_rest [OF surjective_pairing [of "take_lock (store_lock R) w'"]]
    by (cases "take_lock (store_lock R) w'")
       (auto simp: resolver_install_def install_locked_def manifest_to_install_def with_lock_def c(2) io_bind_def io_raise_def
          split: sum.splits)
  have err: "failed_install ?c = Inl (attribute_error JNull ''get'')"
    by (simp add: failed_install_def c(3) py_get_def)
  have empty: "str_or_empty (jget (dict_or_empty JNull) ''id'') = []"
    by (simp add: dict_or_empty_def jget_def get_or_def)
  let ?e = "(about ''capability'' [] (event ''capability.install_start''))\<lparr>ae_principal := user, ae_request_id := request_id rq\<rparr>"
  let ?w = "w\<lparr>w_log := w_log w @ [(ae_event ?e, audit_payload (x_sha X) (x_timestamp X) (service_name config) ?e)]\<rparr>"
  obtain e w1 where run: "resolver_install (s_resolver ?S) (s_token ?S) ?c ?w = (Inl e, w1)" "w_log w1 = w_log ?w"
    using inst by blast
  show ?thesis
    unfolding do_install_def Let_def c(1) err
    by (simp only: c(2) empty)
       (use run in \<open>simp add: handled_def io_try_def io_bind_def io_lift_def emit_for_def app.emits about_def event_def\<close>)
qed

text \<open>
  C20: the metrics count what was served: after any sequence of requests, the counter of an
  endpoint has grown by the number of requests to it that reached their handler, and the
  samples of an operation by the number of its requests, the failing ones included. The
  total latency of an operation is the float that results when the latencies of exactly
  these requests are added to it one by one, in the order in which they were served and
  with the interpreter's addition, which rounds.
\<close>

theorem metrics_exact:
  "count_of (sv_metrics (serve config eg rs s)) k
     = count_of (sv_metrics s) k
       + int (length (filter (\<lambda>(X, rq, us, r). accepted (app_with X config eg) rq r \<and> route_path r = k) rs))
   \<and> count_of (sv_latency_count (serve config eg rs s)) k
     = count_of (sv_latency_count s) k + int (length (latencies config eg k rs))
   \<and> sum_of (sv_latency_sum (serve config eg rs s)) k
     = foldl (sv_add s) (sum_of (sv_latency_sum s) k) (latencies config eg k rs)"
proof (induction rs arbitrary: s)
  case (Cons x rs)
  obtain X rq us r where x: "x = (X, rq, us, r)" by (cases x)
  show ?case by (simp add: x Cons dispatch_metrics)
qed simp

text \<open>
  C18: a service that is started without a configuration, in an empty environment, is
  closed: it listens on the loopback address, asks no registry, may send requests to this
  machine only, and serves a route with a tier only to a caller of this machine whom JWT authentication
  accepts and the default tier admits.
\<close>

theorem default_service_closed:
  "if x_env X = (\<lambda>_. None) then
     (case startup X (\<lambda>_. False) read_yaml of
        Inl e \<Rightarrow> False
      | Inr (S, a) \<Rightarrow>
          a = Tcp ''127.0.0.1'' 8102 \<and> r_adapters (s_resolver S) = []
          \<and> (\<forall>u. egress_allowed (cfg_egress (s_config S)) u =
               (case urlparse u of Inl e \<Rightarrow> False
                | Inr p \<Rightarrow> scheme p \<in> {''http'', ''https''} \<and> hostname p \<in> set loopback_names))
          \<and> (case admit S rq (Some t) of
                Inl e \<Rightarrow> True
              | Inr user \<Rightarrow>
                  (case wr_client rq of None \<Rightarrow> True | Some host \<Rightarrow> host \<in> set local_hosts)
                  \<and> (case jwt_auth (x_jwt X) (wr_credentials rq) of
                        Inl e \<Rightarrow> False | Inr u \<Rightarrow> is_ok (require_tier default_authz t u))))
   else True"
proof (cases "x_env X = (\<lambda>_. None)")
  case env: True
  have load: "case config_load (\<lambda>_. None) (\<lambda>_. False) read_yaml of
     Inl e \<Rightarrow> False
   | Inr c \<Rightarrow> \<not> weakened c \<and> cfg_bind c = \<lparr>bind_host = ''127.0.0.1'', bind_port = 8102, uds_path = None, unsafe_allow_nonlocal = False\<rparr>
       \<and> auth_mode (cfg_auth c) = ''unison_jwt'' \<and> cfg_authz c = default_authz \<and> allowlist (cfg_egress c) = []
       \<and> cfg_registries c = \<lparr>static_catalog_path = None, http_catalog_urls = []\<rparr>"
  proof -
    have "config_load (\<lambda>_. None) (\<lambda>_. False) read_yaml = rbind (apply_env (\<lambda>_. None) (JObj [])) build_config"
      by (simp add: config_load_def config_path_def env_set_def dict_or_empty_def)
    moreover have "case rbind (apply_env (\<lambda>_. None) (JObj [])) build_config of
     Inl e \<Rightarrow> False
   | Inr c \<Rightarrow> \<not> weakened c \<and> cfg_bind c = \<lparr>bind_host = ''127.0.0.1'', bind_port = 8102, uds_path = None, unsafe_allow_nonlocal = False\<rparr>
       \<and> auth_mode (cfg_auth c) = ''unison_jwt'' \<and> cfg_authz c = default_authz \<and> allowlist (cfg_egress c) = []
       \<and> cfg_registries c = \<lparr>static_catalog_path = None, http_catalog_urls = []\<rparr>"
      by code_simp
    ultimately show ?thesis by simp
  qed
  then obtain c where c: "config_load (x_env X) (\<lambda>_. False) read_yaml = Inr c"
    and bind: "cfg_bind c = \<lparr>bind_host = ''127.0.0.1'', bind_port = 8102, uds_path = None, unsafe_allow_nonlocal = False\<rparr>"
    and auth: "auth_mode (cfg_auth c) = ''unison_jwt''" and authz: "cfg_authz c = default_authz"
    and egress: "allowlist (cfg_egress c) = []"
    and registries: "cfg_registries c = \<lparr>static_catalog_path = None, http_catalog_urls = []\<rparr>"
    by (auto simp: env split: sum.splits)
  let ?S = "app_with X c (cfg_egress c)"
  have up: "startup X (\<lambda>_. False) read_yaml = Inr (?S, Tcp ''127.0.0.1'' 8102)"
    by (simp add: startup_def c create_app_def auth bind listen_on_def egress_of_def)
  have "r_adapters (s_resolver ?S) = []" "s_config ?S = c"
    by (simp_all add: app_with_def Let_def resolver_with_def registries_for_def registries mcp_from_env_def env_set_def env)
  moreover have "egress_allowed (cfg_egress c) u =
      (case urlparse u of Inl e \<Rightarrow> False | Inr p \<Rightarrow> scheme p \<in> {''http'', ''https''} \<and> hostname p \<in> set loopback_names)" for u
    by (auto simp: egress_allowed_def egress loopback_names_def split: sum.split)
  moreover have "(case wr_client rq of None \<Rightarrow> True | Some host \<Rightarrow> host \<in> set local_hosts)
      \<and> (case jwt_auth (x_jwt X) (wr_credentials rq) of
            Inl e \<Rightarrow> False | Inr u \<Rightarrow> is_ok (require_tier default_authz t u))" if "admit ?S rq (Some t) = Inr user" for user
    using admit_Inr [OF that] by (auto simp: local_only_def bind authenticate_def auth authz cong: sum.case_cong split: option.splits if_splits)
  ultimately show ?thesis by (simp add: up split: sum.split)
qed simp

section \<open>A deployment\<close>

definition sample_config :: service_config where
  "sample_config = \<lparr>service_name = ''unison-capabilities'', service_version = ''0.1.0'', schema_version = ''v1'',
     cfg_bind = \<lparr>bind_host = ''127.0.0.1'', bind_port = 8000, uds_path = None, unsafe_allow_nonlocal = False\<rparr>,
     cfg_auth = \<lparr>auth_mode = ''unison_jwt'', static_bearer_token = None, unsafe_allow_no_auth = False\<rparr>,
     cfg_authz = default_authz, cfg_base_dir = ''/var'', cfg_egress = sample_egress,
     cfg_registries = \<lparr>static_catalog_path = None, http_catalog_urls = []\<rparr>\<rparr>"

definition sample_outside :: outside where
  "sample_outside = \<lparr>x_env = (\<lambda>_. None), x_resolve = path_parts, x_repo_root = [''opt''], x_transport = stranger_transport,
     x_validator = reference_errors, x_sha = (\<lambda>_. replicate 64 (CHR ''0'')),
     x_clock = \<lparr>iso_parse = (\<lambda>_. None), now_us = 0\<rparr>, x_timestamp = ''1970-01-01T00:00:00+00:00'',
     x_runtime = quiet_runtime [],
     x_jwt = Some \<lparr>verify_token = (\<lambda>_. Inr (JObj [])),
       verify_with_service = (\<lambda>_. Inr (JObj [(''valid'', JBool True)])),
       principal_of_claims = (\<lambda>_ _. Inr \<lparr>pc_login_handle = JStr ''ann'', pc_principal_id = JStr ''p'', pc_person_id = JNull,
         pc_roles = [JStr ''admin''], pc_expires_at = JNull\<rparr>)\<rparr>,
     x_bind_identity = None, x_schema = Inr (), x_encrypt = (\<lambda>_ _. []), x_decrypt = (\<lambda>_ _. None),
     x_key_file = (\<lambda>_. None), x_generated = [], x_token = ''t'', x_session = ''s''\<rparr>"

definition local_client :: web_request where
  "local_client = \<lparr>wr_client = Some ''127.0.0.1'', wr_credentials = Some \<lparr>cred_scheme = ''Bearer'', cred_token = ''x''\<rparr>,
     wr_header = (\<lambda>_. None)\<rparr>"

text \<open>An addition of floats that does not round.\<close>

fun exact_sum :: "flt \<Rightarrow> flt \<Rightarrow> flt" where
  "exact_sum (Dec m a) (Dec n b) = (let e = min a b in dec_norm (m * 10 ^ nat (a - e) + n * 10 ^ nat (b - e)) e)"
| "exact_sum x y = NaN"

definition sample_process :: srv where
  "sample_process = \<lparr>sv_world = sample_world, sv_metrics = [], sv_latency_sum = [], sv_latency_count = [],
     sv_add = exact_sum\<rparr>"

lemma sample_runtime_quiet:
  "runtime_touches {} (x_runtime sample_outside)" "callables_send P (x_runtime sample_outside)"
  by (simp_all add: sample_outside_def runtime_touches_def callables_touch_def commands_touch_def callables_send_def quiet_runtime_def)

lemma server_network_confined_witness:
  "\<exists>l. w_sent (sv_world (serve sample_config sample_egress [(deployed sample_host sample_outside, local_client, Dec 5 (- 3), ListAll)]
       sample_process)) = w_sent sample_world @ l
     \<and> list_all (\<lambda>q. egress_allowed sample_egress (rq_url q)) l"
  using server_network_confined [where config = sample_config and controller = None and H = sample_host and s = sample_process
      and rs = "[(sample_outside, local_client, Dec 5 (- 3), ListAll)]"]
  by (simp add: sample_runtime_quiet egress_of_def sample_config_def sample_process_def)

lemma changes_need_admission_witness:
  "same_off (lock_area (store_at sample_outside ''/var'')) (w_fs sample_world)
     (w_fs (sv_world (snd (dispatch (app_with (deployed sample_host sample_outside) sample_config sample_egress)
        local_client (Dec 5 (- 3)) ListAll sample_process))))"
  using changes_need_admission [where A = "{}" and X = sample_outside and H = sample_host and config = sample_config and controller = None
      and rq = local_client and us = "Dec 5 (- 3)" and r = ListAll and s = sample_process, OF sample_runtime_quiet(1)]
  by (simp add: create_app_def egress_of_def sample_config_def sample_process_def Let_def)

end
