(* ===== verification/Concurrency.thy ===== *)
theory Concurrency
  imports Catalog Locks "HOL-Library.Multiset"
begin

text \<open>
  Concurrent updates of the local catalog: several clients load it, change their copy and
  write it back, each under the store lock (src/locks.py) as in src/resolver.py, or without
  it as in src/oauth.py. The steps are those at which clients can interleave: taking and
  releasing the lock, loading the file, and the rename that ends the writing of it. Under the
  lock every schedule amounts to some serial order; without it updates are lost.
\<close>

section \<open>Clients and their steps\<close>

datatype cat_act = Lock lock_mode | Unlock | Load | Put json

text \<open>\<open>c_mine\<close> is the catalog a client has loaded.\<close>

record client =
  c_holds :: "lock_mode list"
  c_todo :: "cat_act list"
  c_mine :: catalog

text \<open>\<open>ru_log\<close> records the manifests in the order in which they were written.\<close>

record run_state =
  ru_world :: world
  ru_clients :: "client list"
  ru_log :: "json list"

definition held :: "client list \<Rightarrow> lock_mode list" where
  "held cs = concat (map c_holds cs)"

definition manifest_key :: "json \<Rightarrow> string" where
  "manifest_key m = str_or_empty (jget m ''id'')"

text \<open>The step of client \<open>i\<close>; it waits when its lock is not granted, and gives up on an exception.\<close>

definition act_step :: "validator \<Rightarrow> string \<Rightarrow> capability_store \<Rightarrow> nat \<Rightarrow> run_state \<Rightarrow> run_state" where
  "act_step v token st i s =
     (if length (ru_clients s) \<le> i then s
      else
        (let c = ru_clients s ! i;
             become = (\<lambda>c'. (ru_clients s)[i := c']);
             gives_up = c\<lparr>c_holds := [], c_todo := []\<rparr>
         in case c_todo c of
           [] \<Rightarrow> s
         | Lock m # r \<Rightarrow>
             if grantable m (held (ru_clients s)) then s\<lparr>ru_clients := become (c\<lparr>c_holds := m # c_holds c, c_todo := r\<rparr>)\<rparr>
             else s
         | Unlock # r \<Rightarrow> s\<lparr>ru_clients := become (c\<lparr>c_holds := tl (c_holds c), c_todo := r\<rparr>)\<rparr>
         | Load # r \<Rightarrow>
             (case load_local_catalog v st (ru_world s) of
                (Inr l, w) \<Rightarrow> s\<lparr>ru_world := w, ru_clients := become (c\<lparr>c_todo := r, c_mine := l\<rparr>)\<rparr>
              | (Inl e, w) \<Rightarrow> s\<lparr>ru_world := w, ru_clients := become gives_up\<rparr>)
         | Put m # r \<Rightarrow>
             (case write_local_catalog token st (dset (manifest_key m) m (c_mine c)) (ru_world s) of
                (Inr u, w) \<Rightarrow> s\<lparr>ru_world := w, ru_clients := become (c\<lparr>c_todo := r\<rparr>), ru_log := ru_log s @ [m]\<rparr>
              | (Inl e, w) \<Rightarrow> s\<lparr>ru_world := w, ru_clients := become gives_up\<rparr>)))"

fun schedule :: "validator \<Rightarrow> string \<Rightarrow> capability_store \<Rightarrow> nat list \<Rightarrow> run_state \<Rightarrow> run_state" where
  "schedule v token st [] s = s"
| "schedule v token st (i # is) s = schedule v token st is (act_step v token st i s)"

text \<open>
  The programs: the end of an installation, a reader of the catalog, and what completing an
  OAuth session does.
\<close>

definition locked_upsert :: "json \<Rightarrow> cat_act list" where
  "locked_upsert m = [Lock LockEX, Load, Put m, Unlock]"

definition locked_read :: "cat_act list" where
  "locked_read = [Lock LockSH, Load, Unlock]"

definition unlocked_upsert :: "json \<Rightarrow> cat_act list" where
  "unlocked_upsert m = [Load, Put m]"

definition idle :: "cat_act list \<Rightarrow> client" where
  "idle p = \<lparr>c_holds = [], c_todo = p, c_mine = []\<rparr>"

definition begin_run :: "world \<Rightarrow> cat_act list list \<Rightarrow> run_state" where
  "begin_run w ps = \<lparr>ru_world = w, ru_clients = map idle ps, ru_log = []\<rparr>"

definition all_done :: "run_state \<Rightarrow> bool" where
  "all_done s \<longleftrightarrow> list_all (\<lambda>c. c_todo c = []) (ru_clients s)"

text \<open>A client alone does what \<open>upsert_local\<close> does.\<close>

lemma upsert_alone:
  assumes "validate_manifest v m = Inr x" and "manifest_key m \<noteq> []"
  shows "ru_world (schedule v token st [0, 0] (begin_run w [unlocked_upsert m])) = snd (upsert_local v token st m w)"
  using assms
  by (simp add: begin_run_def unlocked_upsert_def idle_def act_step_def upsert_local_def manifest_key_def Let_def
      io_bind_def io_lift_def split: prod.split sum.split)

section \<open>The invariant\<close>

text \<open>Where a client under the lock can be; a writer that has loaded has the current catalog.\<close>

inductive client_ok :: "validator \<Rightarrow> catalog \<Rightarrow> client \<Rightarrow> bool" for v cur where
  waits: "entry_good v (manifest_key m) m \<Longrightarrow> client_ok v cur \<lparr>c_holds = [], c_todo = locked_upsert m, c_mine = l\<rparr>"
| locked: "entry_good v (manifest_key m) m \<Longrightarrow> client_ok v cur \<lparr>c_holds = [LockEX], c_todo = [Load, Put m, Unlock], c_mine = l\<rparr>"
| loaded: "entry_good v (manifest_key m) m \<Longrightarrow> client_ok v cur \<lparr>c_holds = [LockEX], c_todo = [Put m, Unlock], c_mine = cur\<rparr>"
| stored: "client_ok v cur \<lparr>c_holds = [LockEX], c_todo = [Unlock], c_mine = l\<rparr>"
| reads: "client_ok v cur \<lparr>c_holds = [], c_todo = locked_read, c_mine = l\<rparr>"
| reading: "client_ok v cur \<lparr>c_holds = [LockSH], c_todo = [Load, Unlock], c_mine = l\<rparr>"
| has_read: "client_ok v cur \<lparr>c_holds = [LockSH], c_todo = [Unlock], c_mine = l\<rparr>"
| finished: "client_ok v cur \<lparr>c_holds = [], c_todo = [], c_mine = l\<rparr>"

lemma client_ok_free: "client_ok v cur c \<Longrightarrow> c_holds c = [] \<Longrightarrow> client_ok v cur' c"
  by (erule client_ok.cases) (auto intro: client_ok.intros)

definition puts :: "cat_act list \<Rightarrow> json list" where
  "puts as = concat (map (\<lambda>a. case a of Put m \<Rightarrow> [m] | _ \<Rightarrow> []) as)"

lemma puts_simps [simp]:
  "puts [] = []" "puts (Put m # as) = m # puts as" "puts (Lock l # as) = puts as" "puts (Unlock # as) = puts as"
  "puts (Load # as) = puts as"
  by (simp_all add: puts_def)

definition open_puts :: "client list \<Rightarrow> json multiset" where
  "open_puts cs = mset (concat (map (\<lambda>c. puts (c_todo c)) cs))"

text \<open>Replacing one client.\<close>

lemma client_split:
  assumes "i < length cs"
  obtains a b where "cs = a @ cs ! i # b" and "\<And>c. cs[i := c] = a @ c # b"
  using assms id_take_nth_drop [OF assms] upd_conv_take_nth_drop [OF assms] by blast

definition serial_inv ::
    "validator \<Rightarrow> string \<Rightarrow> capability_store \<Rightarrow> catalog \<Rightarrow> json multiset \<Rightarrow> run_state \<Rightarrow> bool" where
  "serial_inv v token st l0 ms s \<longleftrightarrow>
     ready_store token st (ru_world s)
     \<and> local_view v st (w_fs (ru_world s)) = Inr (fold put_spec (ru_log s) l0)
     \<and> list_all (client_ok v (fold put_spec (ru_log s) l0)) (ru_clients s)
     \<and> compatible (held (ru_clients s))
     \<and> mset (ru_log s) + open_puts (ru_clients s) = ms"


lemma serial_start:
  assumes "ready_store token st w" and "local_view v st (w_fs w) = Inr l0"
    and "list_all (\<lambda>m. entry_good v (manifest_key m) m) ms"
  shows "serial_inv v token st l0 (mset ms) (begin_run w (map locked_upsert ms @ replicate n locked_read))"
proof -
  let ?ps = "map locked_upsert ms @ replicate n locked_read"
  have ok: "list_all (client_ok v l0) (map idle ?ps)"
    using assms(3) by (auto simp: list_all_iff idle_def intro: client_ok.intros)
  have held: "held (map idle ?ps) = []" by (auto simp: held_def idle_def)
  have "concat (map (\<lambda>c. puts (c_todo c)) (map idle ?ps)) = ms"
    by (induction ms) (simp_all add: idle_def locked_upsert_def locked_read_def)
  then have "open_puts (map idle ?ps) = mset ms" by (simp only: open_puts_def)
  with assms(1,2) ok held show ?thesis
    unfolding serial_inv_def begin_run_def by (simp only: run_state.select_convs) (simp add: compatible_def)
qed

text \<open>A step that changes one client and leaves the catalog as it is.\<close>

lemma serial_keep:
  assumes inv: "serial_inv v token st l0 ms s" and i: "i < length (ru_clients s)"
    and c: "client_ok v (fold put_spec (ru_log s) l0) c" "puts (c_todo c) = puts (c_todo (ru_clients s ! i))"
    and h: "compatible (held ((ru_clients s)[i := c]))"
    and w: "ready_store token st w" "local_view v st (w_fs w) = Inr (fold put_spec (ru_log s) l0)"
  shows "serial_inv v token st l0 ms (s\<lparr>ru_world := w, ru_clients := (ru_clients s)[i := c]\<rparr>)"
proof -
  obtain a b where cs: "ru_clients s = a @ ru_clients s ! i # b" "\<And>c. (ru_clients s)[i := c] = a @ c # b"
    using client_split [OF i] by metis
  have "open_puts (a @ c # b) = open_puts (a @ ru_clients s ! i # b)" by (simp add: open_puts_def c(2))
  moreover have "list_all (client_ok v (fold put_spec (ru_log s) l0)) (a @ c # b)"
  proof -
    have "list_all (client_ok v (fold put_spec (ru_log s) l0)) (a @ ru_clients s ! i # b)"
      unfolding cs(1) [symmetric] using inv by (simp add: serial_inv_def)
    with c(1) show ?thesis by simp
  qed
  ultimately show ?thesis
    using inv h w cs by (simp add: serial_inv_def)
qed

text \<open>The step that writes: its client alone holds a lock, so no other one has a copy.\<close>

lemma serial_put:
  assumes v: "manifest_validator v" and inv: "serial_inv v token st l0 ms s" and i: "i < length (ru_clients s)"
    and c: "ru_clients s ! i = \<lparr>c_holds = [LockEX], c_todo = [Put m, Unlock], c_mine = fold put_spec (ru_log s) l0\<rparr>"
    and m: "entry_good v (manifest_key m) m"
  shows "serial_inv v token st l0 ms (act_step v token st i s)"
proof -
  let ?l = "fold put_spec (ru_log s) l0"
  let ?c = "\<lparr>c_holds = [LockEX], c_todo = [Unlock], c_mine = ?l\<rparr>"
  have w: "ready_store token st (ru_world s)" "local_view v st (w_fs (ru_world s)) = Inr ?l"
    and ok: "list_all (client_ok v ?l) (ru_clients s)" and comp: "compatible (held (ru_clients s))"
    and all: "mset (ru_log s) + open_puts (ru_clients s) = ms"
    using inv by (simp_all add: serial_inv_def)
  have "cat_good v ?l" using manifest_validator.good_local [OF v _ w(2)] w(1) by (simp add: ready_store_def)
  then have "cat_good v (dset (manifest_key m) m ?l)" using m by (rule cat_good_dset)
  from ready_write [OF v w this] obtain w' where
    wr: "write_local_catalog token st (dset (manifest_key m) m ?l) (ru_world s) = (Inr (), w')"
    and w': "ready_store token st w'" "local_view v st (w_fs w') = Inr (put_spec m ?l)"
    by (auto simp: put_spec_def manifest_key_def)
  obtain a b where cs: "ru_clients s = a @ ru_clients s ! i # b" "\<And>c. (ru_clients s)[i := c] = a @ c # b"
    using client_split [OF i] by metis
  have "held (a @ ru_clients s ! i # b) = held a @ [LockEX] @ held b" by (simp add: held_def c)
  with comp cs(1) have "compatible (held a @ [LockEX] @ held b)" by simp
  then have free: "held a = []" "held b = []" by (auto simp: compatible_def append_eq_Cons_conv)
  have "client_ok v cur x" if "x \<in> set (a @ b)" for x cur
  proof (rule client_ok_free)
    show "c_holds x = []" using that free by (auto simp: held_def)
    have "x \<in> set (a @ ru_clients s ! i # b)" using that by auto
    then have "x \<in> set (ru_clients s)" unfolding cs(1) [symmetric] .
    with ok show "client_ok v ?l x" by (simp add: list_all_iff)
  qed
  then have "list_all (client_ok v cur) (a @ ?c # b)" for cur by (auto simp: list_all_iff intro: client_ok.stored)
  moreover have "held (a @ ?c # b) = [LockEX]"
  proof -
    have "held (a @ ?c # b) = held a @ [LockEX] @ held b" by (simp add: held_def)
    with free show ?thesis by simp
  qed
  moreover have "mset (ru_log s @ [m]) + open_puts (a @ ?c # b) = ms"
  proof -
    have "open_puts (a @ ru_clients s ! i # b) = add_mset m (open_puts (a @ ?c # b))" by (simp add: open_puts_def c)
    with all cs(1) show ?thesis by simp
  qed
  moreover have "act_step v token st i s = s\<lparr>ru_world := w', ru_clients := a @ ?c # b, ru_log := ru_log s @ [m]\<rparr>"
    using i wr by (simp add: act_step_def c cs(2))
  ultimately show ?thesis using w' by (simp add: serial_inv_def compatible_def)
qed

lemma serial_step:
  assumes v: "manifest_validator v" and inv: "serial_inv v token st l0 ms s"
  shows "serial_inv v token st l0 ms (act_step v token st i s)"
proof (cases "i < length (ru_clients s)")
  case True
  let ?l = "fold put_spec (ru_log s) l0" and ?c = "ru_clients s ! i"
  have w: "ready_store token st (ru_world s)" "local_view v st (w_fs (ru_world s)) = Inr ?l"
    and ok: "client_ok v ?l ?c" and comp: "compatible (held (ru_clients s))"
    using inv True by (simp_all add: serial_inv_def list_all_length)
  obtain w' where load: "load_local_catalog v st (ru_world s) = (Inr ?l, w')" "ready_store token st w'"
    "local_view v st (w_fs w') = Inr ?l" using ready_load [OF w] by blast
  obtain a b where cs: "ru_clients s = a @ ?c # b" "\<And>c. (ru_clients s)[i := c] = a @ c # b"
    using client_split [OF True] by metis
  have h: "held (ru_clients s) = held a @ c_holds ?c @ held b" "held ((ru_clients s)[i := c]) = held a @ c_holds c @ held b" for c
    using cs by (metis (no_types, lifting) concat.simps(2) concat_append held_def list.simps(9) map_append)+
  note keep = serial_keep [OF inv True]
  show ?thesis
    using ok
  proof cases
    case (loaded m)
    with serial_put [OF v inv True _ loaded(2)] show ?thesis by simp
  next
    case (waits m l)
    let ?d = "\<lparr>c_holds = [LockEX], c_todo = [Load, Put m, Unlock], c_mine = l\<rparr>"
    show ?thesis
    proof (cases "held (ru_clients s) = []")
      case True
      then have "compatible (held ((ru_clients s)[i := ?d]))" using h by (simp add: compatible_def)
      from keep [OF client_ok.locked [OF waits(2)] _ this w] True \<open>i < _\<close> waits show ?thesis
        by (simp add: act_step_def locked_upsert_def grantable_def)
    qed (use inv \<open>i < _\<close> waits in \<open>simp add: act_step_def locked_upsert_def grantable_def\<close>)
  next
    case (locked m l)
    then have "compatible (held ((ru_clients s)[i := \<lparr>c_holds = [LockEX], c_todo = [Put m, Unlock], c_mine = ?l\<rparr>]))"
      using comp h by simp
    from keep [OF client_ok.loaded [OF locked(2)] _ this load(2,3)] True locked show ?thesis
      by (simp add: act_step_def load(1))
  next
    case (stored l)
    then have "compatible (held ((ru_clients s)[i := \<lparr>c_holds = [], c_todo = [], c_mine = l\<rparr>]))"
      using comp h compatible_tl [of "held a" "[LockEX]"] by simp
    from keep [OF client_ok.finished _ this w] True stored show ?thesis
      by (simp add: act_step_def)
  next
    case (reads l)
    let ?d = "\<lparr>c_holds = [LockSH], c_todo = [Load, Unlock], c_mine = l\<rparr>"
    show ?thesis
    proof (cases "list_all (\<lambda>h. h = LockSH) (held (ru_clients s))")
      case True
      then have "compatible (held ((ru_clients s)[i := ?d]))" using h by (simp add: compatible_def)
      from keep [OF client_ok.reading _ this w] True \<open>i < _\<close> reads show ?thesis
        by (simp add: act_step_def locked_read_def grantable_def)
    qed (use inv \<open>i < _\<close> reads in \<open>simp add: act_step_def locked_read_def grantable_def\<close>)
  next
    case (reading l)
    then have "compatible (held ((ru_clients s)[i := \<lparr>c_holds = [LockSH], c_todo = [Unlock], c_mine = ?l\<rparr>]))"
      using comp h by simp
    from keep [OF client_ok.has_read _ this load(2,3)] True reading show ?thesis
      by (simp add: act_step_def load(1))
  next
    case (has_read l)
    then have "compatible (held ((ru_clients s)[i := \<lparr>c_holds = [], c_todo = [], c_mine = l\<rparr>]))"
      using comp h compatible_tl [of "held a" "[LockSH]"] by simp
    from keep [OF client_ok.finished _ this w] True has_read show ?thesis
      by (simp add: act_step_def)
  next
    case (finished l)
    with inv True show ?thesis by (simp add: act_step_def)
  qed
next
  case False
  then show ?thesis using inv by (simp add: act_step_def)
qed


lemma serial_schedule:
  "manifest_validator v \<Longrightarrow> serial_inv v token st l0 ms s \<Longrightarrow> serial_inv v token st l0 ms (schedule v token st is s)"
  by (induction "is" arbitrary: s) (simp_all add: serial_step)

text \<open>Whoever holds a lock can go on, and when nobody does every waiting client can.\<close>

lemma holder_moves:
  assumes "client_ok v cur c" and "c_holds c \<noteq> []"
  shows "\<exists>a r. c_todo c = a # r \<and> (a = Load \<or> a = Unlock \<or> (\<exists>m. a = Put m))"
  using assms by (cases rule: client_ok.cases) auto

lemma waiter_locks:
  assumes "client_ok v cur c" and "c_holds c = []" and "c_todo c \<noteq> []"
  shows "\<exists>m r. c_todo c = Lock m # r"
  using assms by (cases rule: client_ok.cases) (auto simp: locked_upsert_def locked_read_def)

lemma step_moves:
  assumes "i < length (ru_clients s)" and "c_todo (ru_clients s ! i) = a # r"
    and "case a of Lock m \<Rightarrow> grantable m (held (ru_clients s)) | _ \<Rightarrow> True"
  shows "act_step v token st i s \<noteq> s"
proof -
  have "\<exists>c. ru_clients (act_step v token st i s) = (ru_clients s)[i := c] \<and> (c_todo c = r \<or> c_todo c = [])"
    using assms by (cases a) (auto simp: act_step_def Let_def split: prod.split sum.split)
  then obtain c where "ru_clients (act_step v token st i s) ! i = c" and "c_todo c = r \<or> c_todo c = []"
    using assms(1) by auto
  then have "c_todo (ru_clients (act_step v token st i s) ! i) \<noteq> a # r" by auto
  with assms(2) show ?thesis by metis
qed

lemma serial_progress:
  assumes inv: "serial_inv v token st l0 ms s" and open_client: "\<not> all_done s"
  shows "\<exists>i. act_step v token st i s \<noteq> s"
proof -
  have ok: "client_ok v (fold put_spec (ru_log s) l0) (ru_clients s ! i)" if "i < length (ru_clients s)" for i
    using inv that by (simp add: serial_inv_def list_all_length)
  show ?thesis
  proof (cases "\<exists>i < length (ru_clients s). c_holds (ru_clients s ! i) \<noteq> []")
    case True
    then obtain i where i: "i < length (ru_clients s)" "c_holds (ru_clients s ! i) \<noteq> []" by blast
    from holder_moves [OF ok [OF i(1)] i(2)] obtain a r where a: "c_todo (ru_clients s ! i) = a # r"
      "a = Load \<or> a = Unlock \<or> (\<exists>m. a = Put m)" by blast
    from a(2) have "case a of Lock m \<Rightarrow> grantable m (held (ru_clients s)) | _ \<Rightarrow> True" by auto
    from step_moves [OF i(1) a(1) this] show ?thesis ..
  next
    case False
    then have none: "held (ru_clients s) = []" by (auto simp: held_def in_set_conv_nth)
    from open_client obtain i where i: "i < length (ru_clients s)" "c_todo (ru_clients s ! i) \<noteq> []"
      by (auto simp: all_done_def list_all_length)
    with waiter_locks [OF ok [OF i(1)]] False obtain m r where lock: "c_todo (ru_clients s ! i) = Lock m # r" by blast
    have "grantable m (held (ru_clients s))" by (simp add: none grantable_def split: lock_mode.split)
    with step_moves [OF i(1) lock] show ?thesis by auto
  qed
qed

lemma keys_put_spec: "dget (put_spec m l) k \<noteq> None \<longleftrightarrow> k = manifest_key m \<or> dget l k \<noteq> None"
  by (simp add: put_spec_def dget_reread manifest_key_def)

lemma keys_fold: "dget (fold put_spec ms l) k \<noteq> None \<longleftrightarrow> k \<in> manifest_key ` set ms \<or> dget l k \<noteq> None"
  by (induction ms arbitrary: l) (auto simp: keys_put_spec simp del: not_None_eq)

section \<open>Properties\<close>

text \<open>
  C13: installations that run concurrently under the store lock, beside any number of
  readers, are serializable: at every point of every schedule the local catalog is what the
  completed writes make of it in the order in which they happened, and when all clients are
  done that order has each manifest exactly once, so none is lost. And until then some client
  can always go on.
\<close>

theorem concurrent_updates_serialize:
  assumes "manifest_validator v" and "ready_store token st w" and "local_view v st (w_fs w) = Inr l0"
    and "list_all (\<lambda>m. json_ok m \<and> v m = []) ms"
    and "s = schedule v token st is (begin_run w (map locked_upsert ms @ replicate n locked_read))"
  shows "local_view v st (w_fs (ru_world s)) = Inr (fold put_spec (ru_log s) l0)
    \<and> (if all_done s
       then mset (ru_log s) = mset ms \<and> list_all (\<lambda>m. dget (fold put_spec (ru_log s) l0) (manifest_key m) \<noteq> None) ms
       else \<exists>i. act_step v token st i s \<noteq> s)"
proof -
  have "list_all (\<lambda>m. entry_good v (manifest_key m) m) ms"
    using assms(4) manifest_validator.valid_entry [OF assms(1)] by (simp add: list_all_iff manifest_key_def)
  from serial_schedule [OF assms(1) serial_start [OF assms(2,3) this]]
  have inv: "serial_inv v token st l0 (mset ms) s" unfolding assms(5) .
  show ?thesis
  proof (cases "all_done s")
    case True
    then have "open_puts (ru_clients s) = {#}" by (simp add: all_done_def open_puts_def list_all_iff)
    with inv have log: "mset (ru_log s) = mset ms" by (simp add: serial_inv_def)
    then have "set (ru_log s) = set ms" by (metis set_mset_mset)
    with log inv True show ?thesis by (simp add: serial_inv_def list_all_iff keys_fold del: not_None_eq)
  qed (use inv serial_progress [OF inv] in \<open>simp add: serial_inv_def\<close>)
qed

lemma concurrent_updates_serialize_witness:
  "let s = schedule reference_errors ''x'' sample_store [0, 1, 1, 0, 0, 1, 0, 1, 1, 1, 1]
      (begin_run sample_world (map locked_upsert [demo_manifest, other_manifest] @ replicate 0 locked_read))
   in local_view reference_errors sample_store (w_fs (ru_world s)) = Inr (fold put_spec (ru_log s) [])"
proof -
  have "ready_store ''x'' sample_store sample_world" "local_view reference_errors sample_store (w_fs sample_world) = Inr []"
    "list_all (\<lambda>m. json_ok m \<and> reference_errors m = []) [demo_manifest, other_manifest]"
    by code_simp+
  from concurrent_updates_serialize [OF reference.manifest_validator_axioms this refl] show ?thesis
    unfolding Let_def by blast
qed

text \<open>
  C19: without the lock an update is lost: when an OAuth session is completed, which takes no
  lock, while a manifest is installed, there is a schedule in which both finish without an
  error and the installed manifest is not in the catalog.
\<close>

theorem unlocked_update_lost:
  assumes "manifest_validator v" and "ready_store token st w" and "local_view v st (w_fs w) = Inr l0"
    and "json_ok m1 \<and> v m1 = []" and "json_ok m2 \<and> v m2 = []" and "manifest_key m1 \<noteq> manifest_key m2"
    and "dget l0 (manifest_key m2) = None"
  shows "let s = schedule v token st [0, 1, 1, 1, 1, 0] (begin_run w [unlocked_upsert m1, locked_upsert m2]) in
    all_done s \<and> ru_log s = [m2, m1]
    \<and> (\<exists>l. local_view v st (w_fs (ru_world s)) = Inr l \<and> dget l (manifest_key m2) = None)"
proof -
  have good: "entry_good v (manifest_key m) m" if "json_ok m \<and> v m = []" for m
    using that manifest_validator.valid_entry [OF assms(1)] by (simp add: manifest_key_def)
  obtain w1 where w1: "load_local_catalog v st w = (Inr l0, w1)" "ready_store token st w1" "local_view v st (w_fs w1) = Inr l0"
    using ready_load [OF assms(2,3)] by blast
  obtain w2 where w2: "load_local_catalog v st w1 = (Inr l0, w2)" "ready_store token st w2" "local_view v st (w_fs w2) = Inr l0"
    using ready_load [OF w1(2,3)] by blast
  have l0: "cat_good v l0" using manifest_validator.good_local [OF assms(1) _ assms(3)] assms(2) by (simp add: ready_store_def)
  note put = ready_write [OF assms(1) _ _ cat_good_dset [OF l0 good]]
  obtain w3 where w3: "write_local_catalog token st (dset (manifest_key m2) m2 l0) w2 = (Inr (), w3)" "ready_store token st w3"
    "local_view v st (w_fs w3) = Inr (reread (dset (manifest_key m2) m2 l0))"
    using put [OF w2(2,3) assms(5)] by blast
  obtain w4 where w4: "write_local_catalog token st (dset (manifest_key m1) m1 l0) w3 = (Inr (), w4)"
    "local_view v st (w_fs w4) = Inr (reread (dset (manifest_key m1) m1 l0))"
    using put [OF w3(2,3) assms(4)] by blast
  have "schedule v token st [0, 1, 1, 1, 1, 0] (begin_run w [unlocked_upsert m1, locked_upsert m2])
      = \<lparr>ru_world = w4, ru_clients = [\<lparr>c_holds = [], c_todo = [], c_mine = l0\<rparr>, \<lparr>c_holds = [], c_todo = [], c_mine = l0\<rparr>],
         ru_log = [m2, m1]\<rparr>"
    by (simp add: begin_run_def idle_def unlocked_upsert_def locked_upsert_def act_step_def held_def grantable_def w1(1) w2(1)
        w3(1) w4(1))
  then show ?thesis
    using w4(2) assms(6,7) by (simp add: Let_def all_done_def dget_reread)
qed

lemma unlocked_update_lost_witness:
  "let s = schedule reference_errors ''x'' sample_store [0, 1, 1, 1, 1, 0]
      (begin_run sample_world [unlocked_upsert demo_manifest, locked_upsert other_manifest]) in
    all_done s \<and> ru_log s = [other_manifest, demo_manifest]
    \<and> (\<exists>l. local_view reference_errors sample_store (w_fs (ru_world s)) = Inr l \<and> dget l (manifest_key other_manifest) = None)"
proof -
  have a: "ready_store ''x'' sample_store sample_world" "local_view reference_errors sample_store (w_fs sample_world) = Inr []"
    "json_ok demo_manifest \<and> reference_errors demo_manifest = []" "json_ok other_manifest \<and> reference_errors other_manifest = []"
    "manifest_key demo_manifest \<noteq> manifest_key other_manifest" "dget [] (manifest_key other_manifest) = None"
    by code_simp+
  show ?thesis by (rule unlocked_update_lost [OF reference.manifest_validator_axioms a])
qed

end
