(* ===== verification/System_Laws.thy ===== *)
theory System_Laws
  imports Server_Laws
begin

text \<open>
  What holds of the whole system at every moment: the catalogs on disk stay readable and
  well typed whatever requests are served, whatever fails and wherever the process stops.
\<close>

section \<open>Operations that keep an invariant of the files\<close>

text \<open>
  \<open>preserves J Q m\<close>: from files that satisfy \<open>J\<close>, the operation passes through and ends in
  such files only, however it ends, and what it returns satisfies \<open>Q\<close>.
\<close>

definition preserves :: "(fs \<Rightarrow> bool) \<Rightarrow> ('a \<Rightarrow> bool) \<Rightarrow> 'a io \<Rightarrow> bool" where
  "preserves J Q m \<longleftrightarrow>
     triple J (\<lambda>w. J (w_fs w)) m (\<lambda>a w. J (w_fs w) \<and> Q a) (\<lambda>_ w. J (w_fs w))"

abbreviation guards :: "(fs \<Rightarrow> bool) \<Rightarrow> 'a io \<Rightarrow> bool" where
  "guards J \<equiv> preserves J (\<lambda>_. True)"

named_theorems guards_rules

lemma preservesD:
  "preserves J Q m \<Longrightarrow> J (w_fs w) \<Longrightarrow> m w = (r, w') \<Longrightarrow> steps_ok J w w' \<and> J (w_fs w')"
  unfolding preserves_def by (drule (2) tripleD) (auto split: sum.splits)

lemma guards_touches:
  assumes "touches X m" and "\<And>s s'. same_off X s s' \<Longrightarrow> J s \<Longrightarrow> J s'"
  shows "guards J m"
  unfolding preserves_def
  by (rule triple_weaken [OF touches_keeps [OF assms(1), where P = J]]) (use assms(2) in auto)

lemma preserves_returns: "guards J m \<Longrightarrow> returns Q m \<Longrightarrow> preserves J Q m"
  unfolding preserves_def triple_def by (fastforce dest: returnsD split: sum.splits)

lemma preserves_bind: "preserves J Q m \<Longrightarrow> (\<And>a. Q a \<Longrightarrow> preserves J R (f a)) \<Longrightarrow> preserves J R (io_bind m f)"
  unfolding preserves_def by (rule triple_bind, assumption) (simp add: triple_case_split)

lemma guards_bind [guards_rules]: "guards J m \<Longrightarrow> (\<And>a. guards J (f a)) \<Longrightarrow> guards J (io_bind m f)"
  by (rule preserves_bind)

lemma guards_lift_bind: "(\<And>a. r = Inr a \<Longrightarrow> guards J (f a)) \<Longrightarrow> guards J (io_bind (io_lift r) f)"
  by (cases r) (auto simp: preserves_def intro: triple_raise)

lemma guards_try [guards_rules]: "guards J m \<Longrightarrow> (\<And>e. guards J (h e)) \<Longrightarrow> guards J (io_try m h)"
  unfolding preserves_def by (rule triple_try)

lemma guards_silent [guards_rules]:
  "guards J (io_return a)" "guards J (io_raise e)" "guards J (io_get f)" "guards J (io_lift r)"
  unfolding preserves_def by (auto intro: triple_return triple_raise triple_get triple_lift)

lemma guards_if [guards_rules]: "(b \<Longrightarrow> guards J m) \<Longrightarrow> (\<not> b \<Longrightarrow> guards J n) \<Longrightarrow> guards J (if b then m else n)"
  by simp

text \<open>Two views of one run.\<close>

lemma triple_both:
  assumes "triple I P m Q E" and "triple I' P' m Q' E'"
  shows "triple (\<lambda>s. I s \<and> I' s) (\<lambda>w. P w \<and> P' w) m (\<lambda>a w. Q a w \<and> Q' a w) (\<lambda>e w. E e w \<and> E' e w)"
proof (rule tripleI)
  fix w r w'
  assume "P w \<and> P' w" and run: "m w = (r, w')"
  with tripleD [OF assms(1) _ run] tripleD [OF assms(2) _ run]
  show "steps_ok (\<lambda>s. I s \<and> I' s) w w' \<and> (case r of Inl e \<Rightarrow> E e w' \<and> E' e w' | Inr a \<Rightarrow> Q a w' \<and> Q' a w')"
    by (auto simp: steps_ok_def split: sum.splits)
qed

section \<open>Well kept catalogs\<close>

text \<open>
  The local catalog can be loaded, and both catalogs hold valid manifests only, each under
  its own identifier. A shipped catalog that cannot be read is not the business of the store.
\<close>

definition well_kept :: "validator \<Rightarrow> capability_store \<Rightarrow> fs \<Rightarrow> bool" where
  "well_kept v st s \<longleftrightarrow>
     (case local_view v st s of Inr l \<Rightarrow> cat_good v l | Inl e \<Rightarrow> False)
     \<and> (case base_view v st s of Inr b \<Rightarrow> cat_good v b | Inl e \<Rightarrow> True)"

lemma well_kept_same:
  "well_kept v st s \<Longrightarrow> fs_get s' (local_catalog st) = fs_get s (local_catalog st)
     \<Longrightarrow> fs_get s' (base_catalog st) = fs_get s (base_catalog st) \<Longrightarrow> well_kept v st s'"
  by (simp add: well_kept_def local_view_def base_view_def catalog_at_def)

lemma well_kept_off:
  "touches X m \<Longrightarrow> local_catalog st \<notin> X \<Longrightarrow> base_catalog st \<notin> X \<Longrightarrow> guards (well_kept v st) m"
  by (rule guards_touches) (auto intro: well_kept_same simp: same_offD)

lemma well_kept_area:
  assumes "base_catalog st \<notin> store_tree st"
  shows "touches (store_area st) m \<Longrightarrow> guards (well_kept v st) m" "touches {} m' \<Longrightarrow> guards (well_kept v st) m'"
  using assms area_in_tree(1) local_not_in_area by (auto intro: well_kept_off)

context manifest_validator
begin

text \<open>What loading returns.\<close>

lemma load_local_good: "preserves (well_kept iter_errors st) (cat_good iter_errors) (load_local_catalog iter_errors st)"
  unfolding preserves_def load_local_catalog_def
  by (rule triple_pointwise, rule triple_weaken [OF triple_load]) (auto simp: well_kept_def local_view_def)

lemma load_base_good:
  "base_catalog st \<noteq> [] \<Longrightarrow>
     preserves (well_kept iter_errors st) (cat_good iter_errors) (load_base_catalog iter_errors st)"
  unfolding preserves_def load_base_catalog_def
  by (rule triple_pointwise, rule triple_weaken [OF triple_load]) (auto simp: well_kept_def base_view_def)

lemma merged_good:
  assumes "base_catalog st \<noteq> []"
  shows "preserves (well_kept iter_errors st) (cat_good iter_errors) (merged_catalog iter_errors st)"
  unfolding merged_catalog_def
  by (rule preserves_bind [OF load_base_good [OF assms]], rule preserves_bind [OF load_local_good],
      rule preserves_returns [OF guards_silent(1)], rule returns_return) (rule good_merged)

text \<open>Writing.\<close>

lemma guards_write_local:
  assumes apart: "base_catalog st \<notin> store_tree st" and d: "cat_good iter_errors d"
  shows "guards (well_kept iter_errors st) (write_local_catalog token st d)"
  unfolding preserves_def
proof (rule triple_pointwise)
  fix s0 assume s0: "well_kept iter_errors st s0"
  let ?new = "Inr (reread d)"
  have kept: "well_kept iter_errors st s"
    if "cat_atomic iter_errors st s0 ?new s" "same_off (store_tree st) s0 s" for s
    using that s0 same_offD [OF that(2) apart] cat_good_reread [OF d]
    by (auto simp: cat_atomic_def well_kept_def base_view_def catalog_at_def)
  note run = triple_both [OF triple_write_local [OF d refl, of st s0 token] touchesD [OF tree_write_local, of st s0 token d]]
  show "triple (well_kept iter_errors st) (\<lambda>w. w_fs w = s0) (write_local_catalog token st d)
      (\<lambda>_ w. well_kept iter_errors st (w_fs w) \<and> True) (\<lambda>_ w. well_kept iter_errors st (w_fs w))"
    by (rule triple_inv [OF triple_weaken [OF run]]) (use kept in \<open>auto simp: cat_atomic_def\<close>)
qed

lemma guards_upsert:
  assumes apart: "base_catalog st \<notin> store_tree st" and m: "json_ok m"
  shows "guards (well_kept iter_errors st) (upsert_local iter_errors token st m)"
proof (cases "validate_manifest iter_errors m")
  case (Inr x)
  then have e: "entry_good iter_errors (str_or_empty (jget m ''id'')) m"
    using valid_entry [OF m] by (simp add: result_simps)
  show ?thesis
    unfolding upsert_local_def Let_def Inr io_lift_Inr io_bind_return
    by (intro guards_rules preserves_bind [OF load_local_good] guards_write_local [OF apart] cat_good_dset [OF _ e])
qed (simp add: upsert_local_def guards_silent)

lemma guards_delete:
  assumes "base_catalog st \<notin> store_tree st"
  shows "guards (well_kept iter_errors st) (delete_local iter_errors token st k)"
  unfolding delete_local_def
  by (intro guards_rules preserves_bind [OF load_local_good] guards_write_local [OF assms] cat_good_dpop)

lemma guards_set_enabled:
  assumes apart: "base_catalog st \<notin> store_tree st" and base: "base_catalog st \<noteq> []"
  shows "guards (well_kept iter_errors st) (set_local_enabled iter_errors token st k b)"
  unfolding set_local_enabled_def
proof (rule preserves_bind [OF merged_good [OF base]])
  fix d assume "cat_good iter_errors d"
  then show "guards (well_kept iter_errors st)
      (case dget d k of None \<Rightarrow> io_raise (CapabilityNotFoundError (''capability not found: '' @ k))
       | Some m \<Rightarrow> upsert_local iter_errors token st (jset ''enabled'' (JBool b) m))"
    using cat_good_get [of iter_errors d k]
    by (cases "dget d k") (auto simp: entry_good_def json_ok_jset intro!: guards_silent guards_upsert [OF apart])
qed

end

section \<open>The operations of the service\<close>

lemma guards_locked:
  assumes "base_catalog (r_store R) \<notin> store_tree (r_store R)" and "guards (well_kept v (r_store R)) m"
  shows "guards (well_kept v (r_store R)) (with_lock (store_lock R) m)"
  unfolding with_lock_def store_lock_def
  by (rule guards_bind [OF well_kept_area(1) [OF assms(1) touches_lock [OF lock_area_in_area]] assms(2)])

text \<open>A factory reset leaves an empty catalog.\<close>

lemma guards_unlink_local:
  assumes "base_catalog st \<noteq> local_catalog st"
  shows "guards (well_kept v st) (unlink_missing_ok (local_catalog st))"
proof -
  have gone: "well_kept v st (fs_del (local_catalog st) s)" if "well_kept v st s" for s
    using that assms by (simp add: well_kept_def local_view_def base_view_def catalog_at_def)
  have "guards (well_kept v st) (unlink (local_catalog st))"
    unfolding preserves_def unlink_def
    by (rule triple_weaken [OF triple_prim [where P = "well_kept v st" and Q = "\<lambda>_. well_kept v st" and E = "\<lambda>_. well_kept v st"]])
       (use gone in \<open>auto split: option.splits node.splits\<close>)
  then show ?thesis
    unfolding unlink_missing_ok_def
    by (rule guards_try) (auto intro!: guards_rules split: exc.split pykind.split)
qed

lemma guards_factory_reset:
  assumes "base_catalog st \<notin> store_tree st"
  shows "guards (well_kept v st) (factory_reset st)"
proof -
  have "local_catalog st \<in> store_tree st" by (simp add: store_tree_def local_catalog_def is_prefix_iff)
  with assms have "base_catalog st \<noteq> local_catalog st" by metis
  moreover have "touches (store_area st) (rmtree (base_dir st @ [x]))" if "x \<in> {''manifests'', ''payloads'', ''tmp''}" for x
    using that by (intro touches_mono [OF touches_rmtree]) (auto intro: area_below)
  ultimately show ?thesis
    unfolding factory_reset_def manifests_dir_def payloads_dir_def tmp_dir_def
    by (intro guards_rules guards_unlink_local well_kept_area(1) [OF assms]) simp_all
qed

lemma guards_resolver_remove:
  assumes v: "manifest_validator (r_validator R)" and apart: "base_catalog (r_store R) \<notin> store_tree (r_store R)"
    and base: "base_catalog (r_store R) \<noteq> []"
  shows "guards (well_kept (r_validator R) (r_store R)) (resolver_remove R token k ver)"
  unfolding resolver_remove_def remove_locked_def
  by (intro guards_locked [OF apart] guards_rules manifest_validator.guards_delete [OF v apart] manifest_validator.guards_set_enabled [OF v apart base]
        well_kept_area [OF apart] touches_merged touches_best_effort area_store_remove)

lemma guards_resolver_install:
  assumes v: "manifest_validator (r_validator R)" and apart: "base_catalog (r_store R) \<notin> store_tree (r_store R)"
    and replies: "replies_ok (r_transport R)" and cand: "json_ok cand"
  shows "guards (well_kept (r_validator R) (r_store R)) (resolver_install R token cand)"
  unfolding resolver_install_def install_locked_def
proof (rule guards_locked [OF apart], rule preserves_bind [OF preserves_returns [OF well_kept_area(2) [OF apart]]])
  show "touches {} (manifest_to_install R cand)" by (rule touches_manifest_to_install)
  show "returns (\<lambda>m. installs_from R cand m \<and> json_ok m) (manifest_to_install R cand)"
    by (rule manifest_to_install_returns [OF replies cand v])
  fix m assume "installs_from R cand m \<and> json_ok m"
  then show "guards (well_kept (r_validator R) (r_store R))
      (io_bind (install_manifest_atomic token (r_store R) m (JObj [(''installed_via'', jget cand ''source'')])) (\<lambda>res.
       io_bind (upsert_local (r_validator R) token (r_store R) m) (\<lambda>_.
       io_bind (copy_payload R cand (inst_ref res)) (\<lambda>_.
       io_return (JObj [(''installed'', JObj [(''id'', JStr (capability_id (inst_ref res))),
         (''version'', JStr (ref_version (inst_ref res)))])])))))"
    by (intro guards_rules manifest_validator.guards_upsert [OF v apart] well_kept_area(1) [OF apart] area_install area_copy_payload)
       simp
qed

section \<open>Onboarding\<close>

lemma guards_enable_connector:
  assumes v: "manifest_validator (o_validator M)" and apart: "base_catalog (o_store M) \<notin> store_tree (o_store M)"
    and base: "base_catalog (o_store M) \<noteq> []"
  shows "guards (well_kept (o_validator M) (o_store M)) (enable_connector M token cid h)"
  unfolding enable_connector_def Let_def
proof (rule preserves_bind [OF manifest_validator.merged_good [OF v base]])
  fix d
  let ?m = "case dget d cid of Some m \<Rightarrow> py_or m (JObj []) | None \<Rightarrow> JObj []"
  assume "cat_good (o_validator M) d"
  then have "json_ok ?m"
    using cat_good_get [of "o_validator M" d cid] by (auto simp: py_or_def entry_good_def split: option.split)
  then show "guards (well_kept (o_validator M) (o_store M))
      (if \<not> truthy ?m then io_raise (CapabilityPolicyError ''capability not found'')
       else io_bind (io_lift (bind_token h ?m)) (\<lambda>enabled. upsert_local (o_validator M) token (o_store M) enabled))"
    by (intro guards_if guards_silent guards_lift_bind manifest_validator.guards_upsert [OF v apart]) (rule bind_token_ok)
qed

lemma guards_exchange_case:
  "(\<And>e. guards J (f e)) \<Longrightarrow> (\<And>t. guards J (g t)) \<Longrightarrow> guards J (case x of Pending e \<Rightarrow> f e | Granted t \<Rightarrow> g t)"
  by (cases x) auto

context onboarding
begin

lemma guards_oauth_area:
  assumes "base_catalog (o_store M) \<notin> store_tree (o_store M)" and "touches (oauth_area (o_store M)) m"
  shows "guards (well_kept v (o_store M)) m"
  using assms local_not_in_oauth area_in_tree(2) by (blast intro: well_kept_off)

lemma area_start: "touches (oauth_area (o_store M)) (oauth_start M token sid cid princ)"
proof -
  have "touches (oauth_area (o_store M)) (open_session M token sid cid provider g)" for provider g
    unfolding open_session_def by (intro touches_rules put_area sessions_area)
  then show ?thesis
    unfolding oauth_start_def egress_request_def
    by (intro touches_rules) (auto intro!: touches_rules touches_mono [OF audit_frame])
qed

lemma guards_complete:
  assumes v: "manifest_validator (o_validator M)" and apart: "base_catalog (o_store M) \<notin> store_tree (o_store M)"
    and base: "base_catalog (o_store M) \<noteq> []"
  shows "guards (well_kept (o_validator M) (o_store M)) (oauth_complete M token sid princ)"
proof -
  note area = guards_oauth_area [OF apart]
  show ?thesis
    unfolding oauth_complete_def close_session_def Let_def
    by (intro guards_rules guards_exchange_case guards_enable_connector [OF v apart base] area sessions_area exchange_area
          put_area delete_area touches_rules touches_mono [OF audit_frame empty_subsetI])
qed

end

section \<open>Requests\<close>

text \<open>The body of an install request is JSON as a parser produces it: keys are distinct.\<close>

definition install_body_ok :: "route \<Rightarrow> bool" where
  "install_body_ok r = (case r of Install p \<Rightarrow> json_ok p | _ \<Rightarrow> True)"

lemma act_guards:
  assumes "guards J m" and "J (w_fs (sv_world s))"
  shows "steps_ok J (sv_world s) (sv_world (snd (counted n m s))) \<and> J (w_fs (sv_world (snd (counted n m s))))"
    and "steps_ok J (sv_world s) (sv_world (snd (timed n op us m s))) \<and> J (w_fs (sv_world (snd (timed n op us m s))))"
proof -
  obtain r w where m: "m (sv_world s) = (r, w)" by fastforce
  from preservesD [OF assms m] m
  show "steps_ok J (sv_world s) (sv_world (snd (counted n m s))) \<and> J (w_fs (sv_world (snd (counted n m s))))"
    "steps_ok J (sv_world s) (sv_world (snd (timed n op us m s))) \<and> J (w_fs (sv_world (snd (timed n op us m s))))"
    by (simp_all add: counted_def timed_def on_world_def metric_def observe_def)
qed

context application
begin

lemma guards_handled:
  "guards (well_kept v st) body \<Longrightarrow> guards (well_kept v st) (handled S rq user err body)"
  unfolding handled_def by (intro guards_rules well_kept_off [OF touches_emit [of "{}"]]) simp_all

lemma guards_emit: "guards (well_kept v st) (emit_for S rq user e)"
  by (rule well_kept_off [OF touches_emit [of "{}"]]) simp_all

lemma guards_ready:
  assumes "base_catalog (r_store (s_resolver S)) \<notin> store_tree (r_store (s_resolver S))"
  shows "guards (well_kept v (r_store (s_resolver S))) (ready S)"
proof -
  let ?st = "r_store (s_resolver S)"
  have mk: "touches (store_area ?st) (mkdir_p (base_dir ?st))"
    by (rule area_mkdir_p) (simp add: store_area_def is_prefix_iff)
  have probe: "guards (well_kept v ?st) m \<Longrightarrow> guards (well_kept v ?st) (probe k m)" for k m
    unfolding probe_def by (intro guards_rules)
  have "guards (well_kept v ?st) (probe_store S)" "guards (well_kept v ?st) (probe_schema S)"
    "guards (well_kept v ?st) (probe_catalog S)"
    unfolding probe_store_def probe_schema_def probe_catalog_def Let_def load_base_catalog_def
    by (intro probe guards_rules well_kept_area [OF assms] touches_lock [OF lock_area_in_area] mk touches_exists touches_load)+
  then show ?thesis
    unfolding ready_def by (intro guards_rules) (auto intro!: guards_rules split: prod.split)
qed

lemma guards_oauth:
  assumes v: "manifest_validator v" and apart: "base_catalog (r_store (s_resolver S)) \<notin> store_tree (r_store (s_resolver S))"
    and base: "base_catalog (r_store (s_resolver S)) \<noteq> []" and oauth: "\<And>M. s_oauth S = Inr M \<Longrightarrow> o_validator M = v"
  shows "guards (well_kept v (r_store (s_resolver S))) (do_oauth_start S rq user p)"
    and "guards (well_kept v (r_store (s_resolver S))) (do_oauth_complete S rq user p)"
proof -
  let ?J = "well_kept v (r_store (s_resolver S))"
  have "guards ?J (oauth_start M t i c u)" "guards ?J (oauth_complete M t i u)" if M: "s_oauth S = Inr M" for M t i c u
    using onboarding.guards_oauth_area [OF oauth_onboards [OF M] _ onboarding.area_start [OF oauth_onboards [OF M]]]
      onboarding.guards_complete [OF oauth_onboards [OF M]] v apart base oauth [OF M] oauth_store [OF M] by simp_all
  then show "guards ?J (do_oauth_start S rq user p)" "guards ?J (do_oauth_complete S rq user p)"
    unfolding do_oauth_start_def do_oauth_complete_def
    by (intro guards_lift_bind guards_handled; simp)+
qed

lemma guards_bodies:
  assumes v: "manifest_validator (r_validator (s_resolver S))"
    and apart: "base_catalog (r_store (s_resolver S)) \<notin> store_tree (r_store (s_resolver S))"
    and base: "base_catalog (r_store (s_resolver S)) \<noteq> []" and replies: "replies_ok (r_transport (s_resolver S))"
  shows "json_ok p \<Longrightarrow> guards (well_kept (r_validator (s_resolver S)) (r_store (s_resolver S))) (do_install S rq user p)"
    and "guards (well_kept (r_validator (s_resolver S)) (r_store (s_resolver S))) (do_remove S rq user c ver)"
    and "guards (well_kept (r_validator (s_resolver S)) (r_store (s_resolver S))) (do_factory_reset S rq user)"
  unfolding do_install_def do_remove_def do_factory_reset_def Let_def
  by (intro guards_handled guards_rules guards_emit guards_resolver_install [OF v apart replies] json_ok_jget
        guards_resolver_remove [OF v apart base] guards_locked [OF apart] guards_factory_reset [OF apart]; assumption)+

lemma handle_guards:
  assumes v: "manifest_validator (r_validator (s_resolver S))"
    and apart: "base_catalog (r_store (s_resolver S)) \<notin> store_tree (r_store (s_resolver S))"
    and base: "base_catalog (r_store (s_resolver S)) \<noteq> []" and replies: "replies_ok (r_transport (s_resolver S))"
    and oauth: "\<And>M. s_oauth S = Inr M \<Longrightarrow> o_validator M = r_validator (s_resolver S)"
    and runs: "runtime_touches A (r_runtime (s_resolver S))"
    and off: "local_catalog (r_store (s_resolver S)) \<notin> A" "base_catalog (r_store (s_resolver S)) \<notin> A"
    and body: "install_body_ok r"
    and kept: "well_kept (r_validator (s_resolver S)) (r_store (s_resolver S)) (w_fs (sv_world s))"
  shows "steps_ok (well_kept (r_validator (s_resolver S)) (r_store (s_resolver S))) (sv_world s)
       (sv_world (snd (handle S rq user us r s)))
     \<and> well_kept (r_validator (s_resolver S)) (r_store (s_resolver S)) (w_fs (sv_world (snd (handle S rq user us r s))))"
proof -
  let ?st = "r_store (s_resolver S)"
  have area: "lock_area ?st \<subseteq> store_area ?st" by (rule lock_area_in_area)
  have lock: "local_catalog ?st \<notin> lock_area ?st" "base_catalog ?st \<notin> lock_area ?st"
    using local_off_lock apart lock_in_tree by (auto simp: lock_area_def)
  note read = well_kept_area(1) [OF apart]
  note acts = act_guards [where J = "well_kept (r_validator (s_resolver S)) (r_store (s_resolver S))", OF _ kept]
  show ?thesis
    using body
    by (cases r)
       (simp_all add: install_body_ok_def acts guards_bodies [OF v apart base replies] guards_oauth [OF v apart base oauth]
          guards_ready [OF apart] well_kept_off [OF run_touches [OF runs]] off lock read [OF bodies_touch(1) [OF area]]
          read [OF bodies_touch(2) [OF area]] read [OF bodies_touch(3) [OF area]] read [OF bodies_touch(4) [OF area]]
          health_def version_info_def guards_silent metrics_def metric_def Let_def kept)
qed

end

section \<open>The catalogs, always\<close>

text \<open>
  What the theorems about sequences of requests ask of each request: the validator and the
  store are those of the deployment, an HTTP answer is well formed, and the programs that commands start and the
  callables of modules that are not of this repository change only what is in \<open>A\<close>.
\<close>

definition regular ::
    "path set \<Rightarrow> validator \<Rightarrow> capability_store \<Rightarrow> service_config \<Rightarrow> outside \<times> web_request \<times> flt \<times> route \<Rightarrow> bool" where
  "regular A v st config q = (case q of (X, rq, us, r) \<Rightarrow>
     x_validator X = v \<and> replies_ok (x_transport X) \<and> store_at X (cfg_base_dir config) = st \<and> install_body_ok r
     \<and> runtime_touches A (x_runtime X))"

abbreviation (input) requests_on ::
    "host \<Rightarrow> (outside \<times> web_request \<times> flt \<times> route) list \<Rightarrow> (outside \<times> web_request \<times> flt \<times> route) list" where
  "requests_on H rs \<equiv> map (\<lambda>(X, q). (deployed H X, q)) rs"

lemma app_fields:
  assumes "regular A v st config (X, rq, us, r)"
  shows "r_validator (s_resolver (app_with (deployed H X) config eg)) = v"
    and "r_store (s_resolver (app_with (deployed H X) config eg)) = st"
    and "r_transport (s_resolver (app_with (deployed H X) config eg)) = x_transport X"
    and "base_catalog st \<noteq> []"
  using assms by (auto simp: regular_def deployed_def app_with_def Let_def resolver_with_def store_at_def base_catalog_def)

lemma serve_guards:
  assumes "manifest_validator v" and "base_catalog st \<notin> store_tree st"
    and "local_catalog st \<notin> write_area H \<union> A" and "base_catalog st \<notin> write_area H \<union> A"
    and "list_all (regular A v st config) rs" and "well_kept v st (w_fs (sv_world s))"
  shows "steps_ok (well_kept v st) (sv_world s) (sv_world (serve config eg (requests_on H rs) s))
    \<and> well_kept v st (w_fs (sv_world (serve config eg (requests_on H rs) s)))"
  using assms(5,6)
proof (induction rs arbitrary: s)
  case (Cons x rs)
  obtain X rq us r where x: "x = (X, rq, us, r)" by (cases x)
  let ?S = "app_with (deployed H X) config eg"
  let ?s = "snd (dispatch ?S rq us r s)"
  from Cons.prems(1) x have reg: "regular A v st config (X, rq, us, r)" by simp
  then have X: "x_validator X = v" "replies_ok (x_transport X)" "install_body_ok r" "runtime_touches A (x_runtime X)" by (simp_all add: regular_def)
  have fields: "r_validator (s_resolver ?S) = v" "r_store (s_resolver ?S) = st" "r_transport (s_resolver ?S) = x_transport X"
    by (rule app_fields [OF reg])+
  have runs: "runtime_touches (write_area H \<union> A) (r_runtime (s_resolver ?S))"
    unfolding deployed_runtime by (rule seed_touches [OF X(4)])
  have oauth: "o_validator M = v" if "s_oauth ?S = Inr M" for M
    using that X(1) by (elim app_oauth) (simp add: manager_with_def deployed_def)
  have "steps_ok (well_kept v st) (sv_world s) (sv_world ?s) \<and> well_kept v st (w_fs (sv_world ?s))"
    using app.handle_guards [where X = "deployed H X" and config = config and eg = eg, unfolded fields,
        OF assms(1,2) app_fields(4) [OF reg] X(2) oauth runs assms(3,4) X(3) Cons.prems(2)] Cons.prems(2)
    by (auto simp: dispatch_def split: sum.split)
  with Cons.IH [of ?s] Cons.prems(1) x show ?case by (auto intro: steps_ok_trans)
qed simp

text \<open>
  C4: the catalogs stay well kept for as long as the service runs: whatever requests it
  serves, by whomever, with whatever answers of the network, whatever file operations fail
  and wherever the process stops, the local catalog on disk can be loaded, and what it holds
  are valid manifests, each once, under its own identifier. This asks that the shipped
  catalog lies outside the directory of the store, that fs_write may write neither
  catalog, and that neither is changed by a program that a command starts or by a callable
  of another module: those change only what is in A, and the catalogs are not. Nothing in
  the code enforces the last two, and by default fs_write may write the directory of the store.
\<close>

theorem catalogs_stay_well_kept:
  assumes "manifest_validator v" and "base_catalog st \<notin> store_tree st"
    and "local_catalog st \<notin> write_area H \<union> A" and "base_catalog st \<notin> write_area H \<union> A"
    and "list_all (regular A v st config) rs" and "well_kept v st (w_fs (sv_world s))"
  shows "steps_ok (well_kept v st) (sv_world s) (sv_world (serve config eg (requests_on H rs) s))
    \<and> well_kept v st (w_fs (sv_world (serve config eg (requests_on H rs) s)))"
  by (rule serve_guards [OF assms])

text \<open>
  A deployment whose fs_write may write nothing (by default it may write the directory of
  the store, and then nothing above holds).
\<close>

definition closed_host :: host where
  "closed_host = sample_host\<lparr>h_env := (\<lambda>k. if k = ''UNISON_CAPABILITY_FS_WRITE_ALLOW'' then Some [] else None)\<rparr>"

definition sample_requests :: "(outside \<times> web_request \<times> flt \<times> route) list" where
  "sample_requests =
     [(sample_outside, local_client, Dec 5 (- 3), Install (JObj [(''candidate'', sample_request)])),
      (sample_outside, local_client, Dec 5 (- 3), Remove ''demo.echo'' ''0.1.0''),
      (sample_outside, local_client, Dec 5 (- 3), FactoryReset)]"

lemma closed_host_writes_nothing: "write_area closed_host = {}"
proof -
  have "filter (\<lambda>r. r \<noteq> []) (map str_strip (split_on (CHR '','') [])) = []" by code_simp
  then show ?thesis
    by (simp add: write_area_def ensure_allowed_def ensure_under_roots_def allowed_roots_def closed_host_def getenv_def
        split_paths_def is_ok_iff result_simps del: split_on.simps)
qed

lemma sample_regular:
  "list_all (regular {} reference_errors (store_at sample_outside ''/var'') sample_config) sample_requests"
proof -
  have "json_ok (JObj [(''candidate'', sample_request)])" by code_simp
  with sample_replies show ?thesis
    by (simp add: sample_requests_def regular_def install_body_ok_def sample_config_def sample_runtime_quiet)
       (simp add: sample_outside_def)
qed

lemma sample_apart:
  "base_catalog (store_at sample_outside ''/var'') \<notin> store_tree (store_at sample_outside ''/var'')"
  by (simp add: store_tree_def) code_simp

lemma sample_kept: "well_kept reference_errors (store_at sample_outside ''/var'') (w_fs (sv_world sample_process))"
  by code_simp

lemma catalogs_stay_well_kept_witness:
  "let s' = serve sample_config sample_egress (requests_on closed_host sample_requests) sample_process;
       st = store_at sample_outside ''/var'' in
   steps_ok (well_kept reference_errors st) sample_world (sv_world s') \<and> well_kept reference_errors st (w_fs (sv_world s'))"
  using catalogs_stay_well_kept [OF reference.manifest_validator_axioms sample_apart _ _ sample_regular sample_kept,
      of closed_host]
  by (simp add: Let_def closed_host_writes_nothing sample_process_def)

end
