(* ===== verification/Answers.thy ===== *)
theory Answers
  imports System_Laws
begin

text \<open>
  The types of what the service answers: a small type system for JSON, the type of the
  answer of each route of src/server.py, and that every answer has the type of its route as
  long as the catalogs are well kept.
\<close>

section \<open>Types of JSON values\<close>

text \<open>An object type names the required and the optional keys; other keys are not allowed.\<close>

datatype jtype =
    AnyT | BoolT | StrT | IntT | FloatT | ManifestT
  | ListT jtype
  | ObjT "(string \<times> jtype) list" "(string \<times> jtype) list"

fun has_type :: "validator \<Rightarrow> json \<Rightarrow> jtype \<Rightarrow> bool" where
  "has_type v j AnyT = True"
| "has_type v j BoolT = is_bool j"
| "has_type v j StrT = is_str j"
| "has_type v j IntT = (case j of JInt i \<Rightarrow> True | _ \<Rightarrow> False)"
| "has_type v j FloatT = (case j of JFloat f \<Rightarrow> True | _ \<Rightarrow> False)"
| "has_type v j ManifestT = (is_dict j \<and> v j = [])"
| "has_type v j (ListT t) = (is_list j \<and> list_all (\<lambda>x. has_type v x t) (items j))"
| "has_type v j (ObjT req opt) =
     (closed_obj (map fst req) (map fst req @ map fst opt) j
      \<and> list_all (\<lambda>p. has_type v (jget j (fst p)) (snd p)) req
      \<and> list_all (\<lambda>p. has_key j (fst p) \<longrightarrow> has_type v (jget j (fst p)) (snd p)) opt)"

text \<open>The types of the routes.\<close>

definition candidate_type :: jtype where
  "candidate_type = ObjT
     [(''candidate_id'', StrT), (''source'', StrT), (''score'', FloatT), (''manifest'', ManifestT)]
     [(''manifest_url'', StrT)]"

definition summary_type :: jtype where
  "summary_type = ObjT
     [(''id'', StrT), (''version'', StrT), (''type'', StrT), (''description'', StrT), (''trust_level'', StrT),
      (''enabled'', BoolT), (''requires_oauth'', BoolT)] []"

fun answer_type :: "route \<Rightarrow> jtype" where
  "answer_type Health = ObjT [(''status'', StrT), (''service'', StrT)] []"
| "answer_type Ready = ObjT [(''ready'', BoolT)]
     [(''store_dir'', StrT), (''store_error'', StrT), (''schema'', StrT), (''schema_error'', StrT),
      (''base_catalog'', StrT), (''base_catalog_error'', StrT)]"
| "answer_type Version = ObjT [(''service'', StrT), (''version'', StrT), (''schema_version'', StrT)] []"
| "answer_type Metrics = StrT"
| "answer_type (Search p) = ObjT [(''candidates'', ListT candidate_type)] []"
| "answer_type (Resolve p) = ObjT [(''candidate'', candidate_type)] []"
| "answer_type (Install p) = ObjT [(''installed'', ObjT [(''id'', StrT), (''version'', StrT)] [])] []"
| "answer_type (RunCapability p) = ObjT [(''result'', AnyT)] []"
| "answer_type ListAll = ObjT [(''items'', ListT summary_type)] []"
| "answer_type (GetOne c v) = ObjT [(''manifest'', ManifestT)] []"
| "answer_type (Remove c v) = ObjT [(''removed'', BoolT)] []"
| "answer_type (OauthStart p) = ObjT
     [(''session_id'', StrT), (''provider'', StrT), (''user_code'', AnyT), (''verification_uri'', AnyT),
      (''expires_in'', IntT), (''interval'', IntT), (''message'', AnyT)] []"
| "answer_type (OauthComplete p) = ObjT [(''status'', StrT)]
     [(''error'', StrT), (''interval'', IntT), (''capability_id'', StrT)]"
| "answer_type FactoryReset = ObjT [(''status'', StrT)] []"

section \<open>Operations whose results have a type\<close>

text \<open>What an operation returns when it starts in files that satisfy an invariant.\<close>

definition yields :: "(fs \<Rightarrow> bool) \<Rightarrow> ('a \<Rightarrow> bool) \<Rightarrow> 'a io \<Rightarrow> bool" where
  "yields J Q m \<longleftrightarrow> (\<forall>w a w'. J (w_fs w) \<longrightarrow> m w = (Inr a, w') \<longrightarrow> Q a)"

lemma yields_returns: "returns Q m \<Longrightarrow> yields J Q m"
  by (auto simp: yields_def dest: returnsD)

lemma yields_preserves: "preserves J Q m \<Longrightarrow> yields J Q m"
  by (fastforce simp: yields_def preserves_def dest: tripleD)

lemma yields_bind: "preserves J Q m \<Longrightarrow> (\<And>a. Q a \<Longrightarrow> yields J R (f a)) \<Longrightarrow> yields J R (io_bind m f)"
  unfolding yields_def preserves_def io_bind_def
  by (fastforce dest: tripleD split: prod.splits sum.splits)

lemma yields_return: "Q a \<Longrightarrow> yields J Q (io_return a)"
  by (rule yields_returns) (rule returns_return)

lemma yields_raise: "yields J Q (io_raise e)"
  by (rule yields_returns) (rule returns_raise)

lemma yields_if: "(b \<Longrightarrow> yields J Q m) \<Longrightarrow> (\<not> b \<Longrightarrow> yields J Q n) \<Longrightarrow> yields J Q (if b then m else n)"
  by simp

lemma yields_handled: "yields J Q body \<Longrightarrow> yields J Q (handled S rq user err body)"
  unfolding yields_def handled_def io_try_def io_bind_def io_lift_def io_raise_def
  by (fastforce split: prod.splits sum.splits)

lemma preserves_locked:
  assumes "base_catalog (r_store R) \<notin> store_tree (r_store R)" and "preserves (well_kept v (r_store R)) Q m"
  shows "preserves (well_kept v (r_store R)) Q (with_lock (store_lock R) m)"
  unfolding with_lock_def store_lock_def
  by (rule preserves_bind [OF well_kept_area(1) [OF assms(1) touches_lock [OF lock_area_in_area]] assms(2)])

lemma yields_locked:
  assumes "base_catalog (r_store R) \<notin> store_tree (r_store R)" and "yields (well_kept v (r_store R)) Q m"
  shows "yields (well_kept v (r_store R)) Q (with_lock (store_lock R) m)"
  unfolding with_lock_def store_lock_def
  by (rule yields_bind [OF well_kept_area(1) [OF assms(1) touches_lock [OF lock_area_in_area]] assms(2)])

lemma yields_bind_any: "(\<And>a. yields (\<lambda>_. True) Q (f a)) \<Longrightarrow> yields J Q (io_bind m f)"
  unfolding yields_def io_bind_def by (fastforce split: prod.splits sum.splits)

section \<open>The answers of the components\<close>

lemmas obj_simps = closed_obj_def req_keys_def only_keys_def has_key_def jget_def get_or_def

text \<open>A candidate with a valid manifest.\<close>

definition sound_candidate :: "validator \<Rightarrow> candidate \<Rightarrow> bool" where
  "sound_candidate v c \<longleftrightarrow> is_dict (cand_manifest c) \<and> v (cand_manifest c) = []"

lemma candidate_json_typed: "sound_candidate v c \<Longrightarrow> has_type v (candidate_json c) candidate_type"
  by (simp add: candidate_json_def candidate_type_def obj_simps sound_candidate_def split: option.split)

lemma yields_any: "yields J (\<lambda>_. True) m"
  by (rule yields_returns) (rule returns_any)

context manifest_validator
begin

lemma conforming_opt:
  assumes "schema_conforms m" and "k \<in> set manifest_required" and "opt_key k P m"
  shows "P (jget m k)"
  using opt_keyD [OF assms(3) conforms_required [OF assms(1,2)]] .

lemma flag_typed: "opt_key k is_bool m \<Longrightarrow> is_bool (get_or m k (JBool b))"
  by (auto simp: opt_key_def get_or_def split: option.splits)

lemma summary_typed:
  assumes "iter_errors m = []"
  shows "has_type iter_errors (summary m) summary_type"
proof -
  have m: "schema_conforms m" using assms by (simp add: exact)
  have texts: "is_str (jget m ''id'')" "is_str (jget m ''version'')" "is_str (jget m ''trust_level'')"
    using conforms_id [OF m] conforms_version [OF m] conforms_trust [OF m] by auto
  moreover have "is_str (jget m ''type'')"
  proof -
    have "str_enum [''tool'', ''mcp_server'', ''skill_pack'', ''a2a_peer'', ''agent_workflow''] (jget m ''type'')"
      by (rule conforming_opt [OF m]) (use m in \<open>simp_all add: schema_conforms_def manifest_required_def\<close>)
    then show ?thesis by (cases "jget m ''type''") (simp_all add: str_enum_def)
  qed
  moreover have "is_str (jget m ''description'')"
  proof -
    have "nonempty_str (jget m ''description'')"
      by (rule conforming_opt [OF m]) (use m in \<open>simp_all add: schema_conforms_def manifest_required_def\<close>)
    then show ?thesis by (simp add: nonempty_str_def)
  qed
  moreover have "is_bool (get_or m ''enabled'' (JBool True))" "is_bool (get_or m ''requires_oauth'' (JBool False))"
    using m by (auto simp: schema_conforms_def intro: flag_typed)
  ultimately show ?thesis
    by (simp add: summary_def summary_type_def closed_obj_def req_keys_def only_keys_def has_key_def)
       (simp add: jget_def [of "JObj _"] get_or_def [of "JObj _"])
qed

lemma list_typed:
  assumes "base_catalog (r_store R) \<noteq> []" and "base_catalog (r_store R) \<notin> store_tree (r_store R)" and "r_validator R = iter_errors"
  shows "yields (well_kept iter_errors (r_store R)) (list_all (\<lambda>j. has_type iter_errors j summary_type)) (resolver_list R)"
  unfolding resolver_list_def list_locked_def assms(3)
  by (rule yields_locked [OF assms(2)], rule yields_bind [OF merged_good [OF assms(1)]], rule yields_return)
     (fastforce simp: list_all_iff cat_good_def entry_good_def intro!: summary_typed)

lemma get_typed:
  assumes "base_catalog (r_store R) \<noteq> []" and "base_catalog (r_store R) \<notin> store_tree (r_store R)" and "r_validator R = iter_errors"
  shows "yields (well_kept iter_errors (r_store R)) (\<lambda>m. has_type iter_errors m ManifestT) (resolver_get R k ver)"
  unfolding resolver_get_def get_locked_def assms(3)
proof (rule yields_locked [OF assms(2)], rule yields_bind [OF merged_good [OF assms(1)]])
  fix d assume "cat_good iter_errors d"
  then have "dget d k = Some m \<Longrightarrow> has_type iter_errors m ManifestT" for m
    by (auto dest!: cat_good_get simp: entry_good_def)
  then show "yields (well_kept iter_errors (r_store R)) (\<lambda>m. has_type iter_errors m ManifestT)
     (case dget d k of None \<Rightarrow> io_raise (CapabilityNotFoundError (''capability not found: '' @ k))
      | Some m \<Rightarrow> (case ver of Some w \<Rightarrow> if w \<noteq> [] \<and> py_str (jget m ''version'') \<noteq> w
          then io_raise (CapabilityNotFoundError (''capability version not found: '' @ k @ ''@'' @ w)) else io_return m
        | None \<Rightarrow> io_return m))"
    by (auto intro!: yields_return yields_raise split: option.split)
qed

lemma search_typed:
  assumes "base_catalog (r_store R) \<noteq> []" and "base_catalog (r_store R) \<notin> store_tree (r_store R)" and "r_validator R = iter_errors"
    and lists: "\<forall>a \<in> set (r_adapters R). \<forall>q. returns (list_all (sound_candidate iter_errors)) (a q)"
  shows "yields (well_kept iter_errors (r_store R)) (list_all (sound_candidate iter_errors)) (resolver_search R i c)"
proof -
  have ask: "returns (list_all (sound_candidate iter_errors)) (ask_adapters as q)" if "set as \<subseteq> set (r_adapters R)" for as q
    using that
  proof (induction as)
    case (Cons a as)
    have a: "returns (list_all (sound_candidate iter_errors)) (io_try (a q) (\<lambda>_. io_return []))"
      using Cons.prems lists by (intro returns_try returns_return) simp_all
    have "set as \<subseteq> set (r_adapters R)" using Cons.prems by simp
    note as = Cons.IH [OF this]
    show ?case
      by (simp, rule returns_bind [OF a], rule returns_bind [OF as], rule returns_return) simp
  qed (simp add: returns_return)
  show ?thesis
    unfolding resolver_search_def assms(3)
  proof (rule yields_bind [OF preserves_locked [OF assms(2) merged_good [OF assms(1)]]], rule yields_returns, rule returns_bind [OF ask [OF order_refl]])
    fix d more assume "cat_good iter_errors d" and more: "list_all (sound_candidate iter_errors) more"
    then have own: "list_all (sound_candidate iter_errors) (map (\<lambda>(k, m). catalog_candidate (r_sha R) i m) d)"
      by (auto simp: list_all_iff cat_good_def entry_good_def catalog_candidate_def make_candidate_def sound_candidate_def Let_def)
    have "list_all P (trust_filter c cs)" if "list_all P cs" for P cs
      using that by (auto simp: trust_filter_def Let_def list_all_iff)
    with own more show "returns (list_all (sound_candidate iter_errors))
      (io_return (by_score (trust_filter c (map (\<lambda>(k, m). catalog_candidate (r_sha R) i m) d @ more))))"
      by (intro returns_return) (simp add: list_all_by_score)
  qed
qed

end

lemma first_allowed_mem: "first_allowed pol cs = Some c \<Longrightarrow> c \<in> set cs"
  by (induction cs) (auto split: if_splits)

lemma resolve_typed:
  assumes "\<And>i c. yields J (list_all (sound_candidate v)) (resolver_search R i c)"
  shows "yields J (sound_candidate v) (resolver_resolve R step)"
proof -
  have bind: "yields J Q (io_bind m f)" if "yields J P m" "\<And>a. P a \<Longrightarrow> returns Q (f a)" for J and m :: "'a io" and P and f :: "'a \<Rightarrow> 'b io" and Q
    using that unfolding yields_def io_bind_def by (fastforce dest: returnsD split: prod.splits sum.splits)
  show ?thesis
    unfolding resolver_resolve_def Let_def
    by (intro yields_if yields_raise bind [OF assms])
       (auto simp: list_all_iff dest!: first_allowed_mem intro!: returns_rules split: option.split)
qed

section \<open>The answers of the handlers\<close>

lemma yields_then: "yields J P m \<Longrightarrow> (\<And>a. P a \<Longrightarrow> Q (f a)) \<Longrightarrow> yields J Q (io_bind m (\<lambda>a. io_return (f a)))"
  unfolding yields_def io_bind_def io_return_def by (fastforce split: prod.splits sum.splits)

lemma yields_lift_bind: "(\<And>a. r = Inr a \<Longrightarrow> yields J Q (f a)) \<Longrightarrow> yields J Q (io_bind (io_lift r) f)"
  by (cases r) (auto intro: yields_raise)

lemma object_types:
  "has_type v (JObj [(''candidates'', JArr (map candidate_json cs))]) (answer_type (Search p))
     = list_all (\<lambda>c. has_type v (candidate_json c) candidate_type) cs"
  "has_type v (JObj [(''candidate'', candidate_json c)]) (answer_type (Resolve p)) = has_type v (candidate_json c) candidate_type"
  "has_type v (JObj [(''items'', JArr js)]) (answer_type ListAll) = list_all (\<lambda>j. has_type v j summary_type) js"
  "has_type v (JObj [(''manifest'', m)]) (answer_type (GetOne k ver)) = has_type v m ManifestT"
  "has_type v (JObj [(''result'', m)]) (answer_type (RunCapability p))"
  "has_type v (JObj [(''removed'', JBool b)]) (answer_type (Remove k w))"
  "has_type v (JObj [(''status'', JStr x)]) (answer_type FactoryReset)"
  "has_type v (JObj [(''installed'', JObj [(''id'', JStr x), (''version'', JStr y)])]) (answer_type (Install p))"
  "has_type v (JObj [(''status'', JStr x), (''error'', JStr y), (''interval'', JInt i)]) (answer_type (OauthComplete p))"
  "has_type v (JObj [(''status'', JStr x), (''capability_id'', JStr y)]) (answer_type (OauthComplete p))"
  by (simp_all add: obj_simps list_all_iff)

text \<open>The routes whose answer does not depend on the catalogs.\<close>

lemma plain_answers:
  "yields J (\<lambda>j. has_type v j (answer_type (Install p))) (do_install S rq user p)"
  "yields J (\<lambda>j. has_type v j (answer_type (RunCapability p))) (do_run S rq user p)"
  "yields J (\<lambda>j. has_type v j (answer_type (Remove k w))) (do_remove S rq user k w)"
  "yields J (\<lambda>j. has_type v j (answer_type FactoryReset)) (do_factory_reset S rq user)"
  "yields J (\<lambda>j. has_type v j (answer_type (OauthStart p))) (do_oauth_start S rq user p)"
  unfolding do_install_def do_run_def do_remove_def do_factory_reset_def do_oauth_start_def resolver_install_def install_locked_def with_lock_def
    oauth_start_def open_session_def Let_def case_prod_unfold
  by (intro yields_handled yields_if yields_raise yields_bind_any yields_return; simp add: obj_simps)+

lemma complete_answers: "yields J (\<lambda>j. has_type v j (answer_type (OauthComplete p))) (do_oauth_complete S rq user p)"
proof -
  have out: "yields J (\<lambda>j. has_type v j (answer_type (OauthComplete p)))
      (case x of Pending e \<Rightarrow> io_bind (io_lift (n e)) (\<lambda>i. io_return (JObj [(''status'', JStr ''pending''), (''error'', JStr e), (''interval'', JInt i)]))
       | Granted t \<Rightarrow> io_bind (a t) (\<lambda>_. io_bind (b t) (\<lambda>_. io_bind c (\<lambda>_. io_bind d (\<lambda>_.
           io_return (JObj [(''status'', JStr ''enabled''), (''capability_id'', JStr i)]))))))"
    for J x n a b c d i
    by (cases x) (simp_all only: exchange.case; intro yields_bind_any yields_return; rule object_types)+
  show ?thesis
    unfolding do_oauth_complete_def oauth_complete_def Let_def
    by (intro yields_bind_any yields_handled out)
qed

lemma ready_answers: "yields J (\<lambda>j. has_type v j (answer_type Ready)) (ready S)"
proof -
  let ?ok = "\<lambda>k e. \<lambda>(b :: bool, d :: json dict). \<exists>t. d = [(k, JStr t)] \<or> d = [(e, JStr t)]"
  have "returns (?ok ''store_dir'' ''store_error'') (probe_store S)"
    "returns (?ok ''schema'' ''schema_error'') (probe_schema S)"
    "returns (?ok ''base_catalog'' ''base_catalog_error'') (probe_catalog S)"
    unfolding probe_store_def probe_schema_def probe_catalog_def probe_def Let_def
    by (intro returns_try returns_bind [OF returns_any] returns_if returns_return; auto)+
  note probes = this
  show ?thesis
    unfolding ready_def
  proof (rule yields_returns, rule returns_bind [OF probes(1)], unfold case_prod_unfold, rule returns_bind [OF probes(2)],
      unfold case_prod_unfold, rule returns_bind [OF probes(3)], unfold case_prod_unfold, rule returns_return)
    fix a b c :: "bool \<times> json dict"
    assume "\<exists>t. snd a = [(''store_dir'', JStr t)] \<or> snd a = [(''store_error'', JStr t)]"
      and "\<exists>t. snd b = [(''schema'', JStr t)] \<or> snd b = [(''schema_error'', JStr t)]"
      and "\<exists>t. snd c = [(''base_catalog'', JStr t)] \<or> snd c = [(''base_catalog_error'', JStr t)]"
    then show "has_type v (JObj ((''ready'', JBool (fst a \<and> fst b \<and> fst c)) # snd a @ snd b @ snd c)) (answer_type Ready)"
      by (elim exE disjE) (simp_all add: obj_simps)
  qed
qed

lemma act_yields:
  assumes "yields J Q m" and "J (w_fs (sv_world s))"
  shows "counted n m s = (Inr j, s') \<Longrightarrow> Q j" "timed n op us m s = (Inr j, s') \<Longrightarrow> Q j"
  using assms
  by (auto simp: counted_def timed_def on_world_def metric_def yields_def split: prod.splits)

context application
begin

lemma reading_answers:
  assumes v: "manifest_validator v" and base: "base_catalog st \<noteq> []" and apart: "base_catalog st \<notin> store_tree st"
    and R: "r_store (s_resolver S) = st" "r_validator (s_resolver S) = v"
    and lists: "\<forall>a \<in> set (r_adapters (s_resolver S)). \<forall>q. returns (list_all (sound_candidate v)) (a q)"
  shows "yields (well_kept v st) (\<lambda>j. has_type v j (answer_type (Search p))) (do_search S rq user p)"
    and "yields (well_kept v st) (\<lambda>j. has_type v j (answer_type (Resolve p))) (do_resolve S rq user p)"
    and "yields (well_kept v st) (\<lambda>j. has_type v j (answer_type ListAll)) (do_list S rq user)"
    and "yields (well_kept v st) (\<lambda>j. has_type v j (answer_type (GetOne k w))) (do_get S rq user k w)"
proof -
  note st = base [folded R(1)] apart [folded R(1)]
  note search = manifest_validator.search_typed [where R = "s_resolver S", OF v st R(2) lists, unfolded R(1)]
  note emit = yields_bind [OF guards_emit]
  have guarded: "guards (well_kept v st) (if b then io_return () else emit_for S rq user e)" for b e
    by (intro guards_rules guards_emit)
  have "yields (well_kept v st) (\<lambda>j. has_type v j (answer_type (Search p)))
      (io_bind (resolver_search (s_resolver S) i c) (\<lambda>cs. io_return (JObj [(''candidates'', JArr (map candidate_json cs))])))" for i c
    by (rule yields_then [OF search]) (auto simp: object_types list_all_iff intro: candidate_json_typed simp del: has_type.simps answer_type.simps)
  then show "yields (well_kept v st) (\<lambda>j. has_type v j (answer_type (Search p))) (do_search S rq user p)"
    unfolding do_search_def Let_def
    by (intro yields_handled yields_if yields_raise yields_bind [OF guarded] emit)
  have "yields (well_kept v st) (\<lambda>j. has_type v j (answer_type (Resolve p)))
      (io_bind (resolver_resolve (s_resolver S) step) (\<lambda>c. io_return (JObj [(''candidate'', candidate_json c)])))" for step
    by (rule yields_then [OF resolve_typed [OF search]])
       (simp add: object_types candidate_json_typed del: has_type.simps answer_type.simps)
  then show "yields (well_kept v st) (\<lambda>j. has_type v j (answer_type (Resolve p))) (do_resolve S rq user p)"
    unfolding do_resolve_def Let_def by (intro yields_handled yields_if yields_raise emit)
  have "yields (well_kept v st) (\<lambda>j. has_type v j (answer_type ListAll))
      (io_bind (resolver_list (s_resolver S)) (\<lambda>js. io_return (JObj [(''items'', JArr js)])))"
    by (rule yields_then [OF manifest_validator.list_typed [where R = "s_resolver S", OF v st R(2), unfolded R(1)]])
       (simp add: object_types del: has_type.simps answer_type.simps)
  then show "yields (well_kept v st) (\<lambda>j. has_type v j (answer_type ListAll)) (do_list S rq user)"
    unfolding do_list_def by (intro yields_handled emit)
  have "yields (well_kept v st) (\<lambda>j. has_type v j (answer_type (GetOne k w)))
      (io_bind (resolver_get (s_resolver S) k w) (\<lambda>m. io_return (JObj [(''manifest'', m)])))"
    by (rule yields_then [OF manifest_validator.get_typed [where R = "s_resolver S", OF v st R(2), unfolded R(1)]])
       (simp add: object_types del: has_type.simps answer_type.simps)
  then show "yields (well_kept v st) (\<lambda>j. has_type v j (answer_type (GetOne k w))) (do_get S rq user k w)"
    unfolding do_get_def by (intro yields_handled emit)
qed

lemma handle_typed:
  assumes "manifest_validator v" and "base_catalog st \<noteq> []" and "base_catalog st \<notin> store_tree st"
    and "r_store (s_resolver S) = st" "r_validator (s_resolver S) = v"
    and "\<forall>a \<in> set (r_adapters (s_resolver S)). \<forall>q. returns (list_all (sound_candidate v)) (a q)"
    and kept: "well_kept v st (w_fs (sv_world s))" and run: "handle S rq user us r s = (Inr j, s')"
  shows "has_type v j (answer_type r)"
proof -
  note reading = reading_answers [OF assms(1-6)]
  note acts = act_yields [where J = "well_kept v st", OF _ kept]
  have "yields (well_kept v st) (\<lambda>j. has_type v j (answer_type Health)) (health S)"
    "yields (well_kept v st) (\<lambda>j. has_type v j (answer_type Version)) (version_info S)"
    unfolding health_def version_info_def by (rule yields_return, simp add: obj_simps)+
  with run show ?thesis
    by (cases r; simp only: handle.simps)
       (erule acts [rotated], (rule reading plain_answers complete_answers ready_answers | assumption)
        | simp add: metrics_def Let_def; auto)+
qed

end

lemma registries_sound:
  assumes v: "manifest_validator (x_validator X)" and a: "a \<in> set (registries_for X eg rc)"
  shows "returns (list_all (sound_candidate (x_validator X))) (a q)"
proof -
  have mono: "returns Q m" if "returns (\<lambda>cs. list_all P cs \<and> ranked cs) m" "\<And>cs. list_all P cs \<Longrightarrow> Q cs"
    for P Q and m :: "candidate list io"
    using that unfolding returns_def by (fastforce split: sum.splits)
  have sound: "list_all (sound_candidate (x_validator X)) cs"
    if "list_all (adapter_candidate (x_sha X) (x_validator X) n) cs" for n cs
    using that by (auto simp: list_all_iff adapter_candidate_def sound_candidate_def manifest_validator.exact [OF v] conforms_dict)
  from a show ?thesis
  proof (cases rule: registries_for_cases)
    case (1 p)
    show ?thesis unfolding 1 by (rule mono [OF static_list_good sound])
  next
    case (2 us)
    show ?thesis unfolding 2 by (rule mono [OF http_list_good sound])
  next
    case (3 u)
    show ?thesis unfolding 3 by (rule mono [OF mcp_list_good sound])
  qed
qed

section \<open>Properties\<close>

text \<open>
  C11: every answer of the service has the type of its route: after any sequence of requests,
  with any answers of the network and any failures of file operations, the answer to the
  next request is either an error or a JSON object with exactly the keys of that route, each
  of its type; the metrics are answered as a text. Every candidate and every manifest in an
  answer passed validation, and every entry of the list shows texts and flags. This is so
  as long as the catalogs stay well kept, and so under the same assumptions: they are at
  first, the shipped catalog lies outside the directory of the store, and neither catalog is
  among the files that fs_write may write or that the programs of commands and the
  callables of other modules change.
\<close>

theorem answers_well_typed:
  assumes "manifest_validator v" and "base_catalog st \<notin> store_tree st"
    and "local_catalog st \<notin> write_area H \<union> A" and "base_catalog st \<notin> write_area H \<union> A"
    and "list_all (regular A v st config) rs" and "well_kept v st (w_fs (sv_world s))"
    and "regular A v st config (X, rq, us, r)"
  shows "case dispatch (app_with (deployed H X) config eg) rq us r (serve config eg (requests_on H rs) s) of
     (Inl e, s') \<Rightarrow> True
   | (Inr j, s') \<Rightarrow> has_type v j (answer_type r)"
proof -
  let ?S = "app_with (deployed H X) config eg"
  let ?s = "serve config eg (requests_on H rs) s"
  have kept: "well_kept v st (w_fs (sv_world ?s))"
    using serve_guards [OF assms(1-6)] by blast
  have X: "x_validator (deployed H X) = v" using assms(7) by (simp add: regular_def deployed_def)
  have lists: "\<forall>a \<in> set (r_adapters (s_resolver ?S)). \<forall>q. returns (list_all (sound_candidate v)) (a q)"
    using registries_sound [where X = "deployed H X", unfolded X, OF assms(1)]
    by (simp add: app_with_def Let_def resolver_with_def)
  have "handle ?S rq user us r ?s = (Inr j, s') \<Longrightarrow> has_type v j (answer_type r)" for user j s'
    using app.handle_typed [OF assms(1) app_fields(4) [OF assms(7)] assms(2) app_fields(2,1) [OF assms(7)] lists kept] .
  then show ?thesis by (auto simp: dispatch_def split: sum.splits prod.splits if_splits)
qed

lemma answers_well_typed_witness:
  "case dispatch (app_with (deployed closed_host sample_outside) sample_config sample_egress) local_client (Dec 5 (- 3)) ListAll
      (serve sample_config sample_egress (requests_on closed_host sample_requests) sample_process) of
     (Inl e, s') \<Rightarrow> True
   | (Inr j, s') \<Rightarrow> has_type reference_errors j (answer_type ListAll)"
proof -
  have "regular {} reference_errors (store_at sample_outside ''/var'') sample_config (sample_outside, local_client, Dec 5 (- 3), ListAll)"
    using sample_replies
    by (simp add: regular_def install_body_ok_def sample_config_def sample_runtime_quiet) (simp add: sample_outside_def)
  from answers_well_typed [OF reference.manifest_validator_axioms sample_apart _ _ sample_regular sample_kept this, of closed_host]
  show ?thesis by (simp add: closed_host_writes_nothing)
qed

end
