(* ===== verification/Audit_Trail.thy ===== *)
theory Audit_Trail
  imports Server_Laws
begin

text \<open>
  What the service leaves behind in the audit log and in the set of used nonces, over all
  requests: the log only grows, a successful request leaves exactly the events of its route
  (src/server.py, src/oauth.py), and a nonce that authorized a run never does so again.
\<close>

section \<open>Operations that write no event\<close>

text \<open>Such an operation leaves the log alone, and forgets no nonce.\<close>

definition quiet :: "'a io \<Rightarrow> bool" where
  "quiet m \<longleftrightarrow> (\<forall>w. w_log (snd (m w)) = w_log w \<and> set (w_nonces w) \<subseteq> set (w_nonces (snd (m w))))"

named_theorems quiet_rules

lemma quietD: "quiet m \<Longrightarrow> m w = (r, w') \<Longrightarrow> w_log w' = w_log w \<and> set (w_nonces w) \<subseteq> set (w_nonces w')"
  unfolding quiet_def by (metis snd_conv)

lemma quiet_basic [quiet_rules]:
  "quiet (io_return a)" "quiet (io_raise e)" "quiet (io_lift r)" "quiet (io_get f)"
  by (simp_all add: quiet_def io_defs)

lemma quiet_prim [quiet_rules]: "quiet (prim f)"
  by (auto simp: quiet_def prim_def Let_def split: option.split sum.split prod.split)

lemma quiet_send [quiet_rules]: "quiet (send tr rq)"
  by (simp add: quiet_def send_def)

lemma quiet_bind [quiet_rules]: "quiet m \<Longrightarrow> (\<And>a. quiet (f a)) \<Longrightarrow> quiet (io_bind m f)"
  unfolding quiet_def io_bind_def
  by (auto split: prod.split sum.split) (metis snd_conv, metis (no_types, opaque_lifting) snd_conv subsetD)+

lemma quiet_try [quiet_rules]: "quiet m \<Longrightarrow> (\<And>e. quiet (h e)) \<Longrightarrow> quiet (io_try m h)"
  unfolding quiet_def io_try_def
  by (auto split: prod.split sum.split) (metis snd_conv, metis (no_types, opaque_lifting) snd_conv subsetD)+

lemma quiet_finally [quiet_rules]: "quiet m \<Longrightarrow> quiet c \<Longrightarrow> quiet (io_finally m c)"
  unfolding quiet_def io_finally_def
  by (auto split: prod.split sum.split) (metis snd_conv, metis (no_types, opaque_lifting) snd_conv subsetD)+

lemma quiet_ignore [quiet_rules]: "quiet m \<Longrightarrow> quiet (io_ignore m)"
  unfolding io_ignore_def by (intro quiet_rules)

lemma quiet_foreach [quiet_rules]: "(\<And>x. quiet (f x)) \<Longrightarrow> quiet (io_foreach f xs)"
  by (induction xs) (auto intro!: quiet_rules)

lemma quiet_if [quiet_rules]: "(b \<Longrightarrow> quiet m) \<Longrightarrow> (\<not> b \<Longrightarrow> quiet n) \<Longrightarrow> quiet (if b then m else n)"
  by simp

lemma quiet_option [quiet_rules]:
  "quiet m \<Longrightarrow> (\<And>a. quiet (f a)) \<Longrightarrow> quiet (case x of None \<Rightarrow> m | Some a \<Rightarrow> f a)"
  by (cases x) auto

lemma quiet_os_case [quiet_rules]:
  "(\<And>n t. quiet (f n t)) \<Longrightarrow> quiet (case e of PyError (OSError n) t \<Rightarrow> f n t | _ \<Rightarrow> io_raise e)"
  by (auto intro: quiet_rules split: exc.split pykind.split)

lemma quiet_str_case [quiet_rules]:
  "(\<And>s. quiet (f s)) \<Longrightarrow> quiet m \<Longrightarrow> quiet (case j of JStr s \<Rightarrow> f s | _ \<Rightarrow> m)"
  by (cases j) auto

lemma quiet_prod [quiet_rules]: "(\<And>a b. quiet (f a b)) \<Longrightarrow> quiet (case p of (a, b) \<Rightarrow> f a b)"
  by (cases p) auto

section \<open>The store and the installer\<close>

lemma quiet_files [quiet_rules]:
  "quiet (mkdir_p p)" "quiet (mkdir_new p)" "quiet (create_file p)" "quiet (write_file p d)" "quiet (read_file p)"
  "quiet (replace_file p q)" "quiet (replace_dir p q)" "quiet (unlink p)" "quiet (unlink_missing_ok p)" "quiet (rmdir p)"
  "quiet fsync" "quiet fsync_dir" "quiet (exists_io p)" "quiet (remove_entry p)" "quiet (rmtree p)" "quiet (open_append p)"
  "quiet (copy_file p q)" "quiet (take_lock p)" "quiet k \<Longrightarrow> quiet (with_lock p k)"
  unfolding mkdir_p_def mkdir_new_def create_file_def write_file_def read_file_def replace_file_def replace_dir_def
    unlink_missing_ok_def unlink_def rmdir_def fsync_dir_def fsync_def exists_io_def rmtree_def remove_entry_def open_append_def
    copy_file_def with_lock_def take_lock_def flock_def
  by (intro quiet_rules | assumption)+

lemma quiet_wrapped [quiet_rules]:
  "quiet m \<Longrightarrow> quiet (ignore_os m)" "quiet n \<Longrightarrow> quiet (best_effort n)" "quiet k \<Longrightarrow> quiet (io_wrap t k)"
  unfolding best_effort_def io_wrap_def ignore_os_def by (intro quiet_rules; assumption)+

lemma quiet_json [quiet_rules]:
  "quiet (atomic_write_json token p j)" "quiet (read_json p)" "quiet (load_catalog_file v p)"
  unfolding atomic_write_json_def atomic_write_text_def read_json_def load_catalog_file_def Let_def
  by (intro quiet_rules)+

lemma quiet_catalogs [quiet_rules]:
  "quiet (merged_catalog v st)" "quiet (upsert_local v token st m)" "quiet (delete_local v token st k)"
  "quiet (set_local_enabled v token st k b)"
  unfolding merged_catalog_def load_base_catalog_def load_local_catalog_def upsert_local_def delete_local_def
    set_local_enabled_def write_local_catalog_def Let_def
  by (intro quiet_rules)+

lemma quiet_store [quiet_rules]:
  "quiet (factory_reset st)" "quiet (store_remove st r)" "quiet (put_payload_from_path f st r p)"
  "quiet (install_manifest_atomic token st m meta)"
proof -
  have entries: "quiet (copy_entries a b qs)" for a b qs
    by (induction qs) (auto simp: Let_def intro!: quiet_rules)
  show "quiet (factory_reset st)" "quiet (store_remove st r)"
    "quiet (install_manifest_atomic token st m meta)"
    unfolding factory_reset_def store_remove_def remove_tree_entry_def install_manifest_atomic_def
      stage_and_promote_def promote_def Let_def
    by (intro quiet_rules)+
  show "quiet (put_payload_from_path f st r p)"
    unfolding put_payload_from_path_def copytree_def rmtree_strict_def Let_def
    by (intro quiet_rules entries)
qed

section \<open>The resolver\<close>

lemma quiet_http [quiet_rules]: "quiet (egress_request cfg tr rq)" "quiet (http_call eg tr rq)"
  unfolding http_call_def egress_request_def by (intro quiet_rules)+

lemma quiet_install [quiet_rules]: "quiet (resolver_install R token cand)"
  unfolding resolver_install_def install_locked_def manifest_to_install_def fetch_pinned_def copy_payload_def Let_def
  by (intro quiet_rules)

lemma quiet_remove [quiet_rules]: "quiet (resolver_remove R token k ver)"
  unfolding resolver_remove_def remove_locked_def by (intro quiet_rules)

lemma quiet_reads [quiet_rules]: "quiet (resolver_list R)" "quiet (resolver_get R k ver)"
  unfolding resolver_list_def list_locked_def resolver_get_def get_locked_def by (intro quiet_rules)+

lemma quiet_consume [quiet_rules]: "quiet (consume_nonce n)"
  by (auto simp: quiet_def consume_nonce_def consume_def split: sum.split)

lemma quiet_spawn [quiet_rules]: "quiet (spawn rt argv env t)"
  by (simp add: quiet_def spawn_rest)

definition callables_quiet :: "runtime_env \<Rightarrow> bool" where
  "callables_quiet rt \<longleftrightarrow> (\<forall>m n. case import_callable rt m n of
     Inr (Some (Fun1 f)) \<Rightarrow> \<forall>a. quiet (f a)
   | Inr (Some (Fun2 f)) \<Rightarrow> \<forall>x a. quiet (f x a)
   | _ \<Rightarrow> True)"

lemma quiet_run_python:
  assumes "callables_quiet rt"
  shows "quiet (run_python rt impl manifest args)"
proof -
  have "quiet (case fn of Fun1 f \<Rightarrow> f args | Fun2 f \<Rightarrow> f manifest args | FunOther \<Rightarrow> io_raise e)"
    if "load_callable rt s = Inr fn" for s fn e
  proof -
    from load_callable_Inr [OF that] obtain m n where "import_callable rt m n = Inr (Some fn)" by blast
    with assms have "case fn of Fun1 f \<Rightarrow> \<forall>a. quiet (f a) | Fun2 f \<Rightarrow> \<forall>x a. quiet (f x a) | _ \<Rightarrow> True"
      unfolding callables_quiet_def by (metis (no_types, lifting) option.simps(5) sum.simps(6))
    then show ?thesis by (cases fn) (auto intro: quiet_rules)
  qed
  note call = this
  have lift: "(\<And>a. r = Inr a \<Longrightarrow> quiet (f a)) \<Longrightarrow> quiet (io_bind (io_lift r) f)" for r and f :: "'b \<Rightarrow> json io"
    by (cases r) (auto intro: quiet_rules)
  show ?thesis
    unfolding run_python_def
    by (intro quiet_rules lift call)
qed

lemma quiet_exec:
  assumes "callables_quiet rt"
  shows "quiet (exec_run rt eg tr manifest args)"
proof -
  have servers: "quiet (try_servers eg tr manifest tool args sid ss)" for tool sid ss
    by (induction ss) (auto simp: call_tool_def Let_def intro!: quiet_rules)
  show ?thesis
    unfolding exec_run_def exec_mcp_def exec_a2a_def run_mcp_tool_def run_a2a_def run_command_def Let_def
    by (intro quiet_rules quiet_run_python [OF assms] servers)
qed

lemma quiet_run:
  assumes "callables_quiet (r_runtime R)"
  shows "quiet (resolver_run R k args)"
  unfolding resolver_run_def run_checks_def Let_def by (intro quiet_rules quiet_exec [OF assms])

section \<open>The callables of this repository\<close>

lemma quiet_texts [quiet_rules]: "quiet (read_text H p)" "quiet (read_at H p)" "quiet (list_dir p)"
  unfolding read_text_def read_at_def list_dir_def by (intro quiet_rules)+

lemma quiet_loops [quiet_rules]:
  "quiet (read_fields H p fs acc)" "quiet (iface_loop H ps acc')" "quiet (process_loop H limit ps acc')"
proof -
  show fields: "quiet (read_fields H p fs acc)" for p fs acc
    by (induction fs arbitrary: acc) (auto intro!: quiet_rules)
  show "quiet (iface_loop H ps acc')"
    by (induction ps arbitrary: acc') (auto intro!: quiet_rules fields)
  have entry: "quiet (process_entry H p)" for p
    unfolding process_entry_def Let_def by (intro quiet_rules)
  show "quiet (process_loop H limit ps acc')"
    by (induction ps arbitrary: acc') (auto intro!: quiet_rules entry)
qed

lemma quiet_tools:
  "quiet (echo args)" "quiet (time_now H args)" "quiet (host_info H args)" "quiet (host_resources H args)"
  "quiet (host_net_ifaces H args)" "quiet (process_list H args)" "quiet (fs_read H args)" "quiet (fs_write H args)"
  "quiet (connector_status manifest args)" "quiet (skillpack_run H manifest args)"
  unfolding echo_def time_now_def host_info_def host_resources_def meminfo_summary_def host_net_ifaces_def
    process_list_def fs_read_def fs_write_def write_text_def mkdir_way_def connector_status_def skillpack_run_def Let_def
  by (intro quiet_rules)+

lemma seed_quiet:
  assumes "callables_quiet rt"
  shows "callables_quiet (with_seed H rt)"
proof -
  have "case f of Fun1 g \<Rightarrow> \<forall>a. quiet (g a) | Fun2 g \<Rightarrow> \<forall>x a. quiet (g x a) | FunOther \<Rightarrow> True"
    if "((m, n), f) \<in> set (seed_functions H)" for m n f
    using that by (auto simp: seed_functions_def quiet_tools)
  then show ?thesis
    using assms by (fastforce simp: callables_quiet_def with_seed_def seed_import_def dest: map_of_SomeD split: option.splits)
qed

section \<open>Operations that write events\<close>

text \<open>
  \<open>emits pay Q m\<close>: the operation appends audit events to the log, each with the payload
  \<open>pay\<close> makes of it, and when it returns, \<open>Q\<close> holds of the result and of those events.
\<close>

definition entry :: "(audit_event \<Rightarrow> json) \<Rightarrow> audit_event \<Rightarrow> string \<times> json" where
  "entry pay e = (ae_event e, pay e)"

definition emits :: "(audit_event \<Rightarrow> json) \<Rightarrow> ('a \<Rightarrow> audit_event list \<Rightarrow> bool) \<Rightarrow> 'a io \<Rightarrow> bool" where
  "emits pay Q m \<longleftrightarrow> (\<forall>w r w'. m w = (r, w') \<longrightarrow>
     (\<exists>es. w_log w' = w_log w @ map (entry pay) es \<and> set (w_nonces w) \<subseteq> set (w_nonces w')
        \<and> (case r of Inl e \<Rightarrow> True | Inr a \<Rightarrow> Q a es)))"

named_theorems emits_rules

lemma emits_quiet: "quiet m \<Longrightarrow> (\<And>a. Q a []) \<Longrightarrow> emits pay Q m"
  unfolding emits_def by (intro allI impI exI [of _ "[]"]) (auto dest: quietD split: sum.split)

lemma emits_return: "Q a [] \<Longrightarrow> emits pay Q (io_return a)"
  by (auto simp: emits_def io_return_def intro!: exI [of _ "[]"])

lemma emits_raise: "emits pay Q (io_raise e)"
  by (auto simp: emits_def io_raise_def intro!: exI [of _ "[]"])

lemma emits_if: "(b \<Longrightarrow> emits pay Q m) \<Longrightarrow> (\<not> b \<Longrightarrow> emits pay Q n) \<Longrightarrow> emits pay Q (if b then m else n)"
  by simp

lemma emits_bind:
  assumes m: "emits pay P m" and f: "\<And>a es. P a es \<Longrightarrow> emits pay (\<lambda>b es'. Q b (es @ es')) (f a)"
  shows "emits pay Q (io_bind m f)"
  unfolding emits_def
proof (intro allI impI)
  fix w r w'
  assume run: "io_bind m f w = (r, w')"
  obtain r1 w1 where 1: "m w = (r1, w1)" by fastforce
  from m 1 obtain es where es: "w_log w1 = w_log w @ map (entry pay) es" "set (w_nonces w) \<subseteq> set (w_nonces w1)"
    "case r1 of Inl e \<Rightarrow> True | Inr a \<Rightarrow> P a es" unfolding emits_def by blast
  show "\<exists>es. w_log w' = w_log w @ map (entry pay) es \<and> set (w_nonces w) \<subseteq> set (w_nonces w')
      \<and> (case r of Inl e \<Rightarrow> True | Inr a \<Rightarrow> Q a es)"
  proof (cases r1)
    case (Inl e)
    with run 1 es show ?thesis by (auto simp: io_bind_def)
  next
    case (Inr a)
    with run 1 have "f a w1 = (r, w')" by (simp add: io_bind_def)
    moreover from Inr es(3) f have "emits pay (\<lambda>b es'. Q b (es @ es')) (f a)" by simp
    ultimately obtain es' where "w_log w' = w_log w1 @ map (entry pay) es'" "set (w_nonces w1) \<subseteq> set (w_nonces w')"
      "case r of Inl e \<Rightarrow> True | Inr b \<Rightarrow> Q b (es @ es')" unfolding emits_def by blast
    with es show ?thesis by (intro exI [of _ "es @ es'"]) auto
  qed
qed

lemma emits_quiet_bind: "quiet m \<Longrightarrow> (\<And>a. emits pay Q (f a)) \<Longrightarrow> emits pay Q (io_bind m f)"
  by (rule emits_bind [OF emits_quiet [where Q = "\<lambda>_ es. es = []"]]) auto

lemma emits_mono:
  assumes "emits pay P m" and "\<And>a es. P a es \<Longrightarrow> Q a es"
  shows "emits pay Q m"
  unfolding emits_def
proof (intro allI impI)
  fix w r w' assume "m w = (r, w')"
  with assms(1) obtain es where "w_log w' = w_log w @ map (entry pay) es" "set (w_nonces w) \<subseteq> set (w_nonces w')"
    "case r of Inl e \<Rightarrow> True | Inr a \<Rightarrow> P a es" unfolding emits_def by blast
  with assms(2) show "\<exists>es. w_log w' = w_log w @ map (entry pay) es \<and> set (w_nonces w) \<subseteq> set (w_nonces w')
      \<and> (case r of Inl e \<Rightarrow> True | Inr a \<Rightarrow> Q a es)"
    by (intro exI [of _ es]) (auto split: sum.splits)
qed

lemma emits_lift_bind: "(\<And>a. r = Inr a \<Longrightarrow> emits pay Q (f a)) \<Longrightarrow> emits pay Q (io_bind (io_lift r) f)"
  by (cases r) (auto intro: emits_raise)

lemma emits_try_raise:
  assumes "emits pay Q m" and "\<And>e. emits pay (\<lambda>_ _. False) (h e)"
  shows "emits pay Q (io_try m h)"
  unfolding emits_def
proof (intro allI impI)
  fix w r w'
  assume run: "io_try m h w = (r, w')"
  obtain r1 w1 where 1: "m w = (r1, w1)" by fastforce
  from assms(1) 1 obtain es where es: "w_log w1 = w_log w @ map (entry pay) es" "set (w_nonces w) \<subseteq> set (w_nonces w1)"
    "case r1 of Inl e \<Rightarrow> True | Inr a \<Rightarrow> Q a es" unfolding emits_def by blast
  show "\<exists>es. w_log w' = w_log w @ map (entry pay) es \<and> set (w_nonces w) \<subseteq> set (w_nonces w')
      \<and> (case r of Inl e \<Rightarrow> True | Inr a \<Rightarrow> Q a es)"
  proof (cases r1)
    case (Inr a)
    with run 1 es show ?thesis by (auto simp: io_try_def)
  next
    case (Inl e)
    with run 1 have "h e w1 = (r, w')" by (simp add: io_try_def)
    with assms(2) [of e] obtain es' where "w_log w' = w_log w1 @ map (entry pay) es'"
      "set (w_nonces w1) \<subseteq> set (w_nonces w')" "case r of Inl e \<Rightarrow> True | Inr b \<Rightarrow> False" unfolding emits_def by blast
    with es show ?thesis by (intro exI [of _ "es @ es'"]) (auto split: sum.splits)
  qed
qed

section \<open>Onboarding\<close>

text \<open>The manager writes its events with the same payload, and its secrets backend writes none.\<close>

locale logged_onboarding = onboarding +
  fixes pay :: "audit_event \<Rightarrow> json"
  assumes audit_entry: "emits pay (\<lambda>_ es. es = [e]) (o_audit M e)"
    and secrets_quiet: "quiet (sec_put (o_secrets M) h x)" "quiet (sec_get (o_secrets M) h)" "quiet (sec_delete (o_secrets M) h)"
begin

lemma emits_start:
  "emits pay (\<lambda>_ es. es = [oauth_event ''oauth.start'' princ cid]) (oauth_start M token sid cid princ)"
proof -
  have files: "quiet (load_sessions st)" "quiet (write_sessions token st d)" for st d
    unfolding load_sessions_def write_sessions_def by (intro quiet_rules)+
  have quiet: "quiet (open_session M token sid cid provider g)" for provider g
    unfolding open_session_def by (intro quiet_rules secrets_quiet files)
  have rest: "emits pay (\<lambda>_ es. [e] @ es = [e])
      (io_bind (egress_request (o_egress M) (o_transport M) rq) (\<lambda>resp. io_bind (io_lift (response_json resp)) (\<lambda>data.
       io_bind (io_lift (device_grant_of data)) (\<lambda>g. open_session M token sid cid provider g))))" for e rq provider
    by (rule emits_quiet) (auto intro!: quiet_rules quiet)
  show ?thesis
    unfolding oauth_start_def case_prod_unfold
    by (rule emits_quiet_bind [OF quiet_catalogs(1)], rule emits_quiet_bind [OF quiet_basic(3)],
        rule emits_bind [OF audit_entry]) (simp only: rest)
qed

lemma emits_complete:
  "emits pay (\<lambda>j es. \<exists>cid. es = oauth_event ''oauth.complete'' princ cid #
      (if jget j ''status'' = JStr ''enabled'' then [oauth_event ''capability.enabled'' princ cid] else []))
    (oauth_complete M token sid princ)"
  (is "emits pay ?Q _")
proof -
  have files: "quiet (load_sessions st)" "quiet (write_sessions token st d)" for st d
    unfolding load_sessions_def write_sessions_def by (intro quiet_rules)+
  have close: "quiet (close_session M token sid sessions h)" "quiet (enable_connector M token cid h)" for sessions h cid
    unfolding close_session_def enable_connector_def Let_def by (intro quiet_rules secrets_quiet files)+
  have exchange: "emits pay (\<lambda>_ es. es = [oauth_event ''oauth.complete'' princ (str_or_empty (jget s ''capability_id''))])
      (exchange_code M s princ)" for s
    unfolding exchange_code_def Let_def
    by (intro emits_quiet_bind quiet_rules secrets_quiet emits_if emits_raise emits_bind [OF audit_entry])
       (auto intro!: emits_quiet quiet_rules)
  have answer: "emits pay (\<lambda>j es'. ?Q j ([oauth_event ''oauth.complete'' princ cid] @ es'))
     (case out of
       Pending err \<Rightarrow> io_bind (io_lift (n err)) (\<lambda>interval.
         io_return (JObj [(''status'', JStr ''pending''), (''error'', JStr err), (''interval'', JInt interval)]))
     | Granted refresh \<Rightarrow>
          io_bind (sec_put (o_secrets M) tok (a refresh)) (\<lambda>_.
          io_bind (enable_connector M token cid tok) (\<lambda>_.
          io_bind (close_session M token sid sessions h) (\<lambda>_.
          io_bind (o_audit M (oauth_event ''capability.enabled'' princ cid)) (\<lambda>_.
          io_return (JObj [(''status'', JStr ''enabled''), (''capability_id'', JStr cid)]))))))"
    for cid out n tok a h sessions
    by (cases out)
       (auto intro!: emits_quiet_bind quiet_rules secrets_quiet close emits_bind [OF audit_entry] emits_return
          simp: jget_def get_or_def)
  show ?thesis
    unfolding oauth_complete_def Let_def
    by (intro emits_quiet_bind quiet_rules files emits_bind [OF exchange]) (simp only: answer)
qed

end

lemma quiet_secrets:
  "quiet (secrets_put enc dec token p h x)" "quiet (secrets_get dec p h)" "quiet (secrets_delete enc dec token p h)"
  unfolding secrets_put_def secrets_get_def secrets_delete_def secrets_read_all_def secrets_write_all_def
  by (intro quiet_rules)+

interpretation logged: logged_onboarding "manager_with enc dec token st eg tr v env now (audit_emit sha ts service)"
    "audit_payload sha ts service"
  for enc dec token st eg tr v env now sha ts service
proof unfold_locales
  fix e
  show "emits (audit_payload sha ts service) (\<lambda>_ es. es = [e])
      (o_audit (manager_with enc dec token st eg tr v env now (audit_emit sha ts service)) e)"
    by (auto simp: emits_def manager_with_def audit_emit_def io_modify_def entry_def)
qed (simp_all add: manager_with_def file_secrets_def quiet_secrets)

section \<open>Handlers\<close>

definition for_request :: "web_request \<Rightarrow> json \<Rightarrow> audit_event \<Rightarrow> audit_event" where
  "for_request rq user e = e\<lparr>ae_principal := user, ae_request_id := request_id rq\<rparr>"

text \<open>
  The events of a request that is answered. The events of the two onboarding routes are
  those of the manager, which do not carry the id of the request.
\<close>

fun success_log :: "server \<Rightarrow> web_request \<Rightarrow> json \<Rightarrow> route \<Rightarrow> json \<Rightarrow> audit_event list \<Rightarrow> bool" where
  "success_log S rq user (Search p) j es =
     (es = map (for_request rq user)
        ((if r_adapters (s_resolver S) = [] then [] else [about ''registry'' ''catalogs'' (event ''registry.fetch'')])
         @ [about ''intent'' (str_or_empty (jget p ''intent'')) (event ''capability.search'')]))"
| "success_log S rq user (Resolve p) j es =
     (es = [for_request rq user (about ''intent'' (str_or_empty (jget (jget p ''step'') ''intent'')) (event ''capability.resolve''))])"
| "success_log S rq user (Install p) j es =
     (es = [for_request rq user (about ''capability''
        (str_or_empty (jget (dict_or_empty (jget (jget p ''candidate'') ''manifest'')) ''id'')) (event ''capability.install_start''))])"
| "success_log S rq user (RunCapability p) j es =
     (es = [for_request rq user (about ''capability'' (py_str (jget p ''capability_id'')) (event ''capability.run_start''))])"
| "success_log S rq user ListAll j es = (es = [for_request rq user (about ''capability'' ''list'' (event ''capability.list''))])"
| "success_log S rq user (GetOne c v) j es = (es = [for_request rq user (about ''capability'' c (event ''capability.get''))])"
| "success_log S rq user (Remove c v) j es =
     (es = [for_request rq user (about ''capability'' (c @ ''@'' @ v) (event ''capability.remove''))])"
| "success_log S rq user (OauthStart p) j es = (\<exists>cid. es = [oauth_event ''oauth.start'' user cid])"
| "success_log S rq user (OauthComplete p) j es =
     (\<exists>cid. es = oauth_event ''oauth.complete'' user cid #
        (if jget j ''status'' = JStr ''enabled'' then [oauth_event ''capability.enabled'' user cid] else []))"
| "success_log S rq user FactoryReset j es = (es = [for_request rq user (event ''capability.factory_reset'')])"
| "success_log S rq user r j es = (es = [])"

locale audited_application = application +
  assumes registries_quiet: "a \<in> set (r_adapters (s_resolver S)) \<Longrightarrow> quiet (a q)"
    and oauth_logged: "s_oauth S = Inr M \<Longrightarrow> logged_onboarding M payload_of"
begin

lemma emits_emit: "emits payload_of (\<lambda>_ es. es = [for_request rq user e]) (emit_for S rq user e)"
  by (auto simp: emits_def emit_for_def emits for_request_def entry_def)

lemma emits_handled: "emits payload_of Q body \<Longrightarrow> emits payload_of Q (handled S rq user err body)"
  unfolding handled_def
  by (intro emits_try_raise emits_quiet_bind quiet_basic emits_bind [OF emits_emit] emits_raise)

lemma quiet_search: "quiet (resolver_search (s_resolver S) i c)" "quiet (resolver_resolve (s_resolver S) step)"
proof -
  have "quiet (ask_adapters as q)" if "set as \<subseteq> set (r_adapters (s_resolver S))" for as q
    using that
  proof (induction as)
    case (Cons a as)
    then have "quiet (a q)" using registries_quiet by simp
    with Cons show ?case by (simp, intro quiet_rules) simp_all
  qed (simp add: quiet_basic)
  then show search: "quiet (resolver_search (s_resolver S) i c)" for i c
    unfolding resolver_search_def by (intro quiet_rules) blast
  show "quiet (resolver_resolve (s_resolver S) step)"
    unfolding resolver_resolve_def Let_def by (intro quiet_rules search)
qed

text \<open>A body that writes one event, then works quietly.\<close>

lemma emits_then_quiet:
  "quiet m \<Longrightarrow> emits payload_of (\<lambda>_ es. es = [for_request rq user e]) (io_bind (emit_for S rq user e) (\<lambda>_. m))"
  by (rule emits_bind [OF emits_emit]) (auto intro: emits_quiet)

lemma reading_log:
  "emits payload_of (success_log S rq user (Search p)) (do_search S rq user p)"
  "emits payload_of (success_log S rq user (Resolve p)) (do_resolve S rq user p)"
  "emits payload_of (success_log S rq user ListAll) (do_list S rq user)"
  "emits payload_of (success_log S rq user (GetOne k ver)) (do_get S rq user k ver)"
proof -
  have fetch: "emits payload_of (\<lambda>_ es. es = map (for_request rq user) (if b then [] else [e]))
      (if b then io_return () else emit_for S rq user e)" for b e
    using emits_emit [of rq user e] by (auto intro: emits_return)
  have "emits payload_of (\<lambda>_ es'. es @ es' = es @ [for_request rq user e])
      (io_bind (emit_for S rq user e) (\<lambda>_. io_bind (resolver_search (s_resolver S) i c) (\<lambda>cs. io_return (f cs))))" for es e i c f
    using emits_then_quiet [OF quiet_bind [OF quiet_search(1) quiet_basic(1)]] by simp
  then show "emits payload_of (success_log S rq user (Search p)) (do_search S rq user p)"
    unfolding do_search_def Let_def
    by (intro emits_handled emits_if emits_raise emits_bind [OF fetch]) simp
  show "emits payload_of (success_log S rq user (Resolve p)) (do_resolve S rq user p)"
    "emits payload_of (success_log S rq user ListAll) (do_list S rq user)"
    "emits payload_of (success_log S rq user (GetOne k ver)) (do_get S rq user k ver)"
    unfolding do_resolve_def do_list_def do_get_def Let_def success_log.simps [abs_def]
    by (intro emits_handled emits_if emits_raise emits_then_quiet quiet_rules quiet_search)+
qed

lemma quiet_then_emit:
  "quiet m \<Longrightarrow> emits payload_of (\<lambda>_ es. es = [for_request rq user e])
     (io_bind m (\<lambda>a. io_bind (emit_for S rq user e) (\<lambda>_. io_return (f a))))"
  by (rule emits_quiet_bind) (auto intro: emits_then_quiet quiet_basic)

lemma changing_log:
  "emits payload_of (success_log S rq user (Install p)) (do_install S rq user p)"
  "emits payload_of (success_log S rq user (Remove k ver)) (do_remove S rq user k ver)"
  "emits payload_of (success_log S rq user FactoryReset) (do_factory_reset S rq user)"
  unfolding do_install_def do_remove_def do_factory_reset_def Let_def success_log.simps [abs_def]
  by (rule emits_handled, intro emits_if emits_raise emits_then_quiet quiet_then_emit quiet_rules
      | rule emits_handled, rule emits_quiet_bind, intro quiet_rules, intro quiet_then_emit quiet_rules)+

lemma run_log:
  assumes "callables_quiet (r_runtime (s_resolver S))"
  shows "emits payload_of (success_log S rq user (RunCapability p)) (do_run S rq user p)"
  unfolding do_run_def Let_def success_log.simps [abs_def]
  by (rule emits_handled, rule emits_quiet_bind, rule quiet_basic)
     (intro emits_if emits_raise emits_then_quiet quiet_bind quiet_run [OF assms] quiet_basic)

lemma oauth_log:
  "emits payload_of (success_log S rq user (OauthStart p)) (do_oauth_start S rq user p)"
  "emits payload_of (success_log S rq user (OauthComplete p)) (do_oauth_complete S rq user p)"
proof -
  have start: "emits payload_of (success_log S rq user (OauthStart p)) (oauth_start M t i c user)"
    if "s_oauth S = Inr M" for M t i c
    by (rule emits_mono [OF logged_onboarding.emits_start [OF oauth_logged [OF that]]]) (simp, blast)
  have complete: "emits payload_of (success_log S rq user (OauthComplete p)) (oauth_complete M t i user)"
    if "s_oauth S = Inr M" for M t i
    by (rule emits_mono [OF logged_onboarding.emits_complete [OF oauth_logged [OF that]]]) simp
  show "emits payload_of (success_log S rq user (OauthStart p)) (do_oauth_start S rq user p)"
    unfolding do_oauth_start_def by (rule emits_lift_bind, rule emits_handled, rule emits_lift_bind, rule start)
  show "emits payload_of (success_log S rq user (OauthComplete p)) (do_oauth_complete S rq user p)"
    unfolding do_oauth_complete_def by (rule emits_lift_bind, rule emits_handled, rule emits_lift_bind, rule complete)
qed

lemma quiet_ready: "quiet (ready S)"
  unfolding ready_def probe_store_def probe_schema_def probe_catalog_def probe_def load_base_catalog_def Let_def
  by (intro quiet_rules)

lemma act_emits:
  assumes "emits pay Q m"
  shows "counted n m s = (r, s') \<Longrightarrow> \<exists>es. w_log (sv_world s') = w_log (sv_world s) @ map (entry pay) es
      \<and> set (w_nonces (sv_world s)) \<subseteq> set (w_nonces (sv_world s')) \<and> (case r of Inl e \<Rightarrow> True | Inr a \<Rightarrow> Q a es)"
    and "timed n op us m s = (r, s') \<Longrightarrow> \<exists>es. w_log (sv_world s') = w_log (sv_world s) @ map (entry pay) es
      \<and> set (w_nonces (sv_world s)) \<subseteq> set (w_nonces (sv_world s')) \<and> (case r of Inl e \<Rightarrow> True | Inr a \<Rightarrow> Q a es)"
proof -
  obtain r1 w1 where 1: "m (sv_world s) = (r1, w1)" by fastforce
  with assms have *: "\<exists>es. w_log w1 = w_log (sv_world s) @ map (entry pay) es
      \<and> set (w_nonces (sv_world s)) \<subseteq> set (w_nonces w1) \<and> (case r1 of Inl e \<Rightarrow> True | Inr a \<Rightarrow> Q a es)"
    unfolding emits_def by blast
  from 1 have "counted n m s = (r, s') \<Longrightarrow> r = r1 \<and> sv_world s' = w1" "timed n op us m s = (r, s') \<Longrightarrow> r = r1 \<and> sv_world s' = w1"
    by (auto simp: counted_def timed_def on_world_def metric_def observe_def)
  with * show "counted n m s = (r, s') \<Longrightarrow> \<exists>es. w_log (sv_world s') = w_log (sv_world s) @ map (entry pay) es
      \<and> set (w_nonces (sv_world s)) \<subseteq> set (w_nonces (sv_world s')) \<and> (case r of Inl e \<Rightarrow> True | Inr a \<Rightarrow> Q a es)"
    "timed n op us m s = (r, s') \<Longrightarrow> \<exists>es. w_log (sv_world s') = w_log (sv_world s) @ map (entry pay) es
      \<and> set (w_nonces (sv_world s)) \<subseteq> set (w_nonces (sv_world s')) \<and> (case r of Inl e \<Rightarrow> True | Inr a \<Rightarrow> Q a es)"
    by metis+
qed

lemma handle_log:
  assumes calls: "callables_quiet (r_runtime (s_resolver S))" and run: "handle S rq user us r s = (out, s')"
  shows "\<exists>es. w_log (sv_world s') = w_log (sv_world s) @ map (entry payload_of) es
      \<and> set (w_nonces (sv_world s)) \<subseteq> set (w_nonces (sv_world s'))
      \<and> (case out of Inl e \<Rightarrow> True | Inr j \<Rightarrow> success_log S rq user r j es)"
proof -
  have plain: "emits payload_of (success_log S rq user Health) (health S)"
    "emits payload_of (success_log S rq user Version) (version_info S)"
    "emits payload_of (success_log S rq user Ready) (ready S)"
    unfolding health_def version_info_def by (rule emits_quiet, intro quiet_rules quiet_ready, simp)+
  show ?thesis
  proof (cases r)
    case Metrics
    with run show ?thesis by (intro exI [of _ "[]"]) (auto simp: metrics_def metric_def Let_def)
  next
    case Health show ?thesis unfolding Health by (rule act_emits(1) [OF plain(1)], use run Health in simp)
  next
    case Version show ?thesis unfolding Version by (rule act_emits(1) [OF plain(2)], use run Version in simp)
  next
    case Ready show ?thesis unfolding Ready by (rule act_emits(1) [OF plain(3)], use run Ready in simp)
  next
    case (Search p) show ?thesis unfolding Search by (rule act_emits(2) [OF reading_log(1)], use run Search in simp)
  next
    case (Resolve p) show ?thesis unfolding Resolve by (rule act_emits(2) [OF reading_log(2)], use run Resolve in simp)
  next
    case ListAll show ?thesis unfolding ListAll by (rule act_emits(2) [OF reading_log(3)], use run ListAll in simp)
  next
    case (GetOne k v) show ?thesis unfolding GetOne by (rule act_emits(2) [OF reading_log(4)], use run GetOne in simp)
  next
    case (Install p) show ?thesis unfolding Install by (rule act_emits(2) [OF changing_log(1)], use run Install in simp)
  next
    case (Remove k v) show ?thesis unfolding Remove by (rule act_emits(2) [OF changing_log(2)], use run Remove in simp)
  next
    case FactoryReset show ?thesis unfolding FactoryReset by (rule act_emits(1) [OF changing_log(3)], use run FactoryReset in simp)
  next
    case (RunCapability p) show ?thesis unfolding RunCapability by (rule act_emits(2) [OF run_log [OF calls]], use run RunCapability in simp)
  next
    case (OauthStart p) show ?thesis unfolding OauthStart by (rule act_emits(1) [OF oauth_log(1)], use run OauthStart in simp)
  next
    case (OauthComplete p) show ?thesis unfolding OauthComplete by (rule act_emits(1) [OF oauth_log(2)], use run OauthComplete in simp)
  qed
qed

end

lemma registries_are_quiet:
  assumes "a \<in> set (registries_for X eg rc)"
  shows "quiet (a q)"
proof -
  have urls: "quiet (http_urls sha v (egress_request cfg tr) name q us)" for sha v cfg tr name us
    by (induction us) (auto simp: load_url_def intro!: quiet_rules)
  from assms show ?thesis
    by (cases rule: registries_for_cases)
       (simp_all add: static_list_def static_load_def http_list_def mcp_list_def Let_def quiet_rules urls)
qed

interpretation audited: audited_application "app_with X config eg" eg "audit_payload (x_sha X) (x_timestamp X) (service_name config)"
  for X config eg
proof (rule audited_application.intro [OF app.application_axioms], rule audited_application_axioms.intro)
  fix a q assume "a \<in> set (r_adapters (s_resolver (app_with X config eg)))"
  then show "quiet (a q)" by (intro registries_are_quiet) (simp add: app_with_def Let_def resolver_with_def)
next
  fix M assume "s_oauth (app_with X config eg) = Inr M"
  then show "logged_onboarding M (audit_payload (x_sha X) (x_timestamp X) (service_name config))"
    by (elim app_oauth) (simp add: logged.logged_onboarding_axioms)
qed

section \<open>Properties\<close>

text \<open>
  C10: the audit trail: whatever a request does, the audit log keeps its entries and only
  gets new audit events at its end, and no used nonce is forgotten. A request that is
  answered leaves exactly the events of its route, in that order, for the authenticated
  user; those of the capability routes carry the id of the request. The callables of this
  repository write no event themselves, and those of other modules are assumed not to.
\<close>

theorem audit_trail_exact:
  assumes "callables_quiet (x_runtime X)"
  shows "case create_app (deployed H X) config controller of
     Inl e \<Rightarrow> True
   | Inr S \<Rightarrow>
       (case dispatch S rq us r s of (out, s') \<Rightarrow>
          \<exists>es. w_log (sv_world s') = w_log (sv_world s)
                 @ map (\<lambda>e. (ae_event e, audit_payload (x_sha X) (x_timestamp X) (service_name config) e)) es
            \<and> set (w_nonces (sv_world s)) \<subseteq> set (w_nonces (sv_world s'))
            \<and> (case out of
                  Inl e \<Rightarrow> True
                | Inr j \<Rightarrow>
                    (case admit S rq (route_tier r) of Inl e \<Rightarrow> False | Inr user \<Rightarrow> success_log S rq user r j es)))"
proof (cases "create_app (deployed H X) config controller")
  case (Inr S)
  then obtain eg where S: "S = app_with (deployed H X) config eg" by (auto simp: create_app_def split: if_splits)
  let ?pay = "audit_payload (x_sha X) (x_timestamp X) (service_name config)"
  have pay: "audit_payload (x_sha (deployed H X)) (x_timestamp (deployed H X)) (service_name config) = ?pay"
    by (simp add: deployed_def)
  have calls: "callables_quiet (r_runtime (s_resolver S))" unfolding S deployed_runtime by (rule seed_quiet [OF assms])
  obtain out s' where d: "dispatch S rq us r s = (out, s')" by fastforce
  have "\<exists>es. w_log (sv_world s') = w_log (sv_world s) @ map (entry ?pay) es
      \<and> set (w_nonces (sv_world s)) \<subseteq> set (w_nonces (sv_world s'))
      \<and> (case out of Inl e \<Rightarrow> True
         | Inr j \<Rightarrow> (case admit S rq (route_tier r) of Inl e \<Rightarrow> False | Inr user \<Rightarrow> success_log S rq user r j es))"
  proof (cases "admit S rq (route_tier r)")
    case (Inl e)
    with d have "out = Inl e" "s' = s" by (auto simp: dispatch_def)
    then show ?thesis by (intro exI [of _ "[]"]) simp
  next
    case (Inr user)
    show ?thesis
    proof (cases "body_ok r")
      case True
      with d Inr have "handle S rq user us r s = (out, s')" by (simp add: dispatch_def)
      from audited.handle_log [of "deployed H X" config eg, unfolded pay, folded S, OF calls this] show ?thesis
        unfolding Inr sum.case .
    next
      case False
      with d Inr show ?thesis by (intro exI [of _ "[]"]) (auto simp: dispatch_def)
    qed
  qed
  then show ?thesis by (simp add: Inr d entry_def [abs_def])
qed simp

lemma audit_trail_exact_witness:
  "\<exists>out s' es. dispatch (app_with (deployed sample_host sample_outside) sample_config sample_egress) local_client (Dec 5 (- 3))
       ListAll sample_process = (out, s')
     \<and> w_log (sv_world s') = w_log sample_world @ map (\<lambda>e. (ae_event e, audit_payload (x_sha sample_outside)
           (x_timestamp sample_outside) (service_name sample_config) e)) es"
proof -
  have "callables_quiet (x_runtime sample_outside)"
    by (simp add: callables_quiet_def sample_outside_def quiet_runtime_def)
  from audit_trail_exact [where H = sample_host and config = sample_config and controller = None and rq = local_client
      and us = "Dec 5 (- 3)" and r = ListAll and s = sample_process, OF this]
  show ?thesis
    by (fastforce simp: create_app_def egress_of_def sample_config_def sample_process_def split: prod.splits)
qed

end
