(* ===== verification/Demo.thy ===== *)
theory Demo
  imports System_Laws Audit_Trail
begin

text \<open>
  scripts/demo.py: the demonstration that README.md names. It makes its own store in a
  temporary directory over the shipped catalog, answers its own OAuth requests, and goes
  through three steps: running a local tool, searching, and onboarding a connector. What it
  prints is the list it returns. httpx's reading of a URL and its error for a bad status are
  parameters, as are the temporary directory and the generated key. The theorem shows how far it gets.
\<close>

section \<open>The outside of the demonstration\<close>

record demo_setting =
  dm_tmp :: path
  dm_repo :: path
  dm_key :: string
  dm_host :: "string \<Rightarrow> string"
  dm_path :: "string \<Rightarrow> string"
  dm_status_error :: "int \<Rightarrow> exc"

definition json_answer :: "demo_setting \<Rightarrow> int \<Rightarrow> json \<Rightarrow> http_response" where
  "json_answer D n j = \<lparr>rs_status = n, rs_raise = (if 400 \<le> n then Some (dm_status_error D n) else None), rs_json = Inr j\<rparr>"

text \<open>The handler of the mock transport.\<close>

definition demo_transport :: "demo_setting \<Rightarrow> transport" where
  "demo_transport D rq =
     (let host = dm_host D (rq_url rq); p = dm_path D (rq_url rq) in
      if host = ''oauth2.googleapis.com'' \<and> p = ''/device/code'' then
        Inr (json_answer D 200 (JObj
          [(''device_code'', JStr ''device-code-secret''), (''user_code'', JStr ''ABCD-EFGH''),
           (''verification_uri'', JStr ''https://example.com/verify''), (''expires_in'', JInt 600), (''interval'', JInt 1)]))
      else if host = ''oauth2.googleapis.com'' \<and> p = ''/token'' then
        Inr (json_answer D 200 (JObj [(''refresh_token'', JStr ''refresh-token-secret'')]))
      else Inr (json_answer D 404 (JObj [(''error'', JStr ''not found'')])))"

definition demo_egress :: egress_config where
  "demo_egress = \<lparr>allowlist = [''https://oauth2.googleapis.com''], denylist = [], allow_private_networks = False\<rparr>"

definition demo_store :: "demo_setting \<Rightarrow> capability_store" where
  "demo_store D = \<lparr>base_dir = dm_tmp D,
     base_catalog_path = Some (dm_repo D @ [''manifests'', ''manifest.base.json'']), repo_root = dm_repo D\<rparr>"

text \<open>The controller is given to the execution engine only; no step installs anything.\<close>

definition demo_resolver :: "outside \<Rightarrow> demo_setting \<Rightarrow> resolver" where
  "demo_resolver X D =
     \<lparr>r_store = demo_store D, r_policy = \<lparr>trust_allow = [''local'', ''verified'', ''community'']\<rparr>, r_runtime = x_runtime X,
      r_egress = Some demo_egress, r_transport = demo_transport D,
      r_adapters = [static_list (x_sha X) (x_validator X) ''static_catalog'' (dm_repo D @ [''registries'', ''static_catalog.json''])],
      r_validator = x_validator X, r_sha = x_sha X, r_clock = x_clock X, r_env = x_env X, r_resolve_path = x_resolve X\<rparr>"

text \<open>The environment after the two assignments to \<open>os.environ\<close>.\<close>

definition demo_env :: "outside \<Rightarrow> demo_setting \<Rightarrow> env" where
  "demo_env X D = (x_env X)(''UNISON_CAPABILITY_SECRETS_KEY'' \<mapsto> dm_key D, ''UNISON_OAUTH_GOOGLE_CLIENT_ID'' \<mapsto> ''client-id'')"

definition demo_oauth :: "outside \<Rightarrow> demo_setting \<Rightarrow> oauth_manager res" where
  "demo_oauth X D =
     default_oauth_manager (x_encrypt X) (x_decrypt X) (x_key_file X) (x_generated X) (x_token X) (demo_store D) demo_egress
       (demo_transport D) (x_validator X) (demo_env X D) (now_us (x_clock X))
       (audit_emit (x_sha X) (x_timestamp X) ''unison-capability-demo'')"

definition demo_principal :: json where
  "demo_principal = JObj [(''username'', JStr ''service-orchestrator''), (''roles'', JArr [JStr ''service''])]"

text \<open>\<open>d[k]\<close>\<close>

definition py_item :: "json \<Rightarrow> string \<Rightarrow> json res" where
  "py_item d k = (case dget (entries d) k of Some x \<Rightarrow> Inr x | None \<Rightarrow> Inl (PyError KeyError k))"

section \<open>The three steps\<close>

definition demo_run :: "outside \<Rightarrow> demo_setting \<Rightarrow> json io" where
  "demo_run X D =
     io_bind (resolver_resolve (demo_resolver X D) (JObj [(''intent'', JStr ''host.info''), (''constraints'', JObj [])])) (\<lambda>c1.
     io_bind (io_lift (py_item (cand_manifest c1) ''id'')) (\<lambda>i.
     resolver_run (demo_resolver X D) (py_str i) (JObj [])))"

definition demo_search :: "outside \<Rightarrow> demo_setting \<Rightarrow> json list io" where
  "demo_search X D =
     io_bind (resolver_search (demo_resolver X D) ''echo'' (JObj [])) (\<lambda>results.
     case results of
       [] \<Rightarrow> io_raise (PyError IndexError ''list index out of range'')
     | best # _ \<Rightarrow>
         io_bind (io_lift (py_item (cand_manifest best) ''id'')) (\<lambda>i. io_return [JStr (cand_source best), i]))"

definition demo_onboard :: "outside \<Rightarrow> demo_setting \<Rightarrow> json list io" where
  "demo_onboard X D =
     io_bind (io_lift (demo_oauth X D)) (\<lambda>M.
     io_bind (oauth_start M (x_token X) (x_session X) ''connector.google.calendar'' demo_principal) (\<lambda>started.
     io_bind (io_lift (py_item started ''session_id'')) (\<lambda>sid.
     io_bind (oauth_complete M (x_token X) (py_str sid) demo_principal) (\<lambda>complete.
     io_bind (resolver_get ((demo_resolver X D)\<lparr>r_env := demo_env X D\<rparr>) ''connector.google.calendar'' None) (\<lambda>m.
     io_return [JObj (filter (\<lambda>(k, v). k \<noteq> ''session_id'') (entries started)), sid, complete, jget m ''enabled'', jget m ''secrets''])))))"

text \<open>
  \<open>tempfile.TemporaryDirectory\<close>: made on entry, in a directory that can be reached, and removed
  with all it holds on exit.
\<close>

definition make_temp_dir :: "path \<Rightarrow> unit io" where
  "make_temp_dir p = prim (\<lambda>s. if path_exists s p then Inl (os_error 17)
     else if \<not> dir_ready s (parent p) then Inl (os_error 2) else Inr ((), fs_put p DirN s))"

definition demo_main :: "outside \<Rightarrow> demo_setting \<Rightarrow> json list io" where
  "demo_main X D =
     io_bind (make_temp_dir (dm_tmp D)) (\<lambda>_.
     io_finally
       (io_bind (demo_run X D) (\<lambda>out1.
        io_bind (demo_search X D) (\<lambda>found.
        io_bind (demo_onboard X D) (\<lambda>onboarded. io_return (out1 # found @ onboarded)))))
       (rmtree_strict (dm_tmp D)))"

section \<open>How far it gets\<close>

lemma demo_listing_reads: "reads_only (static_list sha v name p q)"
  unfolding static_list_def static_load_def read_json_def Let_def
  by (intro reads_rules)

lemma demo_listing_quiet: "quiet (static_list sha v name p q)"
  unfolding static_list_def static_load_def Let_def
  by (intro quiet_rules)

lemma demo_search_locks: "locks_only (store_lock (demo_resolver X D)) (resolver_search (demo_resolver X D) i c)"
proof -
  have ask: "reads_only (ask_adapters as q)" if "\<forall>a \<in> set as. \<forall>q. reads_only (a q)" for as q
    using that by (induction as) (auto intro!: reads_rules)
  show ?thesis
    unfolding resolver_search_def
    by (intro locks_bind locks_with_lock locks_reads reads_rules ask lock_path_not_Nil) (simp add: demo_resolver_def demo_listing_reads)
qed

lemma demo_search_quiet: "quiet (resolver_search (demo_resolver X D) i c)"
proof -
  have ask: "quiet (ask_adapters as q)" if "\<forall>a \<in> set as. \<forall>q. quiet (a q)" for as q
    using that by (induction as) (auto intro!: quiet_rules)
  show ?thesis
    unfolding resolver_search_def
    by (intro quiet_rules ask) (simp add: demo_resolver_def demo_listing_quiet)
qed

lemma demo_resolve_frame:
  "locks_only (store_lock (demo_resolver X D)) (resolver_resolve (demo_resolver X D) step)"
  "quiet (resolver_resolve (demo_resolver X D) step)"
proof -
  have "locks_only p (if b then m else n)" if "locks_only p m" "locks_only p n" for p b and m n :: "candidate io"
    using that by simp
  note branch = this
  show "locks_only (store_lock (demo_resolver X D)) (resolver_resolve (demo_resolver X D) step)"
    unfolding resolver_resolve_def Let_def
    by (intro branch locks_bind demo_search_locks locks_reads) (auto intro!: reads_rules split: option.split)
  show "quiet (resolver_resolve (demo_resolver X D) step)"
    unfolding resolver_resolve_def Let_def by (intro quiet_rules demo_search_quiet)
qed

text \<open>The first step fails, with no other effect than the lock file.\<close>

definition demo_idle :: "outside \<Rightarrow> demo_setting \<Rightarrow> world \<Rightarrow> world \<Rightarrow> bool" where
  "demo_idle X D w w' \<longleftrightarrow> lock_made (store_lock (demo_resolver X D)) (w_fs w) (w_fs w') \<and> w_sent w' = w_sent w \<and> w_log w' = w_log w"

lemma demo_idle_trans: "demo_idle X D u v \<Longrightarrow> demo_idle X D v w \<Longrightarrow> demo_idle X D u w"
  by (auto simp: demo_idle_def intro: lock_made_trans)

lemma demo_run_raises:
  assumes "manifest_validator (x_validator X)"
    and "str_lower (getenv (x_env X) ''UNISON_CAPABILITY_ALLOW_LEGACY'' ''false'') \<noteq> ''true''"
  shows "\<exists>e w'. demo_run X D w = (Inl e, w') \<and> demo_idle X D w w'"
proof -
  let ?R = "demo_resolver X D"
  have "\<exists>e w'. resolver_run ?R k args u = (Inl e, w') \<and> demo_idle X D u w'" for k args u
  proof -
    obtain x w' where gate: "run_gate ?R k args u = (x, w')" by fastforce
    have "run_gate ?R k args u \<noteq> (Inr m, w')" for m
      by (rule gate_closed) (simp_all add: demo_resolver_def assms)
    with gate obtain e where e: "run_gate ?R k args u = (Inl e, w')" by (cases x) auto
    have "quiet (run_gate ?R k args)" unfolding run_gate_def run_checks_def Let_def by (intro quiet_rules)
    from quietD [OF this e] gate_raises [OF e] run_after_gate(1) [OF e] show ?thesis unfolding demo_idle_def by blast
  qed
  note run = this
  obtain r w1 where res: "resolver_resolve ?R (JObj [(''intent'', JStr ''host.info''), (''constraints'', JObj [])]) w = (r, w1)"
    by fastforce
  have same: "demo_idle X D w w1"
    using locks_onlyD [OF demo_resolve_frame(1) res] quietD [OF demo_resolve_frame(2) res] unfolding demo_idle_def by blast
  show ?thesis
  proof (cases r)
    case (Inl e)
    with res same show ?thesis by (simp add: demo_run_def io_bind_def)
  next
    case (Inr c)
    show ?thesis
    proof (cases "py_item (cand_manifest c) ''id''")
      case (Inl e)
      with res same \<open>r = Inr c\<close> show ?thesis by (simp add: demo_run_def io_bind_def io_lift_def)
    next
      case (Inr i)
      obtain e w' where "resolver_run ?R (py_str i) (JObj []) w1 = (Inl e, w')" "demo_idle X D w1 w'"
        using run by blast
      with res Inr \<open>r = Inr c\<close> demo_idle_trans [OF same] show ?thesis
        by (simp add: demo_run_def io_bind_def io_lift_def)
    qed
  qed
qed

text \<open>In a temporary directory that has been made, the lock lies within it.\<close>

lemma made_temp_dir:
  assumes "make_temp_dir p w = (Inr u, w')"
  shows "dir_ready (w_fs w') p"
proof -
  have p: "p \<noteq> []" and parent: "dir_ready (w_fs w) (parent p)" and w': "w_fs w' = fs_put p DirN (w_fs w)"
    using assms by (auto simp: make_temp_dir_def prim_def Let_def path_exists_def split: option.splits if_splits)
  have "prefixes_of p = prefixes_of (parent p) @ [p]"
    using p by (cases p rule: rev_cases) (simp_all add: prefixes_snoc parent_def)
  with parent show ?thesis by (simp add: dir_ready_def w' list_all_iff)
qed

lemma lock_within:
  assumes "dir_ready s p" and "lock_made (p @ x) s s'"
  shows "same_off {q. is_prefix p q} s s'"
  unfolding same_off_def
proof (intro allI impI)
  fix q assume q: "q \<notin> {q. is_prefix p q}"
  show "fs_get s' q = fs_get s q"
  proof (rule ccontr)
    assume "fs_get s' q \<noteq> fs_get s q"
    with lock_madeD [OF assms(2), of q] q have new: "fs_get s q = None" "q \<noteq> []" "is_prefix q (p @ x)"
      by (auto simp: is_prefix_iff split: if_splits)
    with q have "is_prefix q p" by (auto simp: is_prefix_iff append_eq_append_conv2)
    with new(2) have "q \<in> set (prefixes_of p)"
    proof -
      from \<open>is_prefix q p\<close> obtain r where "p = q @ r" by (auto simp: is_prefix_iff)
      then have "q = take (length q) p" "length q \<in> set [1..<Suc (length p)]"
        using new(2) by (simp_all add: Suc_le_eq less_Suc_eq_le del: upt_Suc)
      then show ?thesis unfolding prefixes_of_def by (metis image_eqI list.set_map)
    qed
    with assms(1) new(1) show False by (auto simp: dir_ready_def list_all_iff)
  qed
qed

lemma temp_dir_frame:
  "sends_only P (make_temp_dir p)" "quiet (make_temp_dir p)" "touches {q. is_prefix p q} (make_temp_dir p)"
  "sends_only P (rmtree_strict p)" "quiet (rmtree_strict p)" "touches {q. is_prefix p q} (rmtree_strict p)"
proof -
  show "sends_only P (make_temp_dir p)" unfolding make_temp_dir_def by (intro sends_rules)
  show "quiet (make_temp_dir p)" unfolding make_temp_dir_def by (intro quiet_rules)
  show "touches {q. is_prefix p q} (make_temp_dir p)"
    unfolding make_temp_dir_def
    by (rule touches_prim) (auto simp: same_off_put split: if_splits)
  show "sends_only P (rmtree_strict p)" unfolding rmtree_strict_def rmdir_def unlink_def by (intro sends_rules)
  show "quiet (rmtree_strict p)" unfolding rmtree_strict_def by (intro quiet_rules)
  show "touches {q. is_prefix p q} (rmtree_strict p)" by (rule area_rmtree_strict) simp
qed

lemma unsent:
  assumes "sends_only (\<lambda>_. False) m" and "m w = (r, w')"
  shows "w_sent w' = w_sent w"
proof -
  from sends_onlyD [OF assms] obtain l where "w_sent w' = w_sent w @ l" "\<forall>rq \<in> set l. False" by blast
  then show ?thesis by (cases l) auto
qed

lemma same_off_step:
  assumes "touches A m" and "m w = (r, w')"
  shows "same_off A (w_fs w) (w_fs w')"
  using tripleD [OF touchesD [OF assms(1), of "w_fs w"] same_off_refl assms(2)] by (cases r) simp_all

lemma temp_dir_step:
  assumes "m = make_temp_dir p \<or> m = rmtree_strict p" and "m w = (r, w')"
  shows "w_sent w' = w_sent w \<and> w_log w' = w_log w \<and> same_off {q. is_prefix p q} (w_fs w) (w_fs w')"
proof -
  have "sends_only (\<lambda>_. False) m" "quiet m" "touches {q. is_prefix p q} m" using assms(1) temp_dir_frame by blast+
  with assms(2) show ?thesis using unsent quietD same_off_step by blast
qed

text \<open>
  C28: unless the environment allows legacy manifests, the demonstration ends with an exception
  at its first step: it runs a capability of the shipped catalog, which has no governance
  block, so the run fails closed. No request is sent, no event written, and no file outside
  its temporary directory changes, whatever the shipped catalogs, the transport and the
  faults of the file system.
\<close>

theorem demo_stops_at_first_run:
  assumes "manifest_validator (x_validator X)"
    and "str_lower (getenv (x_env X) ''UNISON_CAPABILITY_ALLOW_LEGACY'' ''false'') \<noteq> ''true''"
    and "demo_main X D w = (r, w')"
  shows "\<not> is_ok r \<and> w_sent w' = w_sent w \<and> w_log w' = w_log w
    \<and> same_off {q. is_prefix (dm_tmp D) q} (w_fs w) (w_fs w')"
proof -
  obtain a w1 where make: "make_temp_dir (dm_tmp D) w = (a, w1)" by fastforce
  note made = temp_dir_step [OF disjI1 [OF refl] make]
  show ?thesis
  proof (cases a)
    case (Inl e)
    with make made assms(3) show ?thesis by (auto simp: demo_main_def io_bind_def is_ok_def)
  next
    case (Inr u)
    obtain e w2 where run: "demo_run X D w1 = (Inl e, w2)" "demo_idle X D w1 w2"
      using demo_run_raises [OF assms(1,2)] by blast
    have "store_lock (demo_resolver X D) = dm_tmp D @ [''locks'', ''store.lock'']"
      by (simp add: store_lock_def demo_resolver_def demo_store_def lock_path_def locks_dir_def)
    with run(2) lock_within [OF made_temp_dir [OF make [unfolded Inr]]]
    have idle: "same_off {q. is_prefix (dm_tmp D) q} (w_fs w1) (w_fs w2)" "w_sent w2 = w_sent w1" "w_log w2 = w_log w1"
      unfolding demo_idle_def by auto
    obtain b w3 where remove: "rmtree_strict (dm_tmp D) w2 = (b, w3)" by fastforce
    from make Inr run(1) remove assms(3) have "w' = w3" "\<not> is_ok r"
      by (auto simp: demo_main_def io_bind_def io_finally_def is_ok_def split: sum.splits)
    with temp_dir_step [OF disjI2 [OF refl] remove] made idle show ?thesis
      using same_off_trans by metis
  qed
qed

definition sample_demo :: demo_setting where
  "sample_demo = \<lparr>dm_tmp = [''demo''], dm_repo = [''opt''], dm_key = ''k'', dm_host = (\<lambda>_. ''oauth2.googleapis.com''),
     dm_path = (\<lambda>_. ''/token''), dm_status_error = (\<lambda>_. PyError RuntimeError ''status'')\<rparr>"

text \<open>A shipped catalog with the tool the first step looks for.\<close>

definition shipped_world :: world where
  "shipped_world = blank_world\<lparr>w_fs :=
     [([''opt''], DirN), ([''opt'', ''manifests''], DirN),
      ([''opt'', ''manifests'', ''manifest.base.json''],
       FileN (Doc (catalog_payload [(''host.info'', JObj ((''id'', JStr ''host.info'') # tl (entries demo_manifest)))])))]\<rparr>"

lemma demo_stops_at_first_run_witness:
  "case demo_main sample_outside sample_demo shipped_world of (r, w') \<Rightarrow>
     \<not> is_ok r \<and> w_sent w' = [] \<and> w_log w' = [] \<and> w_fs w' = w_fs shipped_world"
proof -
  have "getenv (x_env sample_outside) ''UNISON_CAPABILITY_ALLOW_LEGACY'' ''false'' = ''false''"
    by (simp add: sample_outside_def getenv_def)
  moreover have "str_lower ''false'' \<noteq> ''true''" by code_simp
  moreover have "manifest_validator (x_validator sample_outside)"
    using reference.manifest_validator_axioms by (simp add: sample_outside_def)
  moreover have "w_fs (snd (demo_main sample_outside sample_demo shipped_world)) = w_fs shipped_world" by code_simp
  moreover have "w_sent shipped_world = []" "w_log shipped_world = []" by (simp_all add: shipped_world_def blank_world_def)
  ultimately show ?thesis
    using demo_stops_at_first_run [of sample_outside sample_demo shipped_world]
    by (cases "demo_main sample_outside sample_demo shipped_world") auto
qed

end
