(* ===== verification/Spec2Isabelle.thy ===== *)
theory Spec2Isabelle
  imports Resolver_Laws Oauth_Laws Security Secrets Targets Ecosystem Audit_Log Seed_Tools Server_Laws Concurrency
    System_Laws Answers Audit_Trail Demo
begin

text \<open>
  The capability resolver of Unison OS (src/src/): a service that keeps a catalog of
  capabilities, finds one for an intent, installs it, onboards it with OAuth, and runs it
  under policy.

  \<^bold>\<open>The parts and how they interact.\<close> \<open>server.py\<close> reads a configuration (\<open>config.py\<close>), admits
  requests (\<open>security.py\<close>) and calls the resolver (\<open>resolver.py\<close>) or the OAuth manager
  (\<open>oauth.py\<close>); it audits what happens (\<open>audit.py\<close>). The resolver merges the shipped with the
  local catalog (\<open>store.py\<close>), asks registries (\<open>discovery.py\<close>), applies the trust policy
  (\<open>policy.py\<close>), validates manifests (\<open>schema.py\<close>), installs them (\<open>installer.py\<close>, by atomic
  writes, \<open>atomic.py\<close>, under file locks, \<open>locks.py\<close>), authorizes governed runs
  (\<open>governance.py\<close>) and hands them to the execution engine (\<open>execution.py\<close>), whose Python
  callables are those of \<open>capability_builtins.py\<close>, \<open>seed_tools.py\<close> and \<open>skillpack_runtime.py\<close>.
  Everything that leaves over HTTP goes through \<open>egress.py\<close>. The OAuth manager keeps tokens in
  \<open>credential_secrets.py\<close>. \<open>ecosystem.py\<close> and \<open>semantic_targets.py\<close> are libraries beside.

  \<^bold>\<open>Theories.\<close>
  \<^item> Prelude: exceptions as the datatype \<open>exc\<close> (\<open>errors.py\<close> and the built-in ones the code
    meets), results as \<open>exc + 'a\<close>, dictionaries as association lists. Pystr, Json, Url: what
    the code uses of Python's strings, data model, \<open>json\<close>, \<open>ipaddress\<close> and \<open>urllib.parse\<close>.
    Json_Order: what survives the sorting of keys when a document is written and read.
  \<^item> World: the file system, the requests sent, the audit log and the nonces as one state, the
    monad \<open>io\<close> over it, and triples \<open>triple Q m R\<close> that hold at every step of \<open>m\<close>.
  \<^item> Atomic, Store, Catalog, Installer: \<open>atomic.py\<close>, \<open>store.py\<close> and \<open>installer.py\<close>. An update of
    the local catalog is atomic and an installation is complete or absent, whatever fails and
    wherever the process is killed; catalogs refine dictionaries.
  \<^item> Schema, Policy, Governance, Ecosystem, Targets: the checks, each shown equivalent to a
    condition stated apart from the code, with round trips for signatures and bindings.
  \<^item> Config, Security, Audit_Log: the configuration and its defaults, authentication and tiers,
    audit payloads.
  \<^item> Egress, Discovery, Execution: the guarded client and its users. \<open>sends_only P m\<close> says that
    \<open>m\<close> sends requests to URLs in \<open>P\<close> only, and has a rule for every combinator.
  \<^item> File_Lock, Locks, Concurrency: \<open>locks.py\<close> three times. File_Lock is what acquiring a lock
    does on disk: it may make the lock file and the directories on the way to it
    (\<open>lock_made\<close>), and it may fail; \<open>with_lock\<close> stands where the code has a \<open>with\<close> statement.
    Locks has the lock programs of the resolver's operations as threads that interleave, with
    mutual exclusion and absence of deadlock. Concurrency has the updates of the local catalog
    at the steps where clients interleave; serializable under the lock, lost without it.
  \<^item> Secrets: the backend of \<open>credential_secrets.py\<close> refines a map from handles to values.
  \<^item> Resolver, Resolver_Laws, Oauth, Oauth_Laws: the operations, then what they promise. Each
    touches its part of the disk only; installing stores the manifest that was checked;
    removing refines removal from a pair of dictionaries; running is gated.
  \<^item> Seed_Tools: the Python callables, with what they can read, write and return.
  \<^item> Server, Server_Laws: the application and its start-up. A request changes what its route may
    change and only when it is admitted; the process sends only what the egress policy allows;
    failures are answered and audited; metrics count what was served; the default service is closed.
  \<^item> System_Laws, Answers, Audit_Trail: the service over sequences of requests. The catalogs stay
    readable and valid at every step, every answer has the type of its route, and the audit log
    holds exactly the events of the requests. Each rests on rules for the combinators of
    \<open>io\<close> (\<open>guards\<close>, \<open>yields\<close>, \<open>quiet\<close> and \<open>emits\<close>), applied to every operation once.
  \<^item> Demo: \<open>scripts/demo.py\<close>, a client of the resolver and the OAuth manager, and how far it gets.

  \<^bold>\<open>Interfaces.\<close> The locales \<open>manifest_validator\<close>, \<open>guarded_client\<close>, \<open>registry_adapter\<close>,
  \<open>secrets_backend\<close>, \<open>fernet\<close>, \<open>onboarding\<close>, \<open>application\<close>, \<open>logged_onboarding\<close> and
  \<open>audited_application\<close> name what a component relies on; each
  is interpreted on the definitions that provide it.

  \<^bold>\<open>Parameters.\<close> Code that is not in the repository is an argument: the jsonschema validator, the
  YAML parser, SHA-256 and HMAC, Ed25519 and Fernet, the HTTP transport, imports of other
  modules, unison_common, clocks, random names, links in the file system, the addition of
  floats. \<open>subprocess.run\<close> is one too: it maps the call and the file system to its outcome and
  to the file systems the program leaves one after the other, any at all. What theorems need
  of it, or of a callable of another module, is among their assumptions: \<open>runtime_touches A\<close>
  (they change only files in \<open>A\<close>), \<open>callables_send P\<close> and \<open>callables_quiet\<close>. The callables of this repository need no assumption;
  \<open>deployed\<close> is the application with them, other modules staying as they are.

  \<^bold>\<open>Errors and crashes.\<close> Every primitive file operation takes an entry of a fault schedule and
  fails with it, and every state of the disk is recorded; theorems hold for all schedules, and
  those about crashes for every recorded state. There is no fuel: every function terminates.

  \<^bold>\<open>Bounds of the model.\<close> Characters have 8 bits. Floats are exact decimals and scores multiples of
  0.25. A file holds a JSON document or another text; modes and
  owners of files are left out, and listing a directory does not fail. An operation of the
  resolver, the OAuth manager or the server runs alone; how operations interleave is in
  Locks and Concurrency. Acquiring a lock can fail at each of its steps; releasing one has no effect on disk and
  is taken not to fail.

  \<^bold>\<open>Not modelled.\<close> The FastAPI application itself with its tracing, CORS and audit middlewares and
  uvicorn (third-party wiring), the logging of audit events (the log is what \<open>audit_emit\<close> appends),
  and the import fallbacks around unison_common.

  \<^bold>\<open>What modelling showed.\<close> Among others: a manifest fetched from a URL escapes the install policy;
  removing a shipped capability twice enables it again; no capability of a catalog runs with
  the default settings; resolving offers a capability of the catalog for an intent that none
  mentions; a URL rule without a path does not end at its host; a timeout of NaN passes the
  governance check; fs_write opens another path than it has checked and may replace the
  catalog; a failed installation can go unaudited; completing an OAuth session can undo a
  concurrent installation; the demonstration ends at its first step; the success events of
  OAuth carry no request id.
\<close>

end
